(* ===== verification/Dao_Prelude.thy ===== *)
theory Dao_Prelude
  imports Main
begin

text \<open>
  Shared vocabulary of the development: the error values of the Go code as one datatype,
  the models of the three functions of Go's \<open>strings\<close> package that the repository calls
  (\<open>strings.Index\<close>, \<open>strings.Replace\<close> with count 1, \<open>strings.ToLower\<close>), and the
  generic list lemmas the component theories share, collected in \<open>dao_simps\<close>.
  Go strings are byte strings; they are modelled as \<^typ>\<open>string\<close>, one \<^typ>\<open>char\<close>
  per byte.
\<close>

named_theorems dao_simps \<open>rewrite rules shared by the component theories\<close>

section \<open>Errors\<close>

text \<open>
  Every \<open>return nil, err\<close> of the source is a constructor here. Wrapping with
  \<open>fmt.Errorf("... %s", err.Error())\<close> keeps the wrapped error as an argument, so that a
  theorem can say which failure surfaced. \<open>NilErrorDeref\<close> is the run-time panic of
  calling \<open>Error()\<close> on a nil \<open>error\<close> value.
\<close>

datatype dao_error =
    ConfigPathFailed
  | ConfigDecodeFailed
  | ConfigEncodeFailed
  | ConfigWriteFailed
  | FileReadFailed string
  | PemDecodeFailed
  | CertParseFailed
  | CertExpired
  | CertNotYetValid
  | KeyPairFailed
  | NoRootCA
  | NilErrorDeref
  | TLSFailed dao_error
  | OpenFailed string
  | ConnectFailed
  | CreateDatabaseFailed
  | ReopenFailed string
  | CreateTablesFailed
  | MySQLObjectFailed dao_error
  | InvalidDBType string
  | NotInitialized
  | CloseFailed

text \<open>
  A panic is not an error value: it unwinds through every caller, past their
  \<open>fmt.Errorf\<close> wrapping, up to \<open>main\<close>, where it ends the process. A result
  \<open>Inl NilErrorDeref\<close> stands for that unwinding, and \<open>wrap_err\<close> is a caller's
  wrapping of the error it got back, which a panic passes through unchanged.
\<close>

definition wrap_err :: "(dao_error \<Rightarrow> dao_error) \<Rightarrow> dao_error \<Rightarrow> dao_error" where
  "wrap_err f e = (if e = NilErrorDeref then NilErrorDeref else f e)"

section \<open>The Go \<open>strings\<close> functions the code calls\<close>

text \<open>\<open>find_sub p s\<close>: the first index at which \<open>p\<close> occurs in \<open>s\<close>.\<close>

fun find_sub :: "string \<Rightarrow> string \<Rightarrow> nat option" where
  "find_sub p [] = (if p = [] then Some 0 else None)"
| "find_sub p (c # cs) =
     (if take (length p) (c # cs) = p then Some 0 else map_option Suc (find_sub p cs))"

text \<open>\<open>strings.Index(s, substr)\<close>: the first index, or \<open>-1\<close>.\<close>

definition go_index :: "string \<Rightarrow> string \<Rightarrow> int" where
  "go_index s sub = (case find_sub sub s of None \<Rightarrow> -1 | Some i \<Rightarrow> int i)"

text \<open>
  \<open>strings.Replace(s, old, new, 1)\<close>: the first occurrence of \<open>old\<close> replaced; an empty
  \<open>old\<close> matches at the start.
\<close>

definition go_replace1 :: "string \<Rightarrow> string \<Rightarrow> string \<Rightarrow> string" where
  "go_replace1 s old new =
     (if old = [] then new @ s
      else (case find_sub old s of
              None \<Rightarrow> s
            | Some i \<Rightarrow> take i s @ new @ drop (i + length old) s))"

text \<open>
  \<open>strings.ToLower\<close>: on an ASCII string (Go's fast path, \<open>isASCII\<close>) the letters
  \<open>A\<close>-\<open>Z\<close> are mapped to lower case and every other byte is kept. A string with a
  byte \<open>\<ge> 0x80\<close> goes through \<open>strings.Map(unicode.ToLower, s)\<close>, which decodes UTF-8
  runes and applies the Unicode case tables; that path is not modelled and its result is
  left unspecified (\<open>undefined s\<close>), so that no property depends on it.
\<close>

definition go_lower_char :: "char \<Rightarrow> char" where
  "go_lower_char c =
     (let n = (of_char c :: nat) in if 65 \<le> n \<and> n \<le> 90 then char_of (n + 32) else c)"

definition go_is_ascii :: "string \<Rightarrow> bool" where
  "go_is_ascii s = list_all (\<lambda>c. (of_char c :: nat) < 128) s"

definition go_to_lower :: "string \<Rightarrow> string" where
  "go_to_lower s = (if go_is_ascii s then map go_lower_char s else undefined s)"

section \<open>The operating system as the code sees it\<close>

text \<open>
  The file system is a map from absolute paths to contents, with the paths whose
  \<open>os.Stat\<close> or read fails for another reason than absence (for example a permission
  error) and the paths that cannot be written. \<open>os_cwd\<close> is the result of
  \<open>os.Getwd\<close>.
\<close>

record os_state =
  os_files :: "string \<rightharpoonup> string"
  os_stat_fails :: "string set"
  os_read_only :: "string set"
  os_cwd :: "string option"

text \<open>\<open>ioutil.ReadFile\<close> and \<open>ioutil.WriteFile\<close>.\<close>

definition read_file :: "os_state \<Rightarrow> string \<Rightarrow> string option" where
  "read_file os p = (if p \<in> os_stat_fails os then None else os_files os p)"

definition write_file :: "os_state \<Rightarrow> string \<Rightarrow> string \<Rightarrow> os_state option" where
  "write_file os p content =
     (if p \<in> os_read_only os \<or> p \<in> os_stat_fails os then None
      else Some (os\<lparr>os_files := (os_files os)(p \<mapsto> content)\<rparr>))"

section \<open>Shared lemmas\<close>

lemma find_sub_prefix [dao_simps]: "find_sub p (p @ s) = Some 0"
proof (cases "p @ s")
  case Nil
  then show ?thesis by simp
next
  case (Cons c cs)
  then have "take (length p) (c # cs) = p"
    by (metis append_eq_conv_conj)
  with Cons show ?thesis by simp
qed

lemma find_sub_Some_occurs:
  "find_sub p s = Some i \<Longrightarrow> i \<le> length s \<and> take (length p) (drop i s) = p"
proof (induction p s arbitrary: i rule: find_sub.induct)
  case (1 p)
  then show ?case by (simp split: if_splits)
next
  case (2 p c cs)
  then show ?case by (auto split: if_splits)
qed

lemma find_sub_None: "find_sub p s = None \<Longrightarrow> \<not> (\<exists>i. take (length p) (drop i s) = p)"
proof (induction p s rule: find_sub.induct)
  case (1 p)
  then show ?case by (simp split: if_splits)
next
  case (2 p c cs)
  then have "take (length p) (c # cs) \<noteq> p" and "find_sub p cs = None"
    by (auto split: if_splits)
  with 2 show ?case
    by (auto simp: drop_Cons' split: if_splits)
qed

lemma go_index_zero_iff [dao_simps]: "go_index s p = 0 \<longleftrightarrow> take (length p) s = p"
proof (cases s)
  case Nil
  then show ?thesis by (auto simp: go_index_def split: option.splits)
next
  case (Cons c cs)
  then show ?thesis by (auto simp: go_index_def split: option.splits)
qed

lemma go_replace1_prefix [dao_simps]:
  "go_replace1 (old @ s) old new = new @ s"
  by (simp add: go_replace1_def dao_simps)

lemma go_replace1_absent:
  "old \<noteq> [] \<Longrightarrow> find_sub old s = None \<Longrightarrow> go_replace1 s old new = s"
  by (simp add: go_replace1_def)

lemma take_length_prefix [dao_simps]: "take (length p) (p @ s) = p"
  by simp

lemma go_to_lower_ascii: "go_is_ascii s \<Longrightarrow> go_to_lower s = map go_lower_char s"
  by (simp add: go_to_lower_def)

lemma go_is_ascii_simps [simp]:
  "go_is_ascii [] = True"
  "go_is_ascii (x # xs) \<longleftrightarrow> (of_char x :: nat) < 128 \<and> go_is_ascii xs"
  "go_is_ascii (xs @ ys) \<longleftrightarrow> go_is_ascii xs \<and> go_is_ascii ys"
  by (simp_all add: go_is_ascii_def)

lemma write_file_Some [dao_simps]:
  "write_file os p c = Some os' \<Longrightarrow> os_files os' = (os_files os)(p \<mapsto> c) \<and>
     os_stat_fails os' = os_stat_fails os \<and> os_read_only os' = os_read_only os \<and> os_cwd os' = os_cwd os"
  by (auto simp: write_file_def split: if_splits)

lemma read_file_write_file [dao_simps]:
  "write_file os p c = Some os' \<Longrightarrow> read_file os' p = Some c"
  by (auto simp: write_file_def read_file_def split: if_splits)

lemma find_sub_None_append: "find_sub p s = None \<Longrightarrow> s \<noteq> u @ p @ v"
  using find_sub_None [of p s] by (metis append_eq_conv_conj drop_all le_add1 length_append
      take_length_prefix add_diff_cancel_left' drop_append)

text \<open>The first occurrence of \<open>p\<close> after a prefix that cannot start it.\<close>

lemma find_sub_after:
  "p \<noteq> [] \<Longrightarrow> hd p \<notin> set q \<Longrightarrow> find_sub p (q @ p @ z) = Some (length q)"
proof (induction q)
  case Nil
  then show ?case by (simp add: find_sub_prefix)
next
  case (Cons c q)
  from Cons.prems have "c \<noteq> hd p" by auto
  with Cons.prems(1) have "take (length p) (c # q @ p @ z) \<noteq> p"
    by (cases p) auto
  with Cons show ?case by simp
qed

lemma go_replace1_after [dao_simps]:
  "p \<noteq> [] \<Longrightarrow> hd p \<notin> set q \<Longrightarrow> go_replace1 (q @ p @ z) p new = q @ new @ z"
  by (simp add: go_replace1_def find_sub_after)

text \<open>A text with no \<open>:\<close> before its last \<open>@\<close> has no \<open>:\<close> followed later by \<open>@\<close>.\<close>

lemma no_colon_then_at:
  "CHR '':'' \<notin> set p \<Longrightarrow> CHR ''@'' \<notin> set rest \<Longrightarrow>
   p @ CHR ''@'' # rest \<noteq> x @ CHR '':'' # y @ CHR ''@'' # z"
proof (induction p arbitrary: x)
  case Nil
  show ?case
  proof
    assume eq: "[] @ CHR ''@'' # rest = x @ CHR '':'' # y @ CHR ''@'' # z"
    show False
    proof (cases x)
      case Nil
      with eq show False by simp
    next
      case (Cons a x')
      with eq have "rest = x' @ CHR '':'' # y @ CHR ''@'' # z" by simp
      with Nil.prems(2) show False by simp
    qed
  qed
next
  case (Cons c p)
  show ?case
  proof
    assume eq: "(c # p) @ CHR ''@'' # rest = x @ CHR '':'' # y @ CHR ''@'' # z"
    show False
    proof (cases x)
      case Nil
      with eq Cons.prems(1) show False by simp
    next
      case (Cons a x')
      with eq have "p @ CHR ''@'' # rest = x' @ CHR '':'' # y @ CHR ''@'' # z" by simp
      with Cons.IH [of x'] Cons.prems show False by simp
    qed
  qed
qed

lemma no_colon_then_at_drop:
  "CHR '':'' \<notin> set p \<Longrightarrow> CHR ''@'' \<notin> set rest \<Longrightarrow>
   drop j (p @ CHR ''@'' # rest) \<noteq> x @ CHR '':'' # y @ CHR ''@'' # z"
proof (cases "j \<le> length p")
  case True
  assume "CHR '':'' \<notin> set p" "CHR ''@'' \<notin> set rest"
  moreover from this(1) have "CHR '':'' \<notin> set (drop j p)"
    using in_set_dropD by fastforce
  ultimately show ?thesis
    using True no_colon_then_at [of "drop j p" rest x y z] by simp
next
  case False
  assume at: "CHR ''@'' \<notin> set rest"
  from False obtain d where d: "j - length p = Suc d"
    by (cases "j - length p") auto
  with False have "drop j (p @ CHR ''@'' # rest) = drop d rest"
    by (simp add: drop_append)
  with at have no: "CHR ''@'' \<notin> set (drop j (p @ CHR ''@'' # rest))"
    by (auto dest: in_set_dropD)
  show ?thesis
  proof
    assume "drop j (p @ CHR ''@'' # rest) = x @ CHR '':'' # y @ CHR ''@'' # z"
    then have "CHR ''@'' \<in> set (drop j (p @ CHR ''@'' # rest))"
      by (simp del: drop_append)
    with no show False by blast
  qed
qed

text \<open>Splitting a string at the first occurrence of a character.\<close>

lemma split_first_eq:
  "c \<notin> set u \<Longrightarrow> c \<notin> set v \<Longrightarrow> u @ c # x = v @ c # y \<Longrightarrow> u = v \<and> x = y"
proof (induction u arbitrary: v)
  case Nil
  then show ?case by (cases v) auto
next
  case (Cons a u)
  then show ?case by (cases v) auto
qed

text \<open>A list with exactly one element of a kind splits around it in one way only.\<close>

lemma split_unique:
  "A @ e # B = xs @ e' # ys \<Longrightarrow> P e \<Longrightarrow> P e' \<Longrightarrow> \<forall>a \<in> set A. \<not> P a \<Longrightarrow>
   \<forall>b \<in> set B. \<not> P b \<Longrightarrow> xs = A \<and> e' = e \<and> ys = B"
proof (induction A arbitrary: xs)
  case Nil
  show ?case
  proof (cases xs)
    case Nil
    with Nil.prems(1) show ?thesis by simp
  next
    case (Cons x xs')
    with Nil.prems(1) have "B = xs' @ e' # ys" by simp
    then have "e' \<in> set B" by simp
    with Nil.prems(3,5) show ?thesis by blast
  qed
next
  case (Cons a A)
  show ?case
  proof (cases xs)
    case Nil
    with Cons.prems(1) have "a = e'" by simp
    with Cons.prems(3,4) show ?thesis by simp
  next
    case (Cons x xs')
    with Cons.prems(1) have eq: "A @ e # B = xs' @ e' # ys" and ax: "a = x" by simp_all
    from Cons.prems(4) have "\<forall>a \<in> set A. \<not> P a" by simp
    from Cons.IH [OF eq Cons.prems(2,3) this Cons.prems(5)] ax \<open>xs = x # xs'\<close>
    show ?thesis by simp
  qed
qed

text \<open>Lower-casing never produces or removes a byte below \<open>A\<close> (\<open>/\<close>, \<open>?\<close>, blanks).\<close>

lemma of_char_go_lower_char:
  "(of_char (go_lower_char c) :: nat) =
   (if 65 \<le> (of_char c :: nat) \<and> (of_char c :: nat) \<le> 90 then of_char c + 32 else of_char c)"
  by (simp add: go_lower_char_def Let_def of_char_of)

lemma go_lower_char_eq_punct:
  assumes "(of_char d :: nat) < 65"
  shows "go_lower_char c = d \<longleftrightarrow> c = d"
proof
  assume h: "go_lower_char c = d"
  from assms have "\<not> (65 \<le> (of_char c :: nat) \<and> (of_char c :: nat) \<le> 90)"
    using of_char_go_lower_char [of c] h by (auto split: if_split_asm)
  then have "go_lower_char c = c"
    unfolding go_lower_char_def Let_def by (rule if_not_P)
  with h show "c = d" by simp
next
  assume "c = d"
  with assms show "go_lower_char c = d" by (auto simp: go_lower_char_def)
qed
lemma go_lower_char_slash [simp]: "go_lower_char CHR ''/'' = CHR ''/''"
  and go_lower_char_qmark [simp]: "go_lower_char CHR ''?'' = CHR ''?''"
  by (simp_all add: go_lower_char_def)

lemma in_set_lower_punct:
  "(of_char d :: nat) < 65 \<Longrightarrow> d \<in> set (map go_lower_char xs) \<longleftrightarrow> d \<in> set xs"
proof (induction xs)
  case Nil
  then show ?case by simp
next
  case (Cons x xs)
  then show ?case using go_lower_char_eq_punct [of d x] by auto
qed

lemma find_sub_first:
  "find_sub p s = Some i \<Longrightarrow> j < i \<Longrightarrow> take (length p) (drop j s) \<noteq> p"
proof (induction p s arbitrary: i j rule: find_sub.induct)
  case (1 p)
  then show ?case by (simp split: if_splits)
next
  case (2 p c cs)
  show ?case
  proof (cases "take (length p) (c # cs) = p")
    case True
    with "2.prems" show ?thesis by simp
  next
    case False
    with "2.prems" obtain i' where i': "find_sub p cs = Some i'" "i = Suc i'" by auto
    show ?thesis
    proof (cases j)
      case 0
      with False show ?thesis by simp
    next
      case (Suc j')
      with "2.prems" i' have "take (length p) (drop j' cs) \<noteq> p" by (intro "2.IH" [OF False]) simp_all
      with Suc show ?thesis by simp
    qed
  qed
qed

lemma take_append_le: "n \<le> length a \<Longrightarrow> take n (a @ b) = take n a"
  by simp

lemma wrap_err_simps [simp]:
  "wrap_err f NilErrorDeref = NilErrorDeref"
  "e \<noteq> NilErrorDeref \<Longrightarrow> wrap_err f e = f e"
  by (simp_all add: wrap_err_def)

end
