(* ===== verification/Go_Regexp.thy ===== *)
theory Go_Regexp
  imports Dao_Prelude
begin

text \<open>
  A model of the part of Go's \<open>regexp\<close> package the repository uses: the syntax of its four
  patterns (literals, the classes \<open>\s\<close>, \<open>\S\<close>, \<open>.\<close>, bracket classes, greedy
  \<open>*\<close>, \<open>+\<close> and \<open>?\<close>, alternation, capturing groups), leftmost-first matching as Go
  documents it (the match that starts earliest, and among those the one a backtracking
  matcher finds first), \<open>FindStringSubmatch\<close>, \<open>FindStringSubmatchIndex\<close> and
  \<open>ReplaceAllString\<close> with a replacement that contains no \<open>$\<close>.
  Repetition is only applied to a one-character class, as in every pattern of the code, so
  the backtracking matcher \<open>mt\<close> is structurally recursive; it returns every way the
  pattern can match at a position, in the order of preference.
\<close>

section \<open>Syntax\<close>

datatype cls = Space | NotSpace | AnyNotNL | OneOf "char list" | NoneOf "char list"

datatype rx =
    Eps
  | Lit string
  | Cls cls
  | Star cls
  | Plus cls
  | Cat rx rx
  | Alt rx rx
  | Opt rx
  | Grp nat rx

text \<open>Go's \<open>\s\<close> is \<open>[\t\n\f\r ]\<close>; \<open>.\<close> is any character but newline.\<close>

definition go_space :: "char list" where
  "go_space = [CHR 0x09, CHR 0x0A, CHR 0x0C, CHR 0x0D, CHR 0x20]"

fun cls_mem :: "cls \<Rightarrow> char \<Rightarrow> bool" where
  "cls_mem Space c = (c \<in> set go_space)"
| "cls_mem NotSpace c = (c \<notin> set go_space)"
| "cls_mem AnyNotNL c = (c \<noteq> CHR 0x0A)"
| "cls_mem (OneOf cs) c = (c \<in> set cs)"
| "cls_mem (NoneOf cs) c = (c \<notin> set cs)"

text \<open>The capturing groups of a pattern, numbered by their opening parenthesis.\<close>

fun grps :: "rx \<Rightarrow> nat list" where
  "grps (Cat a b) = grps a @ grps b"
| "grps (Alt a b) = grps a @ grps b"
| "grps (Opt a) = grps a"
| "grps (Grp g a) = g # grps a"
| "grps _ = []"

section \<open>Backtracking matcher\<close>

type_synonym caps = "nat \<Rightarrow> (nat \<times> nat) option"
type_synonym mres = "nat \<times> string \<times> caps"

text \<open>
  \<open>mt r i cs m\<close>: the matches of \<open>r\<close> at position \<open>i\<close>, where \<open>cs\<close> is the rest of the
  input from \<open>i\<close> and \<open>m\<close> the groups captured so far. Each result is the end position,
  the rest after it and the captures, in the order a backtracking matcher tries them.
\<close>

fun run_len :: "cls \<Rightarrow> string \<Rightarrow> nat" where
  "run_len c [] = 0"
| "run_len c (x # xs) = (if cls_mem c x then Suc (run_len c xs) else 0)"

fun mt :: "rx \<Rightarrow> nat \<Rightarrow> string \<Rightarrow> caps \<Rightarrow> mres list" where
  "mt Eps i cs m = [(i, cs, m)]"
| "mt (Lit w) i cs m =
     (if take (length w) cs = w then [(i + length w, drop (length w) cs, m)] else [])"
| "mt (Cls c) i cs m =
     (case cs of [] \<Rightarrow> [] | x # xs \<Rightarrow> if cls_mem c x then [(Suc i, xs, m)] else [])"
| "mt (Star c) i cs m = map (\<lambda>k. (i + k, drop k cs, m)) (rev [0..<Suc (run_len c cs)])"
| "mt (Plus c) i cs m = map (\<lambda>k. (i + k, drop k cs, m)) (rev [1..<Suc (run_len c cs)])"
| "mt (Cat a b) i cs m = concat (map (\<lambda>(j, ds, m'). mt b j ds m') (mt a i cs m))"
| "mt (Alt a b) i cs m = mt a i cs m @ mt b i cs m"
| "mt (Opt a) i cs m = mt a i cs m @ [(i, cs, m)]"
| "mt (Grp g a) i cs m = map (\<lambda>(j, ds, m'). (j, ds, m'(g \<mapsto> (i, j)))) (mt a i cs m)"

text \<open>Unanchored search: the first start position with a match, and its preferred match.\<close>

fun search :: "rx \<Rightarrow> nat \<Rightarrow> string \<Rightarrow> (nat \<times> nat \<times> caps) option" where
  "search r i [] = (case mt r i [] Map.empty of [] \<Rightarrow> None | (j, _, m) # _ \<Rightarrow> Some (i, j, m))"
| "search r i (c # cs) =
     (case mt r i (c # cs) Map.empty of
        [] \<Rightarrow> search r (Suc i) cs
      | (j, _, m) # _ \<Rightarrow> Some (i, j, m))"

section \<open>Language semantics\<close>

text \<open>
  The strings a pattern denotes, ignoring captures and preference. The matcher is sound and
  complete for it: every result of \<open>mt\<close> consumes a word of the language, and every word
  of the language is consumed by some result.
\<close>

definition conc :: "string set \<Rightarrow> string set \<Rightarrow> string set" where
  "conc A B = {u @ v |u v. u \<in> A \<and> v \<in> B}"

fun lang :: "rx \<Rightarrow> string set" where
  "lang Eps = {[]}"
| "lang (Lit w) = {w}"
| "lang (Cls c) = {[x] |x. cls_mem c x}"
| "lang (Star c) = {w. \<forall>x \<in> set w. cls_mem c x}"
| "lang (Plus c) = {w. w \<noteq> [] \<and> (\<forall>x \<in> set w. cls_mem c x)}"
| "lang (Cat a b) = conc (lang a) (lang b)"
| "lang (Alt a b) = lang a \<union> lang b"
| "lang (Opt a) = lang a \<union> {[]}"
| "lang (Grp g a) = lang a"

text \<open>A string contains a match of \<open>r\<close> when some substring of it is in the language.\<close>

definition has_match :: "rx \<Rightarrow> string \<Rightarrow> bool" where
  "has_match r s \<longleftrightarrow> (\<exists>u w v. s = u @ w @ v \<and> w \<in> lang r)"

section \<open>The package functions\<close>

definition substr :: "string \<Rightarrow> nat \<Rightarrow> nat \<Rightarrow> string" where
  "substr s a b = take (b - a) (drop a s)"

definition submatch :: "string \<Rightarrow> caps \<Rightarrow> nat \<Rightarrow> string" where
  "submatch s m g = (case m g of None \<Rightarrow> [] | Some (a, b) \<Rightarrow> substr s a b)"

text \<open>
  \<open>FindStringSubmatch\<close>: the empty list is Go's nil slice (length 0); otherwise the whole
  match followed by one entry per group, the empty string for a group that did not take part.
\<close>

definition FindStringSubmatch :: "rx \<Rightarrow> string \<Rightarrow> string list" where
  "FindStringSubmatch r s =
     (case search r 0 s of
        None \<Rightarrow> []
      | Some (i, j, m) \<Rightarrow> substr s i j # map (submatch s m) [1..<Suc (length (grps r))])"

text \<open>\<open>FindStringSubmatchIndex\<close>, of which the code reads the first two entries only.\<close>

definition FindStringSubmatchIndex :: "rx \<Rightarrow> string \<Rightarrow> (nat \<times> nat) option" where
  "FindStringSubmatchIndex r s = map_option (\<lambda>(i, j, m). (i, j)) (search r 0 s)"

text \<open>
  \<open>ReplaceAllString(src, repl)\<close> for a \<open>repl\<close> without \<open>$\<close>, following
  \<open>Regexp.replaceAll\<close>: search from \<open>pos\<close>, copy the text since the end \<open>lme\<close> of the
  previous match,
  insert \<open>repl\<close> unless the match is empty and right after the previous one, and advance by
  at least one character.
\<close>

function replace_loop :: "rx \<Rightarrow> string \<Rightarrow> string \<Rightarrow> nat \<Rightarrow> nat \<Rightarrow> string" where
  "replace_loop r s repl lme pos =
     (if length s < pos then drop lme s
      else (case search r pos (drop pos s) of
              None \<Rightarrow> drop lme s
            | Some (a, b, _) \<Rightarrow>
                substr s lme a @ (if lme < b \<or> a = 0 then repl else []) @
                replace_loop r s repl b (if b < Suc pos then Suc pos else b)))"
  by pat_completeness auto
termination
  by (relation "measure (\<lambda>(r, s, repl, lme, pos). Suc (length s) - pos)") auto

declare replace_loop.simps [simp del]

definition ReplaceAllString :: "rx \<Rightarrow> string \<Rightarrow> string \<Rightarrow> string" where
  "ReplaceAllString r s repl = replace_loop r s repl 0 0"

section \<open>Soundness and completeness of the matcher\<close>

lemma run_len_le: "run_len c cs \<le> length cs"
  by (induction cs) auto

lemma run_len_take: "k \<le> run_len c cs \<Longrightarrow> x \<in> set (take k cs) \<Longrightarrow> cls_mem c x"
proof (induction cs arbitrary: k)
  case Nil
  then show ?case by simp
next
  case (Cons y ys)
  then show ?case
    by (cases k) (auto split: if_splits)
qed

lemma run_len_ge: "\<forall>x \<in> set w. cls_mem c x \<Longrightarrow> length w \<le> run_len c (w @ ds)"
  by (induction w) auto

lemma mt_sound:
  "(j, ds, m') \<in> set (mt r i cs m) \<Longrightarrow> \<exists>w. cs = w @ ds \<and> j = i + length w \<and> w \<in> lang r"
proof (induction r arbitrary: i cs m j ds m')
  case (Lit w)
  then show ?case
    by (auto split: if_splits) (metis append_take_drop_id)
next
  case (Cls c)
  then show ?case
    by (auto split: list.splits if_splits)
next
  case (Star c)
  then obtain k where "k \<le> run_len c cs" "j = i + k" "ds = drop k cs" "m' = m"
    by auto
  moreover from this have "k \<le> length cs"
    using run_len_le [of c cs] by simp
  ultimately show ?case
    by (intro exI [of _ "take k cs"]) (auto intro: run_len_take)
next
  case (Plus c)
  then obtain k where "1 \<le> k" "k \<le> run_len c cs" "j = i + k" "ds = drop k cs" "m' = m"
    by auto
  moreover from this have "k \<le> length cs"
    using run_len_le [of c cs] by simp
  ultimately show ?case
    by (intro exI [of _ "take k cs"]) (auto intro: run_len_take)
next
  case (Cat a b)
  then obtain j1 ds1 m1 where a: "(j1, ds1, m1) \<in> set (mt a i cs m)"
    and b: "(j, ds, m') \<in> set (mt b j1 ds1 m1)"
    by auto
  from Cat.IH(1) [OF a] obtain u where "cs = u @ ds1" "j1 = i + length u" "u \<in> lang a"
    by blast
  moreover from Cat.IH(2) [OF b] obtain v where "ds1 = v @ ds" "j = j1 + length v" "v \<in> lang b"
    by blast
  ultimately show ?case
    by (intro exI [of _ "u @ v"]) (auto simp: conc_def)
next
  case (Alt a b)
  from Alt.prems consider "(j, ds, m') \<in> set (mt a i cs m)" | "(j, ds, m') \<in> set (mt b i cs m)"
    by auto
  then show ?case
  proof cases
    case 1
    from Alt.IH(1) [OF this] show ?thesis by auto
  next
    case 2
    from Alt.IH(2) [OF this] show ?thesis by auto
  qed
next
  case (Opt a)
  from Opt.prems consider "(j, ds, m') \<in> set (mt a i cs m)" | "j = i" "ds = cs"
    by auto
  then show ?case
  proof cases
    case 1
    from Opt.IH [OF this] show ?thesis by auto
  next
    case 2
    then show ?thesis by auto
  qed
next
  case (Grp g a)
  from Grp.prems obtain m0 where "(j, ds, m0) \<in> set (mt a i cs m)"
    by auto
  from Grp.IH [OF this] show ?case by simp
qed simp

lemma mt_complete:
  "w \<in> lang r \<Longrightarrow> \<exists>m'. (i + length w, ds, m') \<in> set (mt r i (w @ ds) m)"
proof (induction r arbitrary: w i ds m)
  case (Star c)
  then have "\<forall>x \<in> set w. cls_mem c x" by simp
  then have "length w \<le> run_len c (w @ ds)" by (rule run_len_ge)
  then have "length w \<in> set (rev [0..<Suc (run_len c (w @ ds))])"
    by (simp del: upt_Suc)
  then show ?case
    by (auto simp: image_iff intro!: exI [of _ m] bexI [of _ "length w"])
next
  case (Plus c)
  then have "\<forall>x \<in> set w. cls_mem c x" and "w \<noteq> []" by simp_all
  then have "length w \<le> run_len c (w @ ds)" and "1 \<le> length w"
    by (simp_all add: run_len_ge Suc_le_eq)
  then have "length w \<in> set (rev [1..<Suc (run_len c (w @ ds))])"
    by (simp del: upt_Suc)
  then show ?case
    by (auto simp: image_iff intro!: exI [of _ m] bexI [of _ "length w"])
next
  case (Cat a b)
  then obtain u v where w: "w = u @ v" and u: "u \<in> lang a" and v: "v \<in> lang b"
    by (auto simp: conc_def)
  from Cat.IH(1) [OF u, of i "v @ ds" m] obtain m1
    where "(i + length u, v @ ds, m1) \<in> set (mt a i (u @ v @ ds) m)"
    by blast
  moreover from Cat.IH(2) [OF v, of "i + length u" ds m1] obtain m2
    where "(i + length u + length v, ds, m2) \<in> set (mt b (i + length u) (v @ ds) m1)"
    by blast
  ultimately have "(i + length w, ds, m2) \<in> set (mt (Cat a b) i (w @ ds) m)"
    using w by (auto simp: add.assoc intro!: bexI [of _ "(i + length u, v @ ds, m1)"])
  then show ?case by blast
next
  case (Alt a b)
  then consider "w \<in> lang a" | "w \<in> lang b" by auto
  then show ?case
  proof cases
    case 1
    from Alt.IH(1) [OF this, of i ds m] show ?thesis by auto
  next
    case 2
    from Alt.IH(2) [OF this, of i ds m] show ?thesis by auto
  qed
next
  case (Opt a)
  then consider "w \<in> lang a" | "w = []" by auto
  then show ?case
  proof cases
    case 1
    from Opt.IH [OF this, of i ds m] show ?thesis by auto
  next
    case 2
    then show ?thesis by auto
  qed
next
  case (Grp g a)
  from Grp.IH [of w i ds m] Grp.prems obtain m' where "(i + length w, ds, m') \<in> set (mt a i (w @ ds) m)"
    by auto
  then show ?case by force
qed auto

lemma mt_Nil_iff: "mt r i cs m = [] \<longleftrightarrow> (\<forall>w ds. cs = w @ ds \<longrightarrow> w \<notin> lang r)"
proof
  assume nil: "mt r i cs m = []"
  show "\<forall>w ds. cs = w @ ds \<longrightarrow> w \<notin> lang r"
  proof (intro allI impI notI)
    fix w ds
    assume "cs = w @ ds" and "w \<in> lang r"
    then show False
      using mt_complete [of w r i ds m] nil by auto
  qed
next
  assume "\<forall>w ds. cs = w @ ds \<longrightarrow> w \<notin> lang r"
  then show "mt r i cs m = []"
    using mt_sound by (metis list.set_intros(1) neq_Nil_conv prod_cases3)
qed

section \<open>Search\<close>

lemma has_match_Cons:
  "has_match r (c # cs) \<longleftrightarrow> (\<exists>w ds. c # cs = w @ ds \<and> w \<in> lang r) \<or> has_match r cs"
proof
  assume "has_match r (c # cs)"
  then obtain u w v where s: "c # cs = u @ w @ v" and w: "w \<in> lang r"
    by (auto simp: has_match_def)
  show "(\<exists>w ds. c # cs = w @ ds \<and> w \<in> lang r) \<or> has_match r cs"
  proof (cases u)
    case Nil
    with s w show ?thesis by auto
  next
    case (Cons x u')
    with s have "cs = u' @ w @ v" by simp
    with w show ?thesis by (auto simp: has_match_def)
  qed
next
  assume "(\<exists>w ds. c # cs = w @ ds \<and> w \<in> lang r) \<or> has_match r cs"
  then show "has_match r (c # cs)"
  proof
    assume "\<exists>w ds. c # cs = w @ ds \<and> w \<in> lang r"
    then show ?thesis unfolding has_match_def by (metis append_Nil)
  next
    assume "has_match r cs"
    then obtain u w v where "cs = u @ w @ v" "w \<in> lang r"
      by (auto simp: has_match_def)
    then show ?thesis unfolding has_match_def by (metis append_Cons)
  qed
qed

lemma search_None_iff: "search r i cs = None \<longleftrightarrow> \<not> has_match r cs"
proof (induction r i cs rule: search.induct)
  case (1 r i)
  have "mt r i [] Map.empty = [] \<longleftrightarrow> [] \<notin> lang r"
    using mt_Nil_iff [of r i "[]" Map.empty] by simp
  moreover have "has_match r [] \<longleftrightarrow> [] \<in> lang r"
    by (simp add: has_match_def)
  ultimately show ?case
    by (auto split: list.splits)
next
  case (2 r i c cs)
  have split: "has_match r (c # cs) \<longleftrightarrow>
      (\<exists>w ds. c # cs = w @ ds \<and> w \<in> lang r) \<or> has_match r cs"
    by (rule has_match_Cons)
  show ?case
  proof (cases "mt r i (c # cs) Map.empty")
    case Nil
    then show ?thesis
      using "2" split mt_Nil_iff [of r i "c # cs" Map.empty] by auto
  next
    case (Cons x xs)
    then show ?thesis
      using split mt_Nil_iff [of r i "c # cs" Map.empty] by (auto split: prod.splits)
  qed
qed

section \<open>First matches\<close>

text \<open>
  The preferred match of a concatenation whose first part is a greedy \<open>+\<close>: the longest
  run for which the rest matches. These lemmas carry the proofs about concrete patterns.
\<close>

lemma concat_map_rev_upt_first:
  "1 \<le> k \<Longrightarrow> k \<le> n \<Longrightarrow> f k = x # xs \<Longrightarrow> (\<forall>j. k < j \<and> j \<le> n \<longrightarrow> f j = []) \<Longrightarrow>
   \<exists>ys. concat (map f (rev [1..<Suc n])) = x # ys"
proof (induction n)
  case 0
  then show ?case by simp
next
  case (Suc n)
  show ?case
  proof (cases "k = Suc n")
    case True
    with Suc.prems show ?thesis by simp
  next
    case False
    with Suc.prems have "k \<le> n" and "f (Suc n) = []" by auto
    with Suc.IH Suc.prems obtain ys where "concat (map f (rev [1..<Suc n])) = x # ys"
      by auto
    with \<open>f (Suc n) = []\<close> show ?thesis by simp
  qed
qed

lemma mt_Grp_Plus_Cat:
  "mt (Cat (Grp g (Plus c)) b) i cs m =
   concat (map (\<lambda>k. mt b (i + k) (drop k cs) (m(g \<mapsto> (i, i + k)))) (rev [1..<Suc (run_len c cs)]))"
  by (simp add: comp_def del: upt_Suc)

lemma mt_Cat_Lit_Cons: "mt (Cat (Lit [c]) b) i (c # cs) m = mt b (Suc i) cs m"
  by simp

lemma mt_Opt_Cat:
  "mt (Cat (Opt a) b) i cs m =
   concat (map (\<lambda>(j, ds, m'). mt b j ds m') (mt a i cs m)) @ mt b i cs m"
  by simp

lemma concat_map_Nil:
  "(\<And>x. x \<in> set xs \<Longrightarrow> f x = []) \<Longrightarrow> concat (map f xs) = []"
  by (induction xs) auto

lemma mt_Nil_if_no_prefix:
  "(\<And>w ds'. cs = w @ ds' \<Longrightarrow> w \<in> lang r \<Longrightarrow> False) \<Longrightarrow> mt r i cs m = []"
  using mt_Nil_iff [of r i cs m] by blast

lemma run_len_append_ge:
  "\<forall>x \<in> set w. cls_mem c x \<Longrightarrow> length w \<le> run_len c (w @ ds)"
  by (rule run_len_ge)

lemma search_Cons_first:
  "mt r i (c # cs) Map.empty = (j, ds, m) # xs \<Longrightarrow> search r i (c # cs) = Some (i, j, m)"
  by simp

text \<open>A prefix where no match starts is skipped by the search.\<close>

lemma search_skip:
  "(\<And>k. k < length xs \<Longrightarrow> mt r (i + k) (drop k (xs @ ys)) Map.empty = []) \<Longrightarrow>
   search r i (xs @ ys) = search r (i + length xs) ys"
proof (induction xs arbitrary: i)
  case Nil
  then show ?case by simp
next
  case (Cons x xs)
  from Cons.prems [of 0] have "mt r i (x # xs @ ys) Map.empty = []" by simp
  moreover have "search r (Suc i) (xs @ ys) = search r (Suc i + length xs) ys"
    using Cons.prems [of "Suc k" for k] by (intro Cons.IH) simp
  ultimately show ?case by simp
qed

lemma run_len_exact:
  "\<forall>x \<in> set w. cls_mem c x \<Longrightarrow> rest = [] \<or> \<not> cls_mem c (hd rest) \<Longrightarrow>
   run_len c (w @ rest) = length w"
proof (induction w)
  case Nil
  then show ?case by (cases rest) auto
next
  case (Cons x w)
  then show ?case by simp
qed

lemma mt_Grp_Plus_first:
  "1 \<le> run_len c cs \<Longrightarrow>
   \<exists>ys. mt (Grp g (Plus c)) i cs m =
        (i + run_len c cs, drop (run_len c cs) cs, m(g \<mapsto> (i, i + run_len c cs))) # ys"
  by (cases "run_len c cs") (simp_all del: upt_Suc add: upt_Suc_append)

lemma search_skip_first:
  "(\<And>k. k < length xs \<Longrightarrow> mt r k (drop k (xs @ c # cs)) Map.empty = []) \<Longrightarrow>
   mt r (length xs) (c # cs) Map.empty = (j, ds, m) # zs \<Longrightarrow>
   search r 0 (xs @ c # cs) = Some (length xs, j, m)"
  using search_skip [of xs r 0 "c # cs"] by simp

lemma replace_loop_None:
  "pos \<le> length s \<Longrightarrow> search r pos (drop pos s) = None \<Longrightarrow> replace_loop r s repl lme pos = drop lme s"
  by (subst replace_loop.simps) simp

lemma replace_loop_Some:
  "pos \<le> length s \<Longrightarrow> search r pos (drop pos s) = Some (a, b, m) \<Longrightarrow>
   replace_loop r s repl lme pos =
     substr s lme a @ (if lme < b \<or> a = 0 then repl else []) @
     replace_loop r s repl b (if b < Suc pos then Suc pos else b)"
  by (subst replace_loop.simps) simp

lemma mt_Nil_lead:
  "(\<And>w. w \<in> lang r \<Longrightarrow> \<exists>x. w = c # x) \<Longrightarrow> cs = [] \<or> hd cs \<noteq> c \<Longrightarrow> mt r i cs m = []"
  by (rule mt_Nil_if_no_prefix) (fastforce simp: Cons_eq_append_conv)

lemma search_None_lead:
  assumes "\<And>w. w \<in> lang r \<Longrightarrow> \<exists>x. w = c # x" "c \<notin> set cs"
  shows "search r i cs = None"
proof -
  have "\<not> has_match r cs"
  proof
    assume "has_match r cs"
    then obtain u w v where "cs = u @ w @ v" "w \<in> lang r" by (auto simp: has_match_def)
    with assms show False by fastforce
  qed
  then show ?thesis by (simp add: search_None_iff)
qed

lemma mt_Nil_lead_drop:
  "(\<And>w. w \<in> lang r \<Longrightarrow> \<exists>x. w = c # x) \<Longrightarrow> c \<notin> set xs \<Longrightarrow> k < length xs \<Longrightarrow>
   mt r i (drop k (xs @ ys)) m = []"
  by (rule mt_Nil_lead) (auto simp: hd_drop_conv_nth dest: nth_mem)

lemma mt_Cat_Lit: "mt (Cat (Lit w) b) i (w @ cs) m = mt b (i + length w) cs m"
  by simp

lemma mt_Alt: "mt (Alt a b) i cs m = mt a i cs m @ mt b i cs m"
  by simp

end
