(* ===== verification/Dao_Mask.thy ===== *)
theory Dao_Mask
  imports Go_Regexp
begin

text \<open>
  The credential masker of \<open>src/dao/dao.go\<close>: the pattern \<open>dbURLRegex\<close> and
  \<open>MaskDBCred\<close>, which replaces the submatches of the first match of the pattern
  inside that match.
\<close>

section \<open>The pattern\<close>

text \<open>
  \<^verbatim>\<open>(Datasource:\s*)?(\S+):(\S+)@|(Datasource:.*\s)?(user=\S+).*\s(password=\S+)|
  (Datasource:.*\s)?(password=\S+).*\s(user=\S+)\<close>
\<close>

definition url_ds1 :: rx where
  "url_ds1 = Grp 1 (Cat (Lit ''Datasource:'') (Star Space))"

definition url_tail1 :: rx where
  "url_tail1 = Cat (Lit '':'') (Cat (Grp 3 (Plus NotSpace)) (Lit ''@''))"

definition url_userinfo :: rx where
  "url_userinfo = Cat (Grp 2 (Plus NotSpace)) url_tail1"

definition url_alt1 :: rx where
  "url_alt1 = Cat (Opt url_ds1) url_userinfo"

definition url_ds2 :: rx where
  "url_ds2 = Grp 4 (Cat (Lit ''Datasource:'') (Cat (Star AnyNotNL) (Cls Space)))"

definition url_user2 :: rx where
  "url_user2 = Grp 5 (Cat (Lit ''user='') (Plus NotSpace))"

definition url_pw2 :: rx where
  "url_pw2 = Grp 6 (Cat (Lit ''password='') (Plus NotSpace))"

definition url_alt2 :: rx where
  "url_alt2 = Cat (Opt url_ds2) (Cat url_user2 (Cat (Star AnyNotNL) (Cat (Cls Space) url_pw2)))"

definition url_ds3 :: rx where
  "url_ds3 = Grp 7 (Cat (Lit ''Datasource:'') (Cat (Star AnyNotNL) (Cls Space)))"

definition url_pw3 :: rx where
  "url_pw3 = Grp 8 (Cat (Lit ''password='') (Plus NotSpace))"

definition url_user3 :: rx where
  "url_user3 = Grp 9 (Cat (Lit ''user='') (Plus NotSpace))"

definition url_alt3 :: rx where
  "url_alt3 = Cat (Opt url_ds3) (Cat url_pw3 (Cat (Star AnyNotNL) (Cat (Cls Space) url_user3)))"

definition dbURLRegex :: rx where
  "dbURLRegex = Alt url_alt1 (Alt url_alt2 url_alt3)"

section \<open>MaskDBCred\<close>

text \<open>One turn of the loop over \<open>matches[1..]\<close>.\<close>

definition mask_one :: "string \<Rightarrow> string \<Rightarrow> string" where
  "mask_one g sub =
     (if g \<noteq> [] then
        (if go_index g ''user='' = 0 then go_replace1 sub g ''user=****''
         else if go_index g ''password='' = 0 then go_replace1 sub g ''password=****''
         else go_replace1 sub g ''****'')
      else sub)"

fun mask_groups :: "string list \<Rightarrow> string \<Rightarrow> string" where
  "mask_groups [] sub = sub"
| "mask_groups (g # gs) sub = mask_groups gs (mask_one g sub)"

definition MaskDBCred :: "string \<Rightarrow> string" where
  "MaskDBCred str =
     (let matches = FindStringSubmatch dbURLRegex str in
      if length matches = 10 then
        (case FindStringSubmatchIndex dbURLRegex str of
           None \<Rightarrow> str
         | Some (a, b) \<Rightarrow>
             take a str @ mask_groups (tl matches) (substr str a b) @ drop b str)
      else str)"

section \<open>Lemmas: what the pattern can match\<close>

lemmas url_defs = dbURLRegex_def url_alt1_def url_alt2_def url_alt3_def url_ds1_def
  url_tail1_def url_userinfo_def url_ds2_def url_user2_def url_pw2_def url_ds3_def url_pw3_def
  url_user3_def

lemma lang_CatE:
  assumes "w \<in> lang (Cat a b)"
  obtains u v where "w = u @ v" "u \<in> lang a" "v \<in> lang b"
  using assms by (auto simp: conc_def)

lemma url_alt1_has_at: "w \<in> lang url_alt1 \<Longrightarrow> CHR ''@'' \<in> set w"
proof -
  assume "w \<in> lang url_alt1"
  then obtain u v where w: "w = u @ v" and v: "v \<in> lang url_userinfo"
    unfolding url_alt1_def by (blast elim: lang_CatE)
  from v obtain v1 v2 where v12: "v = v1 @ v2" and v2: "v2 \<in> lang url_tail1"
    unfolding url_userinfo_def by (blast elim: lang_CatE)
  from v2 obtain v3 v4 where v34: "v2 = v3 @ v4"
    and v4: "v4 \<in> lang (Cat (Grp 3 (Plus NotSpace)) (Lit ''@''))"
    unfolding url_tail1_def by (blast elim: lang_CatE)
  from v4 obtain v5 v6 where v56: "v4 = v5 @ v6" and "v6 \<in> lang (Lit ''@'')"
    by (blast elim: lang_CatE)
  with w v12 v34 v56 show ?thesis by simp
qed

lemma url_user_lang: "v \<in> lang url_user2 \<or> v \<in> lang url_user3 \<Longrightarrow> \<exists>y. v = ''user='' @ y"
  by (auto simp: url_user2_def url_user3_def conc_def)

lemma url_alt2_has_user: "w \<in> lang url_alt2 \<Longrightarrow> \<exists>a b. w = a @ ''user='' @ b"
proof -
  assume "w \<in> lang url_alt2"
  then obtain u v where w: "w = u @ v"
    and v: "v \<in> lang (Cat url_user2 (Cat (Star AnyNotNL) (Cat (Cls Space) url_pw2)))"
    unfolding url_alt2_def by (blast elim: lang_CatE)
  from v obtain v1 v2 where v12: "v = v1 @ v2" and v1: "v1 \<in> lang url_user2"
    by (blast elim: lang_CatE)
  from v1 obtain y where "v1 = ''user='' @ y"
    using url_user_lang by blast
  with w v12 have "w = u @ ''user='' @ (y @ v2)" by simp
  then show ?thesis by blast
qed

lemma url_alt3_has_user: "w \<in> lang url_alt3 \<Longrightarrow> \<exists>a b. w = a @ ''user='' @ b"
proof -
  assume "w \<in> lang url_alt3"
  then obtain u v where w: "w = u @ v"
    and v: "v \<in> lang (Cat url_pw3 (Cat (Star AnyNotNL) (Cat (Cls Space) url_user3)))"
    unfolding url_alt3_def by (blast elim: lang_CatE)
  from v obtain v1 v2 where v12: "v = v1 @ v2"
    and v2: "v2 \<in> lang (Cat (Star AnyNotNL) (Cat (Cls Space) url_user3))"
    by (blast elim: lang_CatE)
  from v2 obtain v3 v4 where v34: "v2 = v3 @ v4" and v4: "v4 \<in> lang (Cat (Cls Space) url_user3)"
    by (blast elim: lang_CatE)
  from v4 obtain v5 v6 where v56: "v4 = v5 @ v6" and v6: "v6 \<in> lang url_user3"
    by (blast elim: lang_CatE)
  from v6 obtain y where "v6 = ''user='' @ y"
    using url_user_lang by blast
  with w v12 v34 v56 have "w = (u @ v1 @ v3 @ v5) @ ''user='' @ y" by simp
  then show ?thesis by blast
qed

lemma has_match_dbURLRegex:
  "has_match dbURLRegex s \<Longrightarrow> CHR ''@'' \<in> set s \<or> (\<exists>a b. s = a @ ''user='' @ b)"
proof -
  assume "has_match dbURLRegex s"
  then obtain x w y where s: "s = x @ w @ y" and w: "w \<in> lang dbURLRegex"
    by (auto simp: has_match_def)
  from w consider "w \<in> lang url_alt1" | "w \<in> lang url_alt2" | "w \<in> lang url_alt3"
    by (auto simp: dbURLRegex_def)
  then show ?thesis
  proof cases
    case 1
    with s show ?thesis by (auto dest: url_alt1_has_at)
  next
    case 2
    then obtain a b where "w = a @ ''user='' @ b" by (blast dest: url_alt2_has_user)
    with s have "s = (x @ a) @ ''user='' @ (b @ y)" by simp
    then show ?thesis by blast
  next
    case 3
    then obtain a b where "w = a @ ''user='' @ b" by (blast dest: url_alt3_has_user)
    with s have "s = (x @ a) @ ''user='' @ (b @ y)" by simp
    then show ?thesis by blast
  qed
qed

section \<open>Lemmas: the preferred match of a \<open>user:password@\<close> prefix\<close>

lemma nonspace_Nil_go_space: "CHR ''@'' \<notin> set go_space \<and> CHR '':'' \<notin> set go_space"
  by (simp add: go_space_def)

lemma run_len_nonspace:
  "set w \<inter> set go_space = {} \<Longrightarrow> length w \<le> run_len NotSpace (w @ ds)"
  by (rule run_len_ge) auto

text \<open>After the user name: \<open>:\<close>, the longest password before an \<open>@\<close>, \<open>@\<close>.\<close>

lemma mt_tail1_first:
  assumes "p \<noteq> []" "set p \<inter> set go_space = {}" "CHR '':'' \<notin> set p" "CHR ''@'' \<notin> set rest"
  shows "\<exists>ys. mt url_tail1 i (CHR '':'' # p @ CHR ''@'' # rest) m =
           (i + length p + 2, rest, m(3 \<mapsto> (Suc i, Suc i + length p))) # ys"
proof -
  let ?cs = "p @ CHR ''@'' # rest"
  let ?f = "\<lambda>k. mt (Lit ''@'') (Suc i + k) (drop k ?cs) (m(3 \<mapsto> (Suc i, Suc i + k)))"
  have n: "length p \<le> run_len NotSpace ?cs"
    using run_len_nonspace [OF assms(2), of "CHR ''@'' # rest"] by simp
  have at: "?f (length p) = [(i + length p + 2, rest, m(3 \<mapsto> (Suc i, Suc i + length p)))]"
    by simp
  have later: "\<forall>j. length p < j \<and> j \<le> run_len NotSpace ?cs \<longrightarrow> ?f j = []"
  proof (intro allI impI)
    fix j
    assume "length p < j \<and> j \<le> run_len NotSpace ?cs"
    then obtain d where "j - length p = Suc d" and "length p < j"
      by (cases "j - length p") auto
    then have dr: "drop j ?cs = drop d rest" by (simp add: drop_append)
    have "take 1 (drop d rest) \<noteq> ''@''"
    proof
      assume "take 1 (drop d rest) = ''@''"
      then have "CHR ''@'' \<in> set (take 1 (drop d rest))" by simp
      then have "CHR ''@'' \<in> set rest" by (auto dest: in_set_takeD in_set_dropD)
      with assms(4) show False by simp
    qed
    with dr show "?f j = []" by simp
  qed
  from concat_map_rev_upt_first [of "length p" "run_len NotSpace ?cs" ?f, OF _ n at later]
    assms(1)
  obtain ys where "concat (map ?f (rev [1..<Suc (run_len NotSpace ?cs)])) =
      (i + length p + 2, rest, m(3 \<mapsto> (Suc i, Suc i + length p))) # ys"
    by (auto simp: Suc_le_eq)
  moreover have "mt url_tail1 i (CHR '':'' # ?cs) m =
      mt (Cat (Grp 3 (Plus NotSpace)) (Lit ''@'')) (Suc i) ?cs m"
    by (simp add: url_tail1_def mt_Cat_Lit_Cons)
  moreover have "mt (Cat (Grp 3 (Plus NotSpace)) (Lit ''@'')) (Suc i) ?cs m =
      concat (map ?f (rev [1..<Suc (run_len NotSpace ?cs)]))"
    by (rule mt_Grp_Plus_Cat)
  ultimately show ?thesis by auto
qed

lemma url_tail1_lang: "w \<in> lang url_tail1 \<Longrightarrow> \<exists>y. w = CHR '':'' # y @ ''@''"
proof -
  assume "w \<in> lang url_tail1"
  then obtain v1 v2 where w: "w = v1 @ v2" and v1: "v1 \<in> lang (Lit '':'')"
    and v2: "v2 \<in> lang (Cat (Grp 3 (Plus NotSpace)) (Lit ''@''))"
    unfolding url_tail1_def by (blast elim: lang_CatE)
  from v2 obtain v3 v4 where v34: "v2 = v3 @ v4" and "v4 \<in> lang (Lit ''@'')"
    by (blast elim: lang_CatE)
  with w v1 v34 show ?thesis by auto
qed

lemma url_userinfo_lang: "w \<in> lang url_userinfo \<Longrightarrow> \<exists>a y. w = a @ CHR '':'' # y @ ''@''"
proof -
  assume "w \<in> lang url_userinfo"
  then obtain a v where w: "w = a @ v" and v: "v \<in> lang url_tail1"
    unfolding url_userinfo_def by (blast elim: lang_CatE)
  from url_tail1_lang [OF v] w show ?thesis by auto
qed

lemma url_ds1_lang: "w \<in> lang url_ds1 \<Longrightarrow> \<exists>sp. w = ''Datasource'' @ CHR '':'' # sp"
  by (auto simp: url_ds1_def conc_def)

text \<open>Past the first \<open>:\<close>, no \<open>: ... @\<close> follows.\<close>

lemma mt_tail1_fails:
  assumes "CHR '':'' \<notin> set p" "CHR ''@'' \<notin> set rest"
  shows "mt url_tail1 j (drop d (p @ CHR ''@'' # rest)) m = []"
proof (rule mt_Nil_if_no_prefix)
  fix w ds'
  assume eq: "drop d (p @ CHR ''@'' # rest) = w @ ds'" and w: "w \<in> lang url_tail1"
  from url_tail1_lang [OF w] obtain y where "w = CHR '':'' # y @ ''@''" by blast
  with eq have "drop d (p @ CHR ''@'' # rest) = [] @ CHR '':'' # y @ CHR ''@'' # ds'" by simp
  with no_colon_then_at_drop [OF assms] show False by blast
qed

text \<open>The user name is the longest run before a \<open>:\<close> that the password part follows.\<close>

lemma mt_userinfo_first:
  assumes "u \<noteq> []" "p \<noteq> []" "set u \<inter> set go_space = {}" "set p \<inter> set go_space = {}"
    and "CHR '':'' \<notin> set u" "CHR '':'' \<notin> set p" "CHR ''@'' \<notin> set rest"
  shows "\<exists>ys. mt url_userinfo i (u @ CHR '':'' # p @ CHR ''@'' # rest) m =
           (i + length u + length p + 2, rest,
            m(2 \<mapsto> (i, i + length u), 3 \<mapsto> (Suc (i + length u), Suc (i + length u) + length p))) # ys"
proof -
  let ?s = "u @ CHR '':'' # p @ CHR ''@'' # rest"
  let ?g = "\<lambda>k. mt url_tail1 (i + k) (drop k ?s) (m(2 \<mapsto> (i, i + k)))"
  have eq: "mt url_userinfo i ?s m = concat (map ?g (rev [1..<Suc (run_len NotSpace ?s)]))"
    unfolding url_userinfo_def by (rule mt_Grp_Plus_Cat)
  have n: "length u \<le> run_len NotSpace ?s"
    using run_len_nonspace [OF assms(3)] by simp
  have at: "drop (length u) ?s = CHR '':'' # p @ CHR ''@'' # rest" by simp
  obtain ys where first: "?g (length u) =
      (i + length u + length p + 2, rest,
       m(2 \<mapsto> (i, i + length u), 3 \<mapsto> (Suc (i + length u), Suc (i + length u) + length p))) # ys"
  proof -
    from mt_tail1_first [OF assms(2,4,6,7), of "i + length u" "m(2 \<mapsto> (i, i + length u))"]
    obtain ys where "mt url_tail1 (i + length u) (CHR '':'' # p @ CHR ''@'' # rest)
        (m(2 \<mapsto> (i, i + length u))) =
      (i + length u + length p + 2, rest,
       m(2 \<mapsto> (i, i + length u), 3 \<mapsto> (Suc (i + length u), Suc (i + length u) + length p))) # ys"
      by blast
    with at show ?thesis using that by (simp only:)
  qed
  have later: "\<forall>j. length u < j \<and> j \<le> run_len NotSpace ?s \<longrightarrow> ?g j = []"
  proof (intro allI impI)
    fix j
    assume "length u < j \<and> j \<le> run_len NotSpace ?s"
    then obtain d where "j = Suc (length u + d)"
      using less_imp_Suc_add by blast
    then have "drop j ?s = drop d (p @ CHR ''@'' # rest)" by simp
    then show "?g j = []"
      using mt_tail1_fails [OF assms(6,7)] by (simp only:)
  qed
  from assms(1) have "1 \<le> length u" by (simp add: Suc_le_eq)
  from concat_map_rev_upt_first [OF this n first later] obtain zs
    where "concat (map ?g (rev [1..<Suc (run_len NotSpace ?s)])) =
      (i + length u + length p + 2, rest,
       m(2 \<mapsto> (i, i + length u), 3 \<mapsto> (Suc (i + length u), Suc (i + length u) + length p))) # zs"
    by blast
  with eq show ?thesis by (simp only:) blast
qed

text \<open>The optional \<open>Datasource:\<close> group leads nowhere on such a string.\<close>

lemma mt_ds1_userinfo_fails:
  assumes "CHR '':'' \<notin> set u" "CHR '':'' \<notin> set p" "CHR ''@'' \<notin> set rest"
    and "(j, ds, m') \<in> set (mt url_ds1 i (u @ CHR '':'' # p @ CHR ''@'' # rest) m)"
  shows "mt url_userinfo j ds m' = []"
proof (rule mt_Nil_if_no_prefix)
  fix w ds'
  assume dsw: "ds = w @ ds'" and w: "w \<in> lang url_userinfo"
  from mt_sound [OF assms(4)] obtain w0
    where s: "u @ CHR '':'' # p @ CHR ''@'' # rest = w0 @ ds" and w0: "w0 \<in> lang url_ds1"
    by blast
  from url_ds1_lang [OF w0] obtain sp where sp: "w0 = ''Datasource'' @ CHR '':'' # sp"
    by blast
  from url_userinfo_lang [OF w] obtain a y where a: "w = a @ CHR '':'' # y @ ''@''"
    by blast
  from s sp dsw a have "u @ CHR '':'' # (p @ CHR ''@'' # rest) =
      ''Datasource'' @ CHR '':'' # ((sp @ a) @ CHR '':'' # y @ CHR ''@'' # ds')"
    by simp
  from split_first_eq [OF assms(1) _ this] have
    "p @ CHR ''@'' # rest = (sp @ a) @ CHR '':'' # y @ CHR ''@'' # ds'"
    by simp
  with no_colon_then_at [OF assms(2,3)] show False by blast
qed

lemma search_dbURLRegex_userinfo:
  assumes "u \<noteq> []" "p \<noteq> []" "set u \<inter> set go_space = {}" "set p \<inter> set go_space = {}"
    and "CHR '':'' \<notin> set u" "CHR '':'' \<notin> set p" "CHR ''@'' \<notin> set rest"
  shows "search dbURLRegex 0 (u @ CHR '':'' # p @ CHR ''@'' # rest) =
           Some (0, length u + length p + 2,
                 Map.empty(2 \<mapsto> (0, length u), 3 \<mapsto> (Suc (length u), Suc (length u) + length p)))"
proof -
  let ?s = "u @ CHR '':'' # p @ CHR ''@'' # rest"
  let ?r = "(length u + length p + 2, rest,
             Map.empty(2 \<mapsto> (0, length u), 3 \<mapsto> (Suc (length u), Suc (length u) + length p)))"
  have nil: "concat (map (\<lambda>(j, ds, m'). mt url_userinfo j ds m') (mt url_ds1 0 ?s Map.empty)) = []"
    by (rule concat_map_Nil) (auto intro: mt_ds1_userinfo_fails [OF assms(5,6,7)])
  obtain ys where ui: "mt url_userinfo 0 ?s Map.empty = ?r # ys"
    using mt_userinfo_first [OF assms, of 0 Map.empty] by auto
  have "mt url_alt1 0 ?s Map.empty = ?r # ys"
    unfolding url_alt1_def mt_Opt_Cat nil ui by simp
  then have "mt dbURLRegex 0 ?s Map.empty = ?r # (ys @ mt (Alt url_alt2 url_alt3) 0 ?s Map.empty)"
    unfolding dbURLRegex_def by simp
  moreover obtain c cs where "?s = c # cs"
    using assms(1) by (cases u) auto
  ultimately show ?thesis
    by (metis (no_types, lifting) search_Cons_first)
qed

lemma grps_dbURLRegex: "grps dbURLRegex = [1, 2, 3, 4, 5, 6, 7, 8, 9]"
  by (simp add: url_defs)

lemma FindStringSubmatch_dbURLRegex_None:
  "search dbURLRegex 0 s = None \<Longrightarrow> FindStringSubmatch dbURLRegex s = []"
  by (simp add: FindStringSubmatch_def)

lemma mask_one_Nil [simp]: "mask_one [] sub = sub"
  by (simp add: mask_one_def)

section \<open>Properties of MaskDBCred\<close>

text \<open>
  C1: On a string that starts \<open>user:password@\<close> (user and password without blanks or
  \<open>:\<close>, nothing after the \<open>@\<close> containing another \<open>@\<close>, the password not starting
  with \<open>*\<close>, neither starting with \<open>user=\<close> or \<open>password=\<close>), \<open>MaskDBCred\<close>
  replaces both the user and the password by \<open>****\<close> and keeps the rest verbatim. The
  password may contain \<open>@\<close>: the greedy match takes it up to the last \<open>@\<close>.
\<close>

theorem mask_userinfo:
  assumes "u \<noteq> []" "p \<noteq> []" "set u \<inter> set go_space = {}" "set p \<inter> set go_space = {}"
    and "CHR '':'' \<notin> set u" "CHR '':'' \<notin> set p" "CHR ''@'' \<notin> set rest"
    and "hd p \<noteq> CHR ''*''"
    and "go_index u ''user='' \<noteq> 0" "go_index u ''password='' \<noteq> 0"
    and "go_index p ''user='' \<noteq> 0" "go_index p ''password='' \<noteq> 0"
  shows "MaskDBCred (u @ '':'' @ p @ ''@'' @ rest) = ''****:****@'' @ rest"
proof -
  let ?s = "u @ CHR '':'' # p @ CHR ''@'' # rest"
  let ?m = "Map.empty(2 \<mapsto> (0, length u), 3 \<mapsto> (Suc (length u), Suc (length u) + length p))
            :: caps"
  let ?n = "length u + length p + 2"
  have srch: "search dbURLRegex 0 ?s = Some (0, ?n, ?m)"
    by (rule search_dbURLRegex_userinfo [OF assms(1-7)])
  have sub: "substr ?s 0 ?n = u @ '':'' @ p @ ''@''"
    by (simp add: substr_def)
  have g2: "submatch ?s ?m 2 = u" and g3: "submatch ?s ?m 3 = p"
    by (simp_all add: submatch_def substr_def)
  have gs: "submatch ?s ?m g = []" if "g \<noteq> 2" "g \<noteq> 3" for g
    using that by (simp add: submatch_def)
  have matches: "FindStringSubmatch dbURLRegex ?s = [u @ '':'' @ p @ ''@'', [], u, p, [], [], [], [], [], []]"
  proof -
    have "[1..<Suc (length (grps dbURLRegex))] = [1, 2, 3, 4, 5, 6, 7, 8, 9]"
      by (simp add: grps_dbURLRegex upt_conv_Cons)
    with srch sub g2 g3 gs show ?thesis
      by (simp add: FindStringSubmatch_def)
  qed
  have idx: "FindStringSubmatchIndex dbURLRegex ?s = Some (0, ?n)"
    using srch by (simp add: FindStringSubmatchIndex_def)
  have m1: "mask_one u (u @ '':'' @ p @ ''@'') = ''****'' @ '':'' @ p @ ''@''"
    using assms(1,9,10) by (simp add: mask_one_def go_replace1_prefix)
  have hdp: "hd p \<notin> set ''****:''"
    using assms(2,6,8) by (cases p) auto
  have m2: "mask_one p (''****:'' @ p @ ''@'') = ''****:****@''"
    using assms(2,11,12) go_replace1_after [OF assms(2) hdp, of "''@''" "''****''"]
    by (simp add: mask_one_def)
  have mg: "mask_groups (tl [u @ '':'' @ p @ ''@'', [], u, p, [], [], [], [], [], []])
      (u @ '':'' @ p @ ''@'') = ''****:****@''"
    using m1 m2 by simp
  show ?thesis
    using matches idx mg sub by (simp add: MaskDBCred_def Let_def)
qed

theorem mask_userinfo_witness:
  "MaskDBCred (''root'' @ '':'' @ ''Zsba@mysql2018*'' @ ''@'' @ ''tcp(127.0.0.1:3306)/switch'') =
   ''****:****@'' @ ''tcp(127.0.0.1:3306)/switch''"
  by (rule mask_userinfo) (simp_all add: go_space_def go_index_def)

text \<open>
  C17: A string with no \<open>@\<close> and no \<open>user=\<close> contains no match of \<open>dbURLRegex\<close>,
  and \<open>MaskDBCred\<close> returns it unchanged.
\<close>

theorem mask_no_credentials:
  assumes "CHR ''@'' \<notin> set s" and "find_sub ''user='' s = None"
  shows "MaskDBCred s = s"
proof -
  have "\<not> has_match dbURLRegex s"
  proof
    assume "has_match dbURLRegex s"
    from has_match_dbURLRegex [OF this] assms show False
      using find_sub_None_append by blast
  qed
  then have "search dbURLRegex 0 s = None"
    by (simp add: search_None_iff)
  then show ?thesis
    by (simp add: MaskDBCred_def FindStringSubmatch_dbURLRegex_None)
qed

theorem mask_no_credentials_witness:
  "MaskDBCred ''tcp(127.0.0.1:3306)/switch?charset=utf8'' = ''tcp(127.0.0.1:3306)/switch?charset=utf8''"
  by (rule mask_no_credentials) simp_all

end
