(* ===== verification/Dao_Config.thy ===== *)
theory Dao_Config
  imports Dao_Prelude
begin

text \<open>
  The configuration loader of \<open>src/config/config.go\<close>: the records
  \<open>ServerTLSConfig\<close> and \<open>DataBaseConfig\<close>, the default constants,
  \<open>CheckFileIsExist\<close> and \<open>LoadDBConfig\<close>, with the path functions of Go's
  \<open>path/filepath\<close> it calls (\<open>Join\<close>, \<open>Clean\<close>, \<open>Abs\<close>, on Unix). The TOML library
  is an interface: a record of an encoder and a decoder, so that the lemmas hold for any
  implementation and the round trip is stated under its contract.
\<close>

section \<open>Data\<close>

record ServerTLSConfig =
  Enabled :: bool
  CertFile :: string
  KeyFile :: string
  CaCert :: string

record DataBaseConfig =
  Type :: string
  DataSource :: string
  MaxIdle :: int
  MaxOpen :: int
  IsLoger :: bool
  TLS :: ServerTLSConfig

definition DB_TYPE :: string where "DB_TYPE = ''mysql''"
definition DB_SOURCE :: string where
  "DB_SOURCE = ''root:Zsba@mysql2018*@tcp(127.0.0.1:3306)/switch?charset=utf8&parseTime=true''"
definition DB_MAXIDLE :: int where "DB_MAXIDLE = 30"
definition DB_MAXOPEN :: int where "DB_MAXOPEN = 30"
definition DB_ISLOGER :: bool where "DB_ISLOGER = True"
definition DB_TLS_ENABLED :: bool where "DB_TLS_ENABLED = False"
definition DB_TLS_CLIENTCERT :: string where "DB_TLS_CLIENTCERT = ''db_client.pem''"
definition DB_TLS_CLIENTKEY :: string where "DB_TLS_CLIENTKEY = ''db_client.key''"
definition DB_TLS_CACERT :: string where "DB_TLS_CACERT = ''db_ca.pem''"

text \<open>The configuration the \<open>else\<close> branch of \<open>LoadDBConfig\<close> fills in.\<close>

definition default_config :: DataBaseConfig where
  "default_config =
     \<lparr>Type = DB_TYPE, DataSource = DB_SOURCE, MaxIdle = DB_MAXIDLE, MaxOpen = DB_MAXOPEN,
      IsLoger = DB_ISLOGER,
      TLS = \<lparr>Enabled = DB_TLS_ENABLED, CertFile = DB_TLS_CLIENTCERT,
             KeyFile = DB_TLS_CLIENTKEY, CaCert = DB_TLS_CACERT\<rparr>\<rparr>"

section \<open>Paths\<close>

fun split_slash :: "string \<Rightarrow> string list" where
  "split_slash [] = [[]]"
| "split_slash (c # cs) =
     (let r = split_slash cs in if c = CHR ''/'' then [] # r else (c # hd r) # tl r)"

fun join_slash :: "string list \<Rightarrow> string" where
  "join_slash [] = []"
| "join_slash [e] = e"
| "join_slash (e # es) = e @ ''/'' @ join_slash es"

text \<open>
  The lexical rules of \<open>filepath.Clean\<close>: empty and \<open>.\<close> elements go, an inner
  \<open>..\<close> removes the element before it, a \<open>..\<close> at the start of a rooted path goes.
  \<open>acc\<close> holds the kept elements, last first.
\<close>

fun clean_elems :: "bool \<Rightarrow> string list \<Rightarrow> string list \<Rightarrow> string list" where
  "clean_elems rooted acc [] = rev acc"
| "clean_elems rooted acc (e # es) =
     (if e = [] \<or> e = ''.'' then clean_elems rooted acc es
      else if e = ''..'' then
        (case acc of
           [] \<Rightarrow> if rooted then clean_elems rooted [] es else clean_elems rooted [e] es
         | x # acc' \<Rightarrow> if x = ''..'' then clean_elems rooted (e # acc) es
                       else clean_elems rooted acc' es)
      else clean_elems rooted (e # acc) es)"

definition go_clean :: "string \<Rightarrow> string" where
  "go_clean p =
     (if p = [] then ''.''
      else (let rooted = (hd p = CHR ''/'');
                body = join_slash (clean_elems rooted [] (split_slash p))
            in if rooted then CHR ''/'' # body else if body = [] then ''.'' else body))"

text \<open>\<open>filepath.Join\<close> of two elements and \<open>filepath.Abs\<close> (\<open>None\<close>: \<open>Getwd\<close> failed).\<close>

definition go_join :: "string \<Rightarrow> string \<Rightarrow> string" where
  "go_join a b =
     (if a \<noteq> [] then go_clean (a @ ''/'' @ b) else if b \<noteq> [] then go_clean b else [])"

definition go_abs :: "os_state \<Rightarrow> string \<Rightarrow> string option" where
  "go_abs os p =
     (if p \<noteq> [] \<and> hd p = CHR ''/'' then Some (go_clean p)
      else map_option (\<lambda>wd. go_join wd p) (os_cwd os))"

section \<open>Loading\<close>

text \<open>\<open>CheckFileIsExist\<close>: false only when \<open>os.Stat\<close> reports that the file does not exist.\<close>

definition CheckFileIsExist :: "os_state \<Rightarrow> string \<Rightarrow> bool" where
  "CheckFileIsExist os filename \<longleftrightarrow> filename \<in> dom (os_files os) \<or> filename \<in> os_stat_fails os"

text \<open>
  The TOML library: \<open>toml_decode\<close> is \<open>toml.DecodeFile\<close> into a fresh
  \<open>DataBaseConfig\<close> after the file has been read, \<open>toml_encode\<close> is
  \<open>toml.NewEncoder(buf).Encode\<close>; \<open>None\<close> is a returned error.
\<close>

record toml_codec =
  toml_decode :: "string \<Rightarrow> DataBaseConfig option"
  toml_encode :: "DataBaseConfig \<Rightarrow> string option"

definition decode_file :: "toml_codec \<Rightarrow> os_state \<Rightarrow> string \<Rightarrow> dao_error + DataBaseConfig" where
  "decode_file codec os p =
     (case read_file os p of
        None \<Rightarrow> Inl ConfigDecodeFailed
      | Some content \<Rightarrow>
          (case toml_decode codec content of None \<Rightarrow> Inl ConfigDecodeFailed | Some c \<Rightarrow> Inr c))"

definition config_rel_path :: string where
  "config_rel_path = ''./configs/dao.toml''"

definition LoadDBConfig ::
  "toml_codec \<Rightarrow> os_state \<Rightarrow> string \<Rightarrow> os_state \<times> (dao_error + DataBaseConfig)" where
  "LoadDBConfig codec os dir =
     (case go_abs os (go_join dir config_rel_path) of
        None \<Rightarrow> (os, Inl ConfigPathFailed)
      | Some filePath \<Rightarrow>
          if CheckFileIsExist os filePath then (os, decode_file codec os filePath)
          else (case toml_encode codec default_config of
                  None \<Rightarrow> (os, Inl ConfigEncodeFailed)
                | Some buf \<Rightarrow>
                    (case write_file os filePath buf of
                       None \<Rightarrow> (os, Inl ConfigWriteFailed)
                     | Some os' \<Rightarrow> (os', Inr default_config))))"

text \<open>The path \<open>LoadDBConfig\<close> resolves, when \<open>Getwd\<close> succeeds or \<open>dir\<close> is absolute.\<close>

definition config_path :: "os_state \<Rightarrow> string \<Rightarrow> string option" where
  "config_path os dir = go_abs os (go_join dir config_rel_path)"

text \<open>A concrete file system and codec on which the properties are exercised.\<close>

definition demo_os :: os_state where
  "demo_os = \<lparr>os_files = Map.empty, os_stat_fails = {}, os_read_only = {}, os_cwd = Some ''/app''\<rparr>"

definition demo_codec :: toml_codec where
  "demo_codec = \<lparr>toml_decode = (\<lambda>t. if t = ''defaults'' then Some default_config else None),
                 toml_encode = (\<lambda>c. Some ''defaults'')\<rparr>"

section \<open>Lemmas\<close>

lemma config_path_write_file:
  "write_file os p c = Some os' \<Longrightarrow> config_path os' dir = config_path os dir"
  by (drule write_file_Some) (simp add: config_path_def go_abs_def)

lemma CheckFileIsExist_write_file:
  "write_file os p c = Some os' \<Longrightarrow> CheckFileIsExist os' p"
  by (drule write_file_Some) (simp add: CheckFileIsExist_def)

lemma LoadDBConfig_path:
  "config_path os dir = Some p \<Longrightarrow>
   LoadDBConfig codec os dir =
     (if CheckFileIsExist os p then (os, decode_file codec os p)
      else (case toml_encode codec default_config of
              None \<Rightarrow> (os, Inl ConfigEncodeFailed)
            | Some buf \<Rightarrow>
                (case write_file os p buf of
                   None \<Rightarrow> (os, Inl ConfigWriteFailed)
                 | Some os' \<Rightarrow> (os', Inr default_config))))"
  by (simp add: LoadDBConfig_def config_path_def)

lemma demo_path: "config_path demo_os ''./'' = Some ''/app/configs/dao.toml''"
  by (simp add: config_path_def go_abs_def go_join_def go_clean_def config_rel_path_def demo_os_def)

lemma LoadDBConfig_fresh:
  "config_path os dir = Some p \<Longrightarrow> \<not> CheckFileIsExist os p \<Longrightarrow>
   toml_encode codec default_config = Some buf \<Longrightarrow> write_file os p buf = Some os' \<Longrightarrow>
   LoadDBConfig codec os dir = (os', Inr default_config)"
  by (simp add: LoadDBConfig_path)

text \<open>The first run on the example file system.\<close>

lemma demo_first_load:
  "LoadDBConfig demo_codec demo_os ''./'' =
     (demo_os\<lparr>os_files := [''/app/configs/dao.toml'' \<mapsto> ''defaults'']\<rparr>, Inr default_config)"
  by (rule LoadDBConfig_fresh [OF demo_path])
    (simp_all add: demo_os_def demo_codec_def CheckFileIsExist_def write_file_def)

text \<open>Later runs on the example file system, with a file already at the resolved path.\<close>

lemma demo_load_existing:
  "LoadDBConfig codec (demo_os\<lparr>os_files := [''/app/configs/dao.toml'' \<mapsto> t]\<rparr>) ''./'' =
     (demo_os\<lparr>os_files := [''/app/configs/dao.toml'' \<mapsto> t]\<rparr>,
      case toml_decode codec t of None \<Rightarrow> Inl ConfigDecodeFailed | Some c \<Rightarrow> Inr c)"
proof -
  have "config_path (demo_os\<lparr>os_files := [''/app/configs/dao.toml'' \<mapsto> t]\<rparr>) ''./'' =
      Some ''/app/configs/dao.toml''"
    by (simp add: config_path_def go_abs_def go_join_def go_clean_def config_rel_path_def demo_os_def)
  then show ?thesis
    by (simp add: LoadDBConfig_path CheckFileIsExist_def decode_file_def read_file_def demo_os_def)
qed

section \<open>Properties\<close>

text \<open>
  C12: On a first run (no file at the resolved path), \<open>LoadDBConfig\<close> returns the built-in
  defaults (type \<open>mysql\<close>, 30 idle and 30 open connections, TLS off) and leaves the encoded
  defaults in a file at that path.
\<close>

theorem load_first_run:
  assumes "config_path os dir = Some p" "\<not> CheckFileIsExist os p"
    and "toml_encode codec default_config = Some buf" "write_file os p buf = Some os'"
  shows "LoadDBConfig codec os dir = (os', Inr default_config) \<and> read_file os' p = Some buf \<and>
         CheckFileIsExist os' p \<and> Type default_config = ''mysql'' \<and> MaxIdle default_config = 30 \<and>
         MaxOpen default_config = 30 \<and> \<not> Enabled (TLS default_config)"
  using LoadDBConfig_fresh [OF assms] read_file_write_file [OF assms(4)]
    CheckFileIsExist_write_file [OF assms(4)]
  by (simp add: default_config_def DB_TYPE_def DB_MAXIDLE_def DB_MAXOPEN_def DB_TLS_ENABLED_def)

text \<open>
  C11: A first run that finds no file writes the encoded defaults and returns them; the
  second run then takes the existing-file branch: it writes nothing and returns exactly what
  decoding the bytes the first run wrote gives (under the TOML library's round-trip contract,
  the defaults again).
\<close>

theorem load_roundtrip:
  assumes "config_path os dir = Some p" "\<not> CheckFileIsExist os p"
    and "toml_encode codec default_config = Some buf" "write_file os p buf = Some os'"
  shows "LoadDBConfig codec os dir = (os', Inr default_config) \<and>
         LoadDBConfig codec os' dir =
           (os', case toml_decode codec buf of None \<Rightarrow> Inl ConfigDecodeFailed | Some c \<Rightarrow> Inr c)"
proof -
  have first: "LoadDBConfig codec os dir = (os', Inr default_config)"
    using LoadDBConfig_fresh [OF assms(1-4)] .
  have p': "config_path os' dir = Some p"
    using config_path_write_file [OF assms(4)] assms(1) by simp
  have "LoadDBConfig codec os' dir = (os', decode_file codec os' p)"
    using LoadDBConfig_path [OF p'] CheckFileIsExist_write_file [OF assms(4)] by simp
  moreover have "decode_file codec os' p =
      (case toml_decode codec buf of None \<Rightarrow> Inl ConfigDecodeFailed | Some c \<Rightarrow> Inr c)"
    using read_file_write_file [OF assms(4)] by (simp add: decode_file_def)
  ultimately show ?thesis using first by simp
qed

text \<open>
  C27: \<open>LoadDBConfig\<close> never changes a file that already exists: it writes only when the
  resolved path has no file, and only there.
\<close>

theorem load_preserves_files:
  assumes "os_files os q = Some c"
  shows "os_files (fst (LoadDBConfig codec os dir)) q = Some c"
proof (cases "config_path os dir")
  case None
  then show ?thesis using assms by (simp add: LoadDBConfig_def config_path_def)
next
  case (Some p)
  show ?thesis
  proof (cases "CheckFileIsExist os p")
    case True
    with Some assms show ?thesis by (simp add: LoadDBConfig_path)
  next
    case False
    then have "q \<noteq> p" using assms by (auto simp: CheckFileIsExist_def)
    with Some False assms show ?thesis
      by (auto simp: LoadDBConfig_path dest: write_file_Some split: option.splits)
  qed
qed

text \<open>
  C28: When a file exists at the resolved path but cannot be read, or its contents do not
  decode, \<open>LoadDBConfig\<close> fails with \<open>ConfigDecodeFailed\<close> and writes nothing; a path
  whose \<open>Stat\<close> fails for another reason than absence counts as existing.
\<close>

theorem load_decode_error:
  assumes "config_path os dir = Some p" "p \<in> os_stat_fails os \<or> os_files os p \<noteq> None"
    and "read_file os p = None \<or> (\<exists>t. read_file os p = Some t \<and> toml_decode codec t = None)"
  shows "LoadDBConfig codec os dir = (os, Inl ConfigDecodeFailed)"
proof -
  from assms(2) have "CheckFileIsExist os p" by (auto simp: CheckFileIsExist_def)
  with assms(3) show ?thesis
    by (auto simp: LoadDBConfig_path [OF assms(1)] decode_file_def)
qed


theorem load_first_run_witness:
  "LoadDBConfig demo_codec demo_os ''./'' =
     (demo_os\<lparr>os_files := [''/app/configs/dao.toml'' \<mapsto> ''defaults'']\<rparr>, Inr default_config)"
  using load_first_run [OF demo_path, of demo_codec "''defaults''"
      "demo_os\<lparr>os_files := [''/app/configs/dao.toml'' \<mapsto> ''defaults'']\<rparr>"]
  by (simp add: demo_os_def demo_codec_def CheckFileIsExist_def write_file_def)

theorem load_roundtrip_witness:
  "LoadDBConfig demo_codec (demo_os\<lparr>os_files := [''/app/configs/dao.toml'' \<mapsto> ''defaults'']\<rparr>) ''./'' =
     (demo_os\<lparr>os_files := [''/app/configs/dao.toml'' \<mapsto> ''defaults'']\<rparr>, Inr default_config)"
  using load_roundtrip [OF demo_path, of demo_codec "''defaults''"
      "demo_os\<lparr>os_files := [''/app/configs/dao.toml'' \<mapsto> ''defaults'']\<rparr>"]
  by (simp add: demo_os_def demo_codec_def CheckFileIsExist_def write_file_def)

theorem load_preserves_files_witness:
  "os_files (fst (LoadDBConfig demo_codec (demo_os\<lparr>os_files := [''/etc/hosts'' \<mapsto> ''h'']\<rparr>) ''./''))
     ''/etc/hosts'' = Some ''h''"
  by (rule load_preserves_files) simp

theorem load_decode_error_witness:
  "LoadDBConfig demo_codec (demo_os\<lparr>os_files := [''/app/configs/dao.toml'' \<mapsto> ''garbage'']\<rparr>) ''./'' =
     (demo_os\<lparr>os_files := [''/app/configs/dao.toml'' \<mapsto> ''garbage'']\<rparr>, Inl ConfigDecodeFailed)"
proof (rule load_decode_error)
  show "config_path (demo_os\<lparr>os_files := [''/app/configs/dao.toml'' \<mapsto> ''garbage'']\<rparr>) ''./'' =
      Some ''/app/configs/dao.toml''"
    by (simp add: config_path_def go_abs_def go_join_def go_clean_def config_rel_path_def demo_os_def)
qed (simp_all add: demo_os_def demo_codec_def read_file_def)

end
