(* ===== verification/Dao_Tls.thy ===== *)
theory Dao_Tls
  imports Dao_Prelude
begin

text \<open>
  The TLS builder of \<open>src/dao/dao.go\<close>: \<open>GetX509CertificateFromPEM\<close>,
  \<open>checkCertDates\<close> and \<open>GetClientTLSConfig\<close>. PEM decoding, X.509 parsing, key-pair
  loading and \<open>CertPool.AppendCertsFromPEM\<close> belong to Go's crypto packages and are an
  interface, the record \<open>crypto_lib\<close>; a certificate is what the code reads of it, its
  validity window, in seconds of UTC time.
\<close>

record x509_cert =
  NotBefore :: int
  NotAfter :: int

record crypto_lib =
  pem_decode :: "string \<Rightarrow> string option"
  x509_parse :: "string \<Rightarrow> x509_cert option"
  key_pair_ok :: "string \<Rightarrow> string \<Rightarrow> bool"
  append_certs_ok :: "string \<Rightarrow> bool"

text \<open>The \<open>tls.Config\<close> the builder returns: the client certificate files it loaded and the
  contents of the root CA file.\<close>

record tls_config =
  Certificates :: "string list"
  RootCAs :: string

definition GetX509CertificateFromPEM :: "crypto_lib \<Rightarrow> string \<Rightarrow> dao_error + x509_cert" where
  "GetX509CertificateFromPEM lib cert =
     (case pem_decode lib cert of
        None \<Rightarrow> Inl PemDecodeFailed
      | Some block \<Rightarrow>
          (case x509_parse lib block of None \<Rightarrow> Inl CertParseFailed | Some c \<Rightarrow> Inr c))"

text \<open>\<open>now\<close> is \<open>time.Now().UTC()\<close>; \<open>After\<close> and \<open>Before\<close> are strict.\<close>

definition checkCertDates :: "crypto_lib \<Rightarrow> os_state \<Rightarrow> int \<Rightarrow> string \<Rightarrow> dao_error + unit" where
  "checkCertDates lib os now certFile =
     (case read_file os certFile of
        None \<Rightarrow> Inl (FileReadFailed certFile)
      | Some certPEM \<Rightarrow>
          (case GetX509CertificateFromPEM lib certPEM of
             Inl e \<Rightarrow> Inl e
           | Inr cert \<Rightarrow>
               if NotAfter cert < now then Inl CertExpired
               else if now < NotBefore cert then Inl CertNotYetValid
               else Inr ()))"

text \<open>\<open>tls.LoadX509KeyPair(cert, key)\<close> reads both files.\<close>

definition LoadX509KeyPair :: "crypto_lib \<Rightarrow> os_state \<Rightarrow> string \<Rightarrow> string \<Rightarrow> dao_error + string" where
  "LoadX509KeyPair lib os cert key =
     (case (read_file os cert, read_file os key) of
        (Some c, Some k) \<Rightarrow> if key_pair_ok lib c k then Inr cert else Inl KeyPairFailed
      | _ \<Rightarrow> Inl KeyPairFailed)"

text \<open>
  When \<open>AppendCertsFromPEM\<close> finds no certificate the code formats \<open>err.Error()\<close> with
  \<open>err\<close> still nil from the successful \<open>ReadFile\<close>: a nil dereference, which panics.
  The result \<open>Inl NilErrorDeref\<close> is that panic; the callers pass it on unwrapped
  (\<open>wrap_err\<close>), and \<open>main\<close> ends with it before printing anything.
\<close>

definition GetClientTLSConfig ::
  "crypto_lib \<Rightarrow> os_state \<Rightarrow> int \<Rightarrow> string \<Rightarrow> string \<Rightarrow> string \<Rightarrow> dao_error + tls_config" where
  "GetClientTLSConfig lib os now cacert key cert =
     (let certsR =
        (if cert \<noteq> [] then
           (case checkCertDates lib os now cert of
              Inl e \<Rightarrow> Inl e
            | Inr _ \<Rightarrow>
                (case LoadX509KeyPair lib os cert key of
                   Inl e \<Rightarrow> Inl e
                 | Inr clientCert \<Rightarrow> Inr [clientCert]))
         else Inr [])
      in case certsR of
           Inl e \<Rightarrow> Inl e
         | Inr certs \<Rightarrow>
             if length cacert = 0 then Inl NoRootCA
             else (case read_file os cacert of
                     None \<Rightarrow> Inl (FileReadFailed cacert)
                   | Some caCert \<Rightarrow>
                       if append_certs_ok lib caCert
                       then Inr \<lparr>Certificates = certs, RootCAs = caCert\<rparr>
                       else Inl NilErrorDeref))"

text \<open>A crypto library for examples: PEM blocks decode to themselves, every certificate is
  valid from time 0 to 100, key pairs and CA bundles load.\<close>

definition demo_lib :: crypto_lib where
  "demo_lib = \<lparr>pem_decode = Some, x509_parse = \<lambda>_. Some \<lparr>NotBefore = 0, NotAfter = 100\<rparr>,
     key_pair_ok = \<lambda>_ _. True, append_certs_ok = \<lambda>_. True\<rparr>"

section \<open>Lemmas\<close>

lemma checkCertDates_Inr:
  "checkCertDates lib os now certFile = Inr u \<longleftrightarrow>
   (\<exists>pem c. read_file os certFile = Some pem \<and> GetX509CertificateFromPEM lib pem = Inr c \<and>
            NotBefore c \<le> now \<and> now \<le> NotAfter c)"
  by (auto simp: checkCertDates_def split: option.splits sum.splits)

lemma GetClientTLSConfig_no_cert:
  "GetClientTLSConfig lib os now cacert key [] =
     (if cacert = [] then Inl NoRootCA
      else (case read_file os cacert of
              None \<Rightarrow> Inl (FileReadFailed cacert)
            | Some ca \<Rightarrow> if append_certs_ok lib ca then Inr \<lparr>Certificates = [], RootCAs = ca\<rparr>
                        else Inl NilErrorDeref))"
  by (simp add: GetClientTLSConfig_def)

section \<open>Properties\<close>

text \<open>
  C15: A client certificate whose \<open>NotAfter\<close> lies before the current time is rejected with
  \<open>CertExpired\<close>, whatever the root CA setting.
\<close>

theorem tls_cert_expired:
  assumes "cert \<noteq> []" "read_file os cert = Some pem" "GetX509CertificateFromPEM lib pem = Inr c"
    and "NotAfter c < now"
  shows "GetClientTLSConfig lib os now cacert key cert = Inl CertExpired"
  using assms by (simp add: GetClientTLSConfig_def checkCertDates_def)

theorem tls_cert_expired_witness:
  "GetClientTLSConfig
     \<lparr>pem_decode = Some, x509_parse = \<lambda>_. Some \<lparr>NotBefore = 0, NotAfter = 100\<rparr>,
      key_pair_ok = \<lambda>_ _. True, append_certs_ok = \<lambda>_. True\<rparr>
     \<lparr>os_files = [''c.pem'' \<mapsto> ''PEM''], os_stat_fails = {}, os_read_only = {}, os_cwd = None\<rparr>
     200 ''ca.pem'' ''c.key'' ''c.pem'' = Inl CertExpired"
  by (rule tls_cert_expired [where pem = "''PEM''" and c = "\<lparr>NotBefore = 0, NotAfter = 100\<rparr>"])
    (simp_all add: read_file_def GetX509CertificateFromPEM_def)

text \<open>
  C16: A client certificate that has not expired but whose \<open>NotBefore\<close> lies after the
  current time is rejected with \<open>CertNotYetValid\<close>.
\<close>

theorem tls_cert_not_yet_valid:
  assumes "cert \<noteq> []" "read_file os cert = Some pem" "GetX509CertificateFromPEM lib pem = Inr c"
    and "now \<le> NotAfter c" "now < NotBefore c"
  shows "GetClientTLSConfig lib os now cacert key cert = Inl CertNotYetValid"
  using assms by (simp add: GetClientTLSConfig_def checkCertDates_def)

theorem tls_cert_not_yet_valid_witness:
  "GetClientTLSConfig
     \<lparr>pem_decode = Some, x509_parse = \<lambda>_. Some \<lparr>NotBefore = 50, NotAfter = 100\<rparr>,
      key_pair_ok = \<lambda>_ _. True, append_certs_ok = \<lambda>_. True\<rparr>
     \<lparr>os_files = [''c.pem'' \<mapsto> ''PEM''], os_stat_fails = {}, os_read_only = {}, os_cwd = None\<rparr>
     10 ''ca.pem'' ''c.key'' ''c.pem'' = Inl CertNotYetValid"
  by (rule tls_cert_not_yet_valid [where pem = "''PEM''" and c = "\<lparr>NotBefore = 50, NotAfter = 100\<rparr>"])
    (simp_all add: read_file_def GetX509CertificateFromPEM_def)

text \<open>
  C25: \<open>GetClientTLSConfig\<close> succeeds exactly when the client certificate is absent or
  readable, parsable, valid at the current time (both ends of the window included) with a
  matching key, and the root CA file is named, readable and holds a certificate; the result
  carries that certificate and the CA file's contents.
\<close>

theorem tls_success_iff:
  "GetClientTLSConfig lib os now cacert key cert = Inr cfg \<longleftrightarrow>
   (cert = [] \<or> (checkCertDates lib os now cert = Inr () \<and> LoadX509KeyPair lib os cert key = Inr cert)) \<and>
   cacert \<noteq> [] \<and>
   (\<exists>ca. read_file os cacert = Some ca \<and> append_certs_ok lib ca \<and>
         cfg = \<lparr>Certificates = (if cert = [] then [] else [cert]), RootCAs = ca\<rparr>)"
  by (auto simp: GetClientTLSConfig_def LoadX509KeyPair_def split: sum.splits option.splits
      prod.splits if_splits)

theorem tls_success_iff_witness:
  "GetClientTLSConfig
     \<lparr>pem_decode = Some, x509_parse = \<lambda>_. Some \<lparr>NotBefore = 0, NotAfter = 100\<rparr>,
      key_pair_ok = \<lambda>_ _. True, append_certs_ok = \<lambda>_. True\<rparr>
     \<lparr>os_files = [''ca.pem'' \<mapsto> ''CA''], os_stat_fails = {}, os_read_only = {}, os_cwd = None\<rparr>
     100 ''ca.pem'' [] [] = Inr \<lparr>Certificates = [], RootCAs = ''CA''\<rparr>"
  by (subst tls_success_iff) (simp add: read_file_def)

text \<open>
  C26: When the root CA file is readable but holds no certificate, the code formats the
  error of the earlier \<open>ReadFile\<close>, which is nil: the call panics (\<open>NilErrorDeref\<close>)
  instead of returning the invalid-root-CA error.
\<close>

theorem tls_root_ca_invalid_panics:
  assumes "cacert \<noteq> []" "read_file os cacert = Some ca" "\<not> append_certs_ok lib ca"
  shows "GetClientTLSConfig lib os now cacert key [] = Inl NilErrorDeref"
  using assms by (simp add: GetClientTLSConfig_no_cert)

theorem tls_root_ca_invalid_panics_witness:
  "GetClientTLSConfig
     \<lparr>pem_decode = Some, x509_parse = \<lambda>_. None, key_pair_ok = \<lambda>_ _. True,
      append_certs_ok = \<lambda>_. False\<rparr>
     \<lparr>os_files = [''ca.pem'' \<mapsto> ''junk''], os_stat_fails = {}, os_read_only = {}, os_cwd = None\<rparr>
     0 ''ca.pem'' [] [] = Inl NilErrorDeref"
  by (rule tls_root_ca_invalid_panics [where ca = "''junk''"]) (simp_all add: read_file_def)

end
