(* ===== verification/Dao_Dsn.thy ===== *)
theory Dao_Dsn
  imports Go_Regexp
begin

text \<open>
  The data-source-name helpers of \<open>src/dao/mysql.go\<close>: \<open>getDBName\<close>, the stripping of
  the \<open>/dbname\<close> path done inline in \<open>NewUserRegistryMySQL\<close> (\<open>strip_db_path\<close>) and
  \<open>getConnStr\<close>, each over the model of Go's \<open>regexp\<close> package.
\<close>

section \<open>getDBName\<close>

text \<open>\<^verbatim>\<open>(?:\/([^\/?]+))|(?:dbname=([^\s]+))\<close>\<close>

definition dbNameRegex :: rx where
  "dbNameRegex =
     Alt (Cat (Lit ''/'') (Grp 1 (Plus (NoneOf ''/?''))))
         (Cat (Lit ''dbname='') (Grp 2 (Plus NotSpace)))"

definition getDBName :: "string \<Rightarrow> string" where
  "getDBName datasource =
     (let ds = go_to_lower datasource;
          getName = FindStringSubmatch dbNameRegex ds
      in if getName \<noteq> [] then (if getName ! 1 = [] then getName ! 2 else getName ! 1) else [])"

section \<open>The connection string without the database\<close>

text \<open>\<^verbatim>\<open>\/([0-9,a-z,A-Z$_$-]+)\<close>, replaced everywhere by \<open>/\<close>.\<close>

definition db_path_chars :: "char list" where
  "db_path_chars = ''0123456789,abcdefghijklmnopqrstuvwxyz,ABCDEFGHIJKLMNOPQRSTUVWXYZ$_$-''"

definition dbPathRegex :: rx where
  "dbPathRegex = Cat (Lit ''/'') (Grp 1 (Plus (OneOf db_path_chars)))"

definition strip_db_path :: "string \<Rightarrow> string" where
  "strip_db_path datasource = ReplaceAllString dbPathRegex datasource ''/''"

text \<open>
  \<open>getConnStr\<close> (not called by the code): every \<open>dbname=...\<close> replaced by
  \<open>dbname=\<close> and the given name. The model is exact for names without \<open>$\<close>, which
  \<open>ReplaceAllString\<close> would expand as a group reference.
\<close>

definition dbnameKeyRegex :: rx where
  "dbnameKeyRegex = Cat (Grp 1 (Lit ''dbname='')) (Grp 2 (Plus NotSpace))"

definition getConnStr :: "string \<Rightarrow> string \<Rightarrow> string" where
  "getConnStr datasource dbname = ReplaceAllString dbnameKeyRegex datasource (''dbname='' @ dbname)"

section \<open>Lemmas\<close>

lemma dbName_lang_cases:
  "w \<in> lang dbNameRegex \<Longrightarrow> (\<exists>x. w = CHR ''/'' # x) \<or> (\<exists>y. w = ''dbname='' @ y)"
  by (auto simp: dbNameRegex_def conc_def)

lemma dbName_no_match_before:
  assumes "CHR ''/'' \<notin> set xs" "find_sub ''dbname='' xs = None" "k < length xs"
  shows "mt dbNameRegex i (drop k xs @ CHR ''/'' # R) m = []"
proof (rule mt_Nil_if_no_prefix)
  fix w ds'
  assume eq: "drop k xs @ CHR ''/'' # R = w @ ds'" and w: "w \<in> lang dbNameRegex"
  have ne: "drop k xs \<noteq> []" using assms(3) by simp
  have split: "xs = take k xs @ drop k xs" by simp
  from dbName_lang_cases [OF w] show False
  proof (elim disjE exE)
    fix x
    assume "w = CHR ''/'' # x"
    with eq ne have "hd (drop k xs) = CHR ''/''" by (cases "drop k xs") auto
    with ne have "CHR ''/'' \<in> set (drop k xs)" by (metis hd_in_set)
    with assms(1) show False by (meson in_set_dropD)
  next
    fix y
    assume "w = ''dbname='' @ y"
    with eq have "drop k xs @ CHR ''/'' # R = ''dbname='' @ (y @ ds')" by simp
    then obtain us where
      "drop k xs = ''dbname='' @ us \<or> (drop k xs @ us = ''dbname='' \<and> CHR ''/'' # R = us @ y @ ds')"
      using append_eq_append_conv2 [of "drop k xs" "CHR ''/'' # R" "''dbname=''" "y @ ds'"] by blast
    then show False
    proof (elim disjE conjE)
      assume "drop k xs = ''dbname='' @ us"
      with split have "xs = take k xs @ ''dbname='' @ us" by simp
      with assms(2) show False using find_sub_None_append by blast
    next
      assume a: "drop k xs @ us = ''dbname=''" and b: "CHR ''/'' # R = us @ y @ ds'"
      show False
      proof (cases us)
        case Nil
        with a split have "xs = take k xs @ ''dbname='' @ []" by simp
        with assms(2) show False using find_sub_None_append by blast
      next
        case (Cons u us')
        with b have "u = CHR ''/''" by simp
        moreover from a Cons have "u \<in> set ''dbname=''" by (metis in_set_conv_decomp)
        ultimately show False by simp
      qed
    qed
  qed
qed

lemma mt_dbName_path:
  assumes "nm \<noteq> []" "\<forall>x \<in> set nm. x \<notin> set ''/?''" "rs = [] \<or> hd rs \<in> set ''/?''"
  shows "\<exists>zs. mt dbNameRegex i (CHR ''/'' # nm @ rs) Map.empty =
           (Suc i + length nm, rs, [1 \<mapsto> (Suc i, Suc i + length nm)]) # zs"
proof -
  have rl: "run_len (NoneOf ''/?'') (nm @ rs) = length nm"
    using run_len_exact [of nm "NoneOf ''/?''" rs] assms(2,3) by auto
  with assms(1) obtain ys where
    "mt (Grp 1 (Plus (NoneOf ''/?''))) (Suc i) (nm @ rs) Map.empty =
       (Suc i + length nm, rs, [1 \<mapsto> (Suc i, Suc i + length nm)]) # ys"
    using mt_Grp_Plus_first [of "NoneOf ''/?''" "nm @ rs" 1 "Suc i" Map.empty]
    by (cases nm) auto
  then show ?thesis by (simp add: dbNameRegex_def)
qed

lemma dbName_no_key_before:
  assumes "CHR ''/'' \<notin> set xs" "find_sub ''dbname='' (xs @ ''dbname='') = Some (length xs)"
    and "k < length xs"
  shows "mt dbNameRegex i (drop k (xs @ ''dbname='' @ R)) m = []"
proof (rule mt_Nil_if_no_prefix)
  fix w ds'
  assume eq: "drop k (xs @ ''dbname='' @ R) = w @ ds'" and w: "w \<in> lang dbNameRegex"
  have d: "drop k (xs @ ''dbname='' @ R) = drop k xs @ ''dbname='' @ R" using assms(3) by simp
  have ne: "drop k xs \<noteq> []" using assms(3) by simp
  from dbName_lang_cases [OF w] show False
  proof (elim disjE exE)
    fix x
    assume "w = CHR ''/'' # x"
    with eq d ne have "hd (drop k xs) = CHR ''/''" by (cases "drop k xs") auto
    with ne have "CHR ''/'' \<in> set (drop k xs)" by (metis hd_in_set)
    with assms(1) show False by (meson in_set_dropD)
  next
    fix y
    assume wy: "w = ''dbname='' @ y"
    have "drop k xs @ ''dbname='' @ R = w @ ds'" using eq d by (metis)
    moreover have "take 7 (w @ ds') = ''dbname=''" using wy by simp
    ultimately have "take 7 ((drop k xs @ ''dbname='') @ R) = ''dbname=''" by (metis append_assoc)
    moreover have "length (drop k xs @ ''dbname='') \<ge> 7" by simp
    ultimately have "take 7 (drop k xs @ ''dbname='') = ''dbname=''" by (metis take_append_le)
    moreover have "drop k (xs @ ''dbname='') = drop k xs @ ''dbname=''" using assms(3) by simp
    moreover have "length ''dbname='' = (7::nat)" by simp
    ultimately have "take (length ''dbname='') (drop k (xs @ ''dbname='')) = ''dbname=''"
      by (simp only:)
    with find_sub_first [OF assms(2) assms(3)] show False by simp
  qed
qed

lemma mt_dbName_key:
  assumes "v \<noteq> []" "\<forall>x \<in> set v. x \<notin> set go_space" "rs = [] \<or> hd rs \<in> set go_space"
  shows "\<exists>zs. mt dbNameRegex i (''dbname='' @ v @ rs) Map.empty =
           (i + 7 + length v, rs, [2 \<mapsto> (i + 7, i + 7 + length v)]) # zs"
proof -
  have rl: "run_len NotSpace (v @ rs) = length v"
    using run_len_exact [of v NotSpace rs] assms(2,3) by auto
  have h1: "1 \<le> run_len NotSpace (v @ rs)" using rl assms(1) by (cases v) simp_all
  have dl: "drop (length v) (v @ rs) = rs" by simp
  from mt_Grp_Plus_first [of NotSpace "v @ rs" 2 "i + 7" Map.empty, OF h1, unfolded rl dl]
  obtain ys where ys:
    "mt (Grp 2 (Plus NotSpace)) (i + 7) (v @ rs) Map.empty =
       (i + 7 + length v, rs, [2 \<mapsto> (i + 7, i + 7 + length v)]) # ys" by blast
  have a1: "mt (Cat (Lit ''/'') (Grp 1 (Plus (NoneOf ''/?'')))) i (''dbname='' @ v @ rs) Map.empty = []"
    by simp
  have l7: "length ''dbname='' = (7::nat)" by simp
  have a2: "mt (Cat (Lit ''dbname='') (Grp 2 (Plus NotSpace))) i (''dbname='' @ v @ rs) Map.empty =
      mt (Grp 2 (Plus NotSpace)) (i + 7) (v @ rs) Map.empty"
    by (simp only: mt_Cat_Lit l7)
  show ?thesis unfolding dbNameRegex_def mt_Alt a1 a2 ys by simp
qed

lemma dbPath_lang: "w \<in> lang dbPathRegex \<Longrightarrow> \<exists>x. w = CHR ''/'' # x"
  by (auto simp: dbPathRegex_def conc_def)

section \<open>Properties\<close>

text \<open>
  C9: \<open>getDBName\<close> on an ASCII path-style DSN returns the first path segment after the first
  \<open>/\<close>, up to the next \<open>/\<close> or \<open>?\<close>, lower-cased: the code lower-cases the whole DSN
  before matching, so the name it creates differs from the one the DSN connects to when it has
  capitals.
\<close>

theorem getDBName_path:
  assumes "go_is_ascii (pre @ CHR ''/'' # name @ rest)"
    and "CHR ''/'' \<notin> set pre" "find_sub ''dbname='' (go_to_lower pre) = None"
    and "name \<noteq> []" "CHR ''/'' \<notin> set name" "CHR ''?'' \<notin> set name"
    and "rest = [] \<or> hd rest = CHR ''/'' \<or> hd rest = CHR ''?''"
  shows "getDBName (pre @ CHR ''/'' # name @ rest) = go_to_lower name"
proof -
  let ?lp = "map go_lower_char pre" and ?ln = "map go_lower_char name" and ?lr = "map go_lower_char rest"
  have low: "go_to_lower (pre @ CHR ''/'' # name @ rest) = ?lp @ CHR ''/'' # ?ln @ ?lr"
    using assms(1) by (simp add: go_to_lower_ascii)
  have lown: "go_to_lower name = ?ln" using assms(1) by (simp add: go_to_lower_ascii)
  have fs: "find_sub ''dbname='' ?lp = None" using assms(1,3) by (simp add: go_to_lower_ascii)
  have sl: "CHR ''/'' \<notin> set ?lp"
    using assms(2) in_set_lower_punct [of "CHR ''/''" pre] by simp
  have "CHR ''/'' \<notin> set ?ln" "CHR ''?'' \<notin> set ?ln"
    using assms(5,6) in_set_lower_punct [of "CHR ''/''" name]
      in_set_lower_punct [of "CHR ''?''" name] by simp_all
  then have nm: "\<forall>x \<in> set ?ln. x \<notin> set ''/?''" by force
  have rs: "?lr = [] \<or> hd ?lr \<in> set ''/?''"
    using assms(7) by (cases rest) auto
  have ne: "?ln \<noteq> []" using assms(4) by simp
  obtain zs where first: "mt dbNameRegex (length ?lp) (CHR ''/'' # ?ln @ ?lr) Map.empty =
      (Suc (length ?lp) + length ?ln, ?lr, [1 \<mapsto> (Suc (length ?lp), Suc (length ?lp) + length ?ln)]) # zs"
    using mt_dbName_path [OF ne nm rs] by blast
  have "search dbNameRegex 0 (?lp @ CHR ''/'' # ?ln @ ?lr) =
      Some (length ?lp, Suc (length ?lp) + length ?ln,
            [1 \<mapsto> (Suc (length ?lp), Suc (length ?lp) + length ?ln)])"
    by (rule search_skip_first [OF _ first]) (use dbName_no_match_before [OF sl fs] in simp)
  then show ?thesis using ne
    by (simp add: getDBName_def low lown FindStringSubmatch_def submatch_def substr_def
        dbNameRegex_def Let_def)
qed

theorem getDBName_path_witness: "getDBName ''root:secret@tcp(127.0.0.1:3306)/MyDB'' = ''mydb''"
proof -
  have asc: "go_is_ascii (''root:secret@tcp(127.0.0.1:3306)'' @ CHR ''/'' # ''MyDB'' @ [])" by code_simp
  have fs: "find_sub ''dbname='' (go_to_lower ''root:secret@tcp(127.0.0.1:3306)'') = None" by code_simp
  have "go_to_lower ''MyDB'' = ''mydb''" by code_simp
  then show ?thesis
    using getDBName_path [OF asc _ fs] by simp
qed

text \<open>
  C35: On an ASCII key-style DSN whose first \<open>dbname=\<close> comes before any \<open>/\<close>,
  \<open>getDBName\<close> returns the value of that key up to the next white space, lower-cased.
\<close>

theorem getDBName_key:
  assumes "go_is_ascii (pre @ ''dbname='' @ v @ rest)"
    and "CHR ''/'' \<notin> set pre" "find_sub ''dbname='' (go_to_lower pre @ ''dbname='') = Some (length pre)"
    and "v \<noteq> []" "\<forall>x \<in> set v. x \<notin> set go_space" "rest = [] \<or> hd rest \<in> set go_space"
  shows "getDBName (pre @ ''dbname='' @ v @ rest) = go_to_lower v"
proof -
  let ?lp = "map go_lower_char pre" and ?lv = "map go_lower_char v" and ?lr = "map go_lower_char rest"
  have lowd: "map go_lower_char ''dbname='' = ''dbname=''" by code_simp
  have low: "go_to_lower (pre @ ''dbname='' @ v @ rest) = ?lp @ ''dbname='' @ ?lv @ ?lr"
    using assms(1) lowd by (simp add: go_to_lower_ascii)
  have lowv: "go_to_lower v = ?lv" using assms(1) by (simp add: go_to_lower_ascii)
  have fs: "find_sub ''dbname='' (?lp @ ''dbname='') = Some (length ?lp)"
    using assms(1,3) by (simp add: go_to_lower_ascii)
  have sl: "CHR ''/'' \<notin> set ?lp"
    using assms(2) in_set_lower_punct [of "CHR ''/''" pre] by simp
  have sp: "\<forall>x \<in> set ?lv. x \<notin> set go_space"
    using assms(5) in_set_lower_punct [of _ v] by (force simp: go_space_def)
  have rs: "?lr = [] \<or> hd ?lr \<in> set go_space"
  proof (cases rest)
    case Nil
    then show ?thesis by simp
  next
    case (Cons r rs')
    with assms(6) have "r \<in> set go_space" by simp
    then have "go_lower_char r = r" by (auto simp: go_space_def go_lower_char_def)
    with Cons \<open>r \<in> set go_space\<close> show ?thesis by simp
  qed
  have ne: "?lv \<noteq> []" using assms(4) by simp
  obtain zs where first: "mt dbNameRegex (length ?lp) (''dbname='' @ ?lv @ ?lr) Map.empty =
      (length ?lp + 7 + length ?lv, ?lr, [2 \<mapsto> (length ?lp + 7, length ?lp + 7 + length ?lv)]) # zs"
    using mt_dbName_key [OF ne sp rs] by blast
  have "search dbNameRegex 0 (?lp @ CHR ''d'' # ''bname='' @ ?lv @ ?lr) =
      Some (length ?lp, length ?lp + 7 + length ?lv, [2 \<mapsto> (length ?lp + 7, length ?lp + 7 + length ?lv)])"
    by (rule search_skip_first) (use dbName_no_key_before [OF sl fs] first in simp_all)
  then show ?thesis using ne unfolding getDBName_def Let_def low lowv
    by (simp add: FindStringSubmatch_def submatch_def substr_def
        dbNameRegex_def Let_def)
qed

theorem getDBName_key_witness: "getDBName ''host=h user=u dbname=Shop sslmode=off'' = ''shop''"
proof -
  have asc: "go_is_ascii (''host=h user=u '' @ ''dbname='' @ ''Shop'' @ '' sslmode=off'')" by code_simp
  have fs: "find_sub ''dbname='' (go_to_lower ''host=h user=u '' @ ''dbname='') = Some (length ''host=h user=u '')"
    by code_simp
  have "go_to_lower ''Shop'' = ''shop''" by code_simp
  then show ?thesis
    using getDBName_key [OF asc _ fs] by (simp add: go_space_def)
qed

text \<open>
  C10: On a DSN with one \<open>/name\<close> segment (name of letters, digits, \<open>,\<close>, \<open>$\<close>,
  \<open>_\<close>, \<open>-\<close>) and no other \<open>/\<close>, the inline stripping of \<open>NewUserRegistryMySQL\<close>
  removes the name and keeps the \<open>/\<close> and everything else.
\<close>

theorem strip_db_path_single:
  assumes "CHR ''/'' \<notin> set pre" "name \<noteq> []" "set name \<subseteq> set db_path_chars"
    and "CHR ''/'' \<notin> set rest" "rest = [] \<or> hd rest \<notin> set db_path_chars"
  shows "strip_db_path (pre @ CHR ''/'' # name @ rest) = pre @ CHR ''/'' # rest"
proof -
  let ?s = "pre @ CHR ''/'' # name @ rest" and ?b = "Suc (length pre) + length name"
  have rl: "run_len (OneOf db_path_chars) (name @ rest) = length name"
    using run_len_exact [of name "OneOf db_path_chars" rest] assms(3,5) by auto
  with assms(2) obtain zs where first: "mt dbPathRegex (length pre) (CHR ''/'' # name @ rest) Map.empty =
      (?b, rest, [1 \<mapsto> (Suc (length pre), ?b)]) # zs"
    using mt_Grp_Plus_first [of "OneOf db_path_chars" "name @ rest" 1 "Suc (length pre)" Map.empty]
    by (cases name) (auto simp: dbPathRegex_def)
  have s1: "search dbPathRegex 0 ?s = Some (length pre, ?b, [1 \<mapsto> (Suc (length pre), ?b)])"
    by (rule search_skip_first [OF _ first]) (rule mt_Nil_lead_drop [OF dbPath_lang assms(1)])
  have s2: "search dbPathRegex ?b (drop ?b ?s) = None"
    using search_None_lead [OF dbPath_lang] assms(4) by simp
  have "replace_loop dbPathRegex ?s ''/'' ?b ?b = rest"
    using replace_loop_None [OF _ s2] by simp
  then show ?thesis
    using replace_loop_Some [of 0 ?s dbPathRegex "length pre" ?b "[1 \<mapsto> (Suc (length pre), ?b)]"
        "''/''" 0] s1
    by (simp add: strip_db_path_def ReplaceAllString_def substr_def)
qed

theorem strip_db_path_single_witness:
  "strip_db_path ''root:Zsba@mysql2018*@tcp(127.0.0.1:3306)/switch?charset=utf8&parseTime=true'' =
   ''root:Zsba@mysql2018*@tcp(127.0.0.1:3306)/?charset=utf8&parseTime=true''"
  using strip_db_path_single [of "''root:Zsba@mysql2018*@tcp(127.0.0.1:3306)''" "''switch''"
      "''?charset=utf8&parseTime=true''"]
  by (simp add: db_path_chars_def)

end
