(* ===== verification/Dao_Bootstrap.thy ===== *)
theory Dao_Bootstrap
  imports Dao_Config Dao_Tls Dao_Dsn
begin

text \<open>
  The connection bootstrapper \<open>NewUserRegistryMySQL\<close> of \<open>src/dao/mysql.go\<close> with
  \<open>createMySQLDatabase\<close> and \<open>createMySQLTables\<close> of \<open>src/dao/dao.go\<close>. The MySQL
  driver and server are an environment (\<open>db_env\<close>) that answers each call; what the code
  does to them is the list of events it returns, so that the order of the calls, the retry
  loop's pings and sleeps and the connections left open can be stated.
\<close>

section \<open>Environment, events, handle\<close>

text \<open>
  \<open>open_ok dsn\<close>: \<open>sqlx.Open("mysql", dsn)\<close> succeeds (the driver parses the DSN);
  \<open>ping_ok n\<close>: the \<open>n\<close>-th \<open>Ping\<close>, counted from 0, succeeds; \<open>exec_ok stmt\<close>:
  \<open>Exec(stmt)\<close> succeeds.
\<close>

record db_env =
  open_ok :: "string \<Rightarrow> bool"
  ping_ok :: "nat \<Rightarrow> bool"
  exec_ok :: "string \<Rightarrow> bool"

text \<open>Connections are numbered in the order the bootstrapper opens them.\<close>

datatype db_event =
    RegisterTLS string
  | OpenConn nat string
  | Ping nat
  | Sleep nat
  | Exec nat string
  | CloseConn nat
  | SetMaxIdle nat int
  | SetMaxOpen nat int

record SqlxDB =
  DB :: "nat option"
  IsDBInitialized :: bool
  DatabaseType :: string

section \<open>The retry loop\<close>

text \<open>
  \<^verbatim>\<open>count := 0; for { err = db.Ping(); if err != nil { if count > 10 { return ... };
  count++; time.Sleep(time.Second * time.Duration(count)) } else { break } }\<close>.
  The \<open>count\<close>-th ping is made with \<open>count\<close> failures behind it; the result says whether
  the loop broke out on a successful ping.
\<close>

function ping_loop :: "(nat \<Rightarrow> bool) \<Rightarrow> nat \<Rightarrow> db_event list \<times> bool" where
  "ping_loop ping count =
     (if ping count then ([Ping count], True)
      else if 10 < count then ([Ping count], False)
      else (let (evs, ok) = ping_loop ping (Suc count)
            in (Ping count # Sleep (Suc count) # evs, ok)))"
  by pat_completeness auto
termination
  by (relation "measure (\<lambda>(ping, count). 11 - count)") auto

declare ping_loop.simps [simp del]

section \<open>Observations of an event list\<close>

text \<open>The pings made and the seconds slept, in order.\<close>

fun ping_count :: "db_event list \<Rightarrow> nat" where
  "ping_count [] = 0"
| "ping_count (Ping n # es) = Suc (ping_count es)"
| "ping_count (_ # es) = ping_count es"

fun sleeps :: "db_event list \<Rightarrow> nat list" where
  "sleeps [] = []"
| "sleeps (Sleep n # es) = n # sleeps es"
| "sleeps (_ # es) = sleeps es"

fun is_exec :: "db_event \<Rightarrow> bool" where
  "is_exec (Exec c stmt) = True"
| "is_exec _ = False"

text \<open>The events of the loop from ping \<open>a\<close> up to and including ping \<open>b\<close>.\<close>

definition retry_trace :: "nat \<Rightarrow> nat \<Rightarrow> db_event list" where
  "retry_trace a b = concat (map (\<lambda>k. [Ping k, Sleep (Suc k)]) [a..<b]) @ [Ping b]"

section \<open>The bootstrapper\<close>

definition create_stmt :: "string \<Rightarrow> string" where
  "create_stmt dbName = ''CREATE DATABASE IF NOT EXISTS '' @ dbName"

definition createMySQLDatabase :: "db_env \<Rightarrow> string \<Rightarrow> db_event list \<times> dao_error option" where
  "createMySQLDatabase env dbName =
     (let stmt = create_stmt dbName
      in ([Exec 0 stmt], if exec_ok env stmt then None else Some CreateDatabaseFailed))"

text \<open>Every statement of \<open>createMySQLTables\<close> is commented out: it returns nil.\<close>

definition createMySQLTables :: "string \<Rightarrow> dao_error option" where
  "createMySQLTables dbName = None"

text \<open>Lines 22-28: with TLS enabled, build the client configuration and register it as the
  profile \<open>"custom"\<close>.\<close>

definition setup_tls ::
  "crypto_lib \<Rightarrow> os_state \<Rightarrow> int \<Rightarrow> DataBaseConfig \<Rightarrow> dao_error + db_event list" where
  "setup_tls lib os now dbConfig =
     (if Enabled (TLS dbConfig) then
        (case GetClientTLSConfig lib os now (CaCert (TLS dbConfig)) (KeyFile (TLS dbConfig))
                (CertFile (TLS dbConfig)) of
           Inl e \<Rightarrow> Inl (wrap_err TLSFailed e)
         | Inr _ \<Rightarrow> Inr [RegisterTLS ''custom''])
      else Inr [])"

text \<open>
  Lines 48-74, after a successful ping on the bootstrap connection (number 0): create the
  database, close the bootstrap connection (its result is ignored), reopen with the DSN as
  configured (connection number 1), set the pool limits, create the tables.
\<close>

definition provision ::
  "db_env \<Rightarrow> string \<Rightarrow> string \<Rightarrow> DataBaseConfig \<Rightarrow> db_event list \<times> (dao_error + SqlxDB)" where
  "provision env dbName datasource dbConfig =
     (let (cevs, cerr) = createMySQLDatabase env dbName
      in case cerr of
           Some e \<Rightarrow> (cevs, Inl e)
         | None \<Rightarrow>
             (if \<not> open_ok env datasource then (cevs @ [CloseConn 0], Inl (ReopenFailed dbName))
              else
                (let evs = cevs @ [CloseConn 0, OpenConn 1 datasource,
                                   SetMaxIdle 1 (MaxIdle dbConfig), SetMaxOpen 1 (MaxOpen dbConfig)]
                 in case createMySQLTables dbName of
                      Some e \<Rightarrow> (evs, Inl CreateTablesFailed)
                    | None \<Rightarrow> (evs, Inr \<lparr>DB = Some 1, IsDBInitialized = True, DatabaseType = []\<rparr>))))"

text \<open>
  The whole function: the database name and the DSN without it, the TLS profile, the
  bootstrap connection (number 0) with its retry loop, then provisioning.
\<close>

definition NewUserRegistryMySQL ::
  "db_env \<Rightarrow> crypto_lib \<Rightarrow> os_state \<Rightarrow> int \<Rightarrow> string \<Rightarrow> DataBaseConfig
   \<Rightarrow> db_event list \<times> (dao_error + SqlxDB)" where
  "NewUserRegistryMySQL env lib os now datasource dbConfig =
     (let dbName = getDBName datasource;
          connStr = strip_db_path datasource
      in case setup_tls lib os now dbConfig of
           Inl e \<Rightarrow> ([], Inl e)
         | Inr ev0 \<Rightarrow>
             if \<not> open_ok env connStr then (ev0, Inl (OpenFailed connStr))
             else
               (let (pevs, ok) = ping_loop (ping_ok env) 0;
                    ev1 = ev0 @ OpenConn 0 connStr # pevs
                in if \<not> ok then (ev1, Inl ConnectFailed)
                   else (let (evs2, r) = provision env dbName datasource dbConfig
                         in (ev1 @ evs2, r))))"

text \<open>A server for examples: every open and statement succeeds, the third ping answers.\<close>

definition demo_env :: db_env where
  "demo_env = \<lparr>open_ok = \<lambda>_. True, ping_ok = \<lambda>n. n = 2, exec_ok = \<lambda>_. True\<rparr>"

section \<open>The retry loop: lemmas\<close>

lemma ping_count_append [simp]: "ping_count (xs @ ys) = ping_count xs + ping_count ys"
  by (induction xs rule: ping_count.induct) auto

lemma sleeps_append [simp]: "sleeps (xs @ ys) = sleeps xs @ sleeps ys"
  by (induction xs rule: sleeps.induct) auto

lemma retry_trace_same: "retry_trace a a = [Ping a]"
  by (simp add: retry_trace_def)

lemma retry_trace_step: "a < b \<Longrightarrow> retry_trace a b = Ping a # Sleep (Suc a) # retry_trace (Suc a) b"
  by (simp add: retry_trace_def upt_conv_Cons)

lemma retry_trace_counts:
  "a \<le> b \<Longrightarrow> ping_count (retry_trace a b) = Suc (b - a) \<and> sleeps (retry_trace a b) = [Suc a..<Suc b]"
proof (induction "b - a" arbitrary: a)
  case 0
  then show ?case by (simp add: retry_trace_same)
next
  case (Suc d)
  then have "a < b" by simp
  with Suc.hyps(1) [of "Suc a"] Suc.hyps(2) show ?case
    by (simp add: retry_trace_step Suc_diff_Suc upt_conv_Cons)
qed

lemma ping_loop_unfold:
  "ping_loop ping count =
     (if ping count then ([Ping count], True)
      else if 10 < count then ([Ping count], False)
      else (Ping count # Sleep (Suc count) # fst (ping_loop ping (Suc count)),
            snd (ping_loop ping (Suc count))))"
  by (simp add: ping_loop.simps [of ping count] split: prod.splits)

text \<open>The loop stops at the first successful ping, or after ping 11.\<close>

lemma ping_loop_first_success:
  "count \<le> k \<Longrightarrow> k \<le> 11 \<Longrightarrow> ping k \<Longrightarrow> (\<forall>n. count \<le> n \<and> n < k \<longrightarrow> \<not> ping n) \<Longrightarrow>
   ping_loop ping count = (retry_trace count k, True)"
proof (induction ping count rule: ping_loop.induct)
  case (1 ping count)
  show ?case
  proof (cases "count = k")
    case True
    with "1.prems" show ?thesis by (simp add: ping_loop_unfold [of ping k] retry_trace_same)
  next
    case False
    with "1.prems" have lt: "count < k" and np: "\<not> ping count" and le: "\<not> 10 < count"
      by auto
    from "1.prems" lt have "ping_loop ping (Suc count) = (retry_trace (Suc count) k, True)"
      by (intro "1.IH" [OF np le]) auto
    with lt np le show ?thesis
      by (simp add: ping_loop_unfold [of ping count] retry_trace_step)
  qed
qed

lemma ping_loop_all_fail:
  "count \<le> 11 \<Longrightarrow> (\<forall>n. count \<le> n \<and> n \<le> 11 \<longrightarrow> \<not> ping n) \<Longrightarrow>
   ping_loop ping count = (retry_trace count 11, False)"
proof (induction ping count rule: ping_loop.induct)
  case (1 ping count)
  from "1.prems" have np: "\<not> ping count" by simp
  show ?case
  proof (cases "count = 11")
    case True
    with np show ?thesis by (simp add: ping_loop_unfold [of ping 11] retry_trace_same)
  next
    case False
    with "1.prems" have lt: "count < 11" and le: "\<not> 10 < count" by auto
    from "1.prems" lt have "ping_loop ping (Suc count) = (retry_trace (Suc count) 11, False)"
      by (intro "1.IH" [OF np le]) auto
    with lt np le show ?thesis
      by (simp add: ping_loop_unfold [of ping count] retry_trace_step)
  qed
qed

lemma ping_loop_bounds:
  "count \<le> 11 \<Longrightarrow>
   ping_count (fst (ping_loop ping count)) \<le> 12 - count \<and>
   sorted_wrt (<) (sleeps (fst (ping_loop ping count))) \<and>
   set (sleeps (fst (ping_loop ping count))) \<subseteq> {Suc count..11} \<and>
   (snd (ping_loop ping count) \<longleftrightarrow> (\<exists>n. count \<le> n \<and> n \<le> 11 \<and> ping n))"
proof (induction ping count rule: ping_loop.induct)
  case (1 ping count)
  show ?case
  proof (cases "ping count")
    case True
    with "1.prems" show ?thesis by (auto simp: ping_loop_unfold [of ping count])
  next
    case np: False
    show ?thesis
    proof (cases "count = 11")
      case True
      with np show ?thesis by (auto simp: ping_loop_unfold [of ping 11])
    next
      case False
      with "1.prems" have le: "\<not> 10 < count" and lt: "Suc count \<le> 11" by auto
      note IH = "1.IH" [OF np le lt]
      have ex: "(\<exists>n. Suc count \<le> n \<and> n \<le> 11 \<and> ping n) \<longleftrightarrow> (\<exists>n. count \<le> n \<and> n \<le> 11 \<and> ping n)"
      proof
        assume "\<exists>n. Suc count \<le> n \<and> n \<le> 11 \<and> ping n"
        then show "\<exists>n. count \<le> n \<and> n \<le> 11 \<and> ping n" by (blast dest: Suc_leD)
      next
        assume "\<exists>n. count \<le> n \<and> n \<le> 11 \<and> ping n"
        then obtain n where n: "count \<le> n" "n \<le> 11" "ping n" by blast
        with np have "Suc count \<le> n" by (cases "n = count") auto
        with n show "\<exists>n. Suc count \<le> n \<and> n \<le> 11 \<and> ping n" by blast
      qed
      have L: "ping_loop ping count =
          (Ping count # Sleep (Suc count) # fst (ping_loop ping (Suc count)),
           snd (ping_loop ping (Suc count)))"
        using np le by (simp add: ping_loop_unfold [of ping count])
      from IH have "ping_count (fst (ping_loop ping (Suc count))) \<le> 11 - count"
        by simp
      with L lt have c1: "ping_count (fst (ping_loop ping count)) \<le> 12 - count"
        by simp
      have c2: "sorted_wrt (<) (sleeps (fst (ping_loop ping count)))"
        using IH L by (fastforce simp: subset_iff)
      have c3: "set (sleeps (fst (ping_loop ping count))) \<subseteq> {Suc count..11}"
        using IH L lt by auto
      have c4: "snd (ping_loop ping count) \<longleftrightarrow> (\<exists>n. count \<le> n \<and> n \<le> 11 \<and> ping n)"
        using IH L ex by simp
      from c1 c2 c3 c4 show ?thesis by blast
    qed
  qed
qed

section \<open>Properties of the retry loop\<close>

text \<open>
  C5: Against a server that never answers a ping, the retry loop of
  \<open>NewUserRegistryMySQL\<close> pings 12 times and sleeps 1, 2, ..., 11 seconds, 66 seconds in
  all, before it reports failure.
\<close>

theorem retry_exhausted:
  assumes "\<forall>n. \<not> ping n"
  shows "ping_loop ping 0 = (retry_trace 0 11, False) \<and> ping_count (retry_trace 0 11) = 12 \<and>
         sleeps (retry_trace 0 11) = [1..<12] \<and> sum_list (sleeps (retry_trace 0 11)) = 66"
proof -
  from assms have "ping_loop ping 0 = (retry_trace 0 11, False)"
    by (intro ping_loop_all_fail) auto
  moreover have "ping_count (retry_trace 0 11) = 12 \<and> sleeps (retry_trace 0 11) = [1..<12]"
    using retry_trace_counts [of 0 11] by simp
  moreover have "sum_list [1..<12::nat] = 66"
    by code_simp
  ultimately show ?thesis by simp
qed

theorem retry_exhausted_witness:
  "ping_loop (\<lambda>_. False) 0 = (retry_trace 0 11, False) \<and> sum_list (sleeps (retry_trace 0 11)) = 66"
proof -
  have "\<forall>n. \<not> (\<lambda>_. False) (n::nat)" by simp
  from retry_exhausted [OF this] show ?thesis by blast
qed

text \<open>
  C18: When the \<open>k\<close>-th ping (counted from 0, \<open>k \<le> 11\<close>) is the first that succeeds,
  the loop stops there with success, after \<open>k + 1\<close> pings and sleeps of 1, ..., \<open>k\<close>
  seconds.
\<close>

theorem retry_first_success:
  assumes "k \<le> 11" and "ping k" and "\<forall>n<k. \<not> ping n"
  shows "ping_loop ping 0 = (retry_trace 0 k, True) \<and> ping_count (retry_trace 0 k) = Suc k \<and>
         sleeps (retry_trace 0 k) = [1..<Suc k]"
proof -
  from assms have "ping_loop ping 0 = (retry_trace 0 k, True)"
    by (intro ping_loop_first_success) auto
  with retry_trace_counts [of 0 k] show ?thesis by simp
qed

theorem retry_first_success_witness:
  "ping_loop (\<lambda>n. n = 3) 0 = (retry_trace 0 3, True) \<and> sleeps (retry_trace 0 3) = [1, 2, 3]"
  using retry_first_success [of 3 "\<lambda>n. n = 3"] by (simp add: upt_rec)

text \<open>
  C19: Whatever the server does, the loop makes at most 12 pings, its sleeps strictly grow and
  lie between 1 and 11 seconds, and it succeeds exactly when one of pings 0 to 11 succeeds.
\<close>

theorem retry_bounds:
  "ping_count (fst (ping_loop ping 0)) \<le> 12 \<and> sorted_wrt (<) (sleeps (fst (ping_loop ping 0))) \<and>
   set (sleeps (fst (ping_loop ping 0))) \<subseteq> {1..11} \<and>
   (snd (ping_loop ping 0) \<longleftrightarrow> (\<exists>n\<le>11. ping n))"
  using ping_loop_bounds [of 0 ping] by simp

section \<open>The bootstrapper: lemmas\<close>

lemma ping_loop_no_exec: "\<forall>e \<in> set (fst (ping_loop ping count)). \<not> is_exec e"
proof (induction ping count rule: ping_loop.induct)
  case (1 ping count)
  then show ?case by (auto simp: ping_loop_unfold [of ping count])
qed

lemma ping_loop_success_ping:
  "snd (ping_loop ping count) \<Longrightarrow> \<exists>k. Ping k \<in> set (fst (ping_loop ping count)) \<and> ping k"
proof (induction ping count rule: ping_loop.induct)
  case (1 ping count)
  show ?case
  proof (cases "ping count")
    case True
    then show ?thesis by (simp add: ping_loop_unfold [of ping count])
  next
    case False
    with "1.prems" have le: "\<not> 10 < count" by (auto simp: ping_loop_unfold [of ping count] split: if_splits)
    with False "1.prems" have "snd (ping_loop ping (Suc count))"
      by (simp add: ping_loop_unfold [of ping count])
    with "1.IH" [OF False le] False le show ?thesis
      by (auto simp: ping_loop_unfold [of ping count])
  qed
qed

lemma setup_tls_no_exec: "setup_tls lib os now cfg = Inr ev0 \<Longrightarrow> \<forall>e \<in> set ev0. \<not> is_exec e"
  by (auto simp: setup_tls_def split: if_splits sum.splits)

lemma provision_events:
  "\<exists>rest. fst (provision env n ds cfg) = Exec 0 (create_stmt n) # rest \<and> (\<forall>e \<in> set rest. \<not> is_exec e)"
  by (simp add: provision_def createMySQLDatabase_def createMySQLTables_def Let_def)

lemma NewUserRegistryMySQL_connected:
  assumes "setup_tls lib os now cfg = Inr ev0" "open_ok env (strip_db_path ds)"
    and "ping_loop (ping_ok env) 0 = (pevs, True)"
  shows "NewUserRegistryMySQL env lib os now ds cfg =
           (ev0 @ OpenConn 0 (strip_db_path ds) # pevs @ fst (provision env (getDBName ds) ds cfg),
            snd (provision env (getDBName ds) ds cfg))"
  using assms by (simp add: NewUserRegistryMySQL_def split: prod.splits)

lemma NewUserRegistryMySQL_no_exec_unless_connected:
  assumes "NewUserRegistryMySQL env lib os now ds cfg = (evs, r)" "Exec c stmt \<in> set evs"
  obtains ev0 pevs where "setup_tls lib os now cfg = Inr ev0" "open_ok env (strip_db_path ds)"
    "ping_loop (ping_ok env) 0 = (pevs, True)"
proof -
  obtain ev0 where tls: "setup_tls lib os now cfg = Inr ev0"
    using assms by (cases "setup_tls lib os now cfg") (auto simp: NewUserRegistryMySQL_def)
  have op: "open_ok env (strip_db_path ds)"
  proof (rule ccontr)
    assume "\<not> open_ok env (strip_db_path ds)"
    with assms tls have "evs = ev0" by (simp add: NewUserRegistryMySQL_def)
    with assms(2) setup_tls_no_exec [OF tls] show False by force
  qed
  obtain pevs ok where pl: "ping_loop (ping_ok env) 0 = (pevs, ok)" by fastforce
  have "ok"
  proof (rule ccontr)
    assume "\<not> ok"
    with assms tls op pl have "evs = ev0 @ OpenConn 0 (strip_db_path ds) # pevs"
      by (simp add: NewUserRegistryMySQL_def)
    with assms(2) setup_tls_no_exec [OF tls] ping_loop_no_exec [of "ping_ok env" 0] pl
    show False by force
  qed
  with pl have "ping_loop (ping_ok env) 0 = (pevs, True)" by simp
  with tls op show ?thesis by (rule that)
qed

lemma NewUserRegistryMySQL_Inr:
  "snd (NewUserRegistryMySQL env lib os now ds cfg) = Inr h \<Longrightarrow>
   h = \<lparr>DB = Some 1, IsDBInitialized = True, DatabaseType = []\<rparr>"
  by (auto simp: NewUserRegistryMySQL_def provision_def createMySQLDatabase_def
      createMySQLTables_def Let_def split: sum.splits prod.splits if_splits option.splits)

text \<open>The run on the example server with the default configuration.\<close>

lemma demo_bootstrap_cfg:
  assumes "\<not> Enabled (TLS cfg)"
  shows "NewUserRegistryMySQL demo_env lib os now DB_SOURCE cfg =
     (OpenConn 0 (strip_db_path DB_SOURCE) # retry_trace 0 2 @
        [Exec 0 (create_stmt (getDBName DB_SOURCE)), CloseConn 0, OpenConn 1 DB_SOURCE,
         SetMaxIdle 1 (MaxIdle cfg), SetMaxOpen 1 (MaxOpen cfg)],
      Inr \<lparr>DB = Some 1, IsDBInitialized = True, DatabaseType = []\<rparr>)"
proof -
  have "ping_loop (ping_ok demo_env) 0 = (retry_trace 0 2, True)"
    by (rule ping_loop_first_success) (auto simp: demo_env_def)
  moreover have "setup_tls lib os now cfg = Inr []"
    using assms by (simp add: setup_tls_def)
  ultimately show ?thesis
    using NewUserRegistryMySQL_connected [of lib os now cfg "[]" demo_env DB_SOURCE]
    by (simp add: demo_env_def provision_def createMySQLDatabase_def createMySQLTables_def)
qed

lemma demo_bootstrap:
  "NewUserRegistryMySQL demo_env lib os now DB_SOURCE default_config =
     (OpenConn 0 (strip_db_path DB_SOURCE) # retry_trace 0 2 @
        [Exec 0 (create_stmt (getDBName DB_SOURCE)), CloseConn 0, OpenConn 1 DB_SOURCE,
         SetMaxIdle 1 30, SetMaxOpen 1 30],
      Inr \<lparr>DB = Some 1, IsDBInitialized = True, DatabaseType = []\<rparr>)"
  using demo_bootstrap_cfg [of default_config lib os now]
  by (simp add: default_config_def DB_TLS_ENABLED_def DB_MAXIDLE_def DB_MAXOPEN_def)

section \<open>Properties of the bootstrapper\<close>

text \<open>
  C2: With TLS off, both opens accepted, the \<open>k\<close>-th ping the first to succeed and the
  \<open>CREATE DATABASE\<close> accepted, \<open>NewUserRegistryMySQL\<close> opens the bootstrap connection on
  the DSN without its database, retries, creates the database, closes the bootstrap
  connection, opens the configured DSN, sets both pool limits and returns that connection.
\<close>

theorem bootstrap_success:
  assumes "\<not> Enabled (TLS cfg)" "open_ok env (strip_db_path ds)" "open_ok env ds"
    and "k \<le> 11" "ping_ok env k" "\<forall>n<k. \<not> ping_ok env n"
    and "exec_ok env (create_stmt (getDBName ds))"
  shows "NewUserRegistryMySQL env lib os now ds cfg =
           (OpenConn 0 (strip_db_path ds) # retry_trace 0 k @
              [Exec 0 (create_stmt (getDBName ds)), CloseConn 0, OpenConn 1 ds,
               SetMaxIdle 1 (MaxIdle cfg), SetMaxOpen 1 (MaxOpen cfg)],
            Inr \<lparr>DB = Some 1, IsDBInitialized = True, DatabaseType = []\<rparr>)"
proof -
  from assms(4-6) have "ping_loop (ping_ok env) 0 = (retry_trace 0 k, True)"
    by (intro ping_loop_first_success) auto
  moreover from assms(1) have "setup_tls lib os now cfg = Inr []"
    by (simp add: setup_tls_def)
  ultimately show ?thesis
    using assms(2,3,7) NewUserRegistryMySQL_connected [of lib os now cfg "[]" env ds]
    by (simp add: provision_def createMySQLDatabase_def createMySQLTables_def)
qed

theorem bootstrap_success_witness:
  "NewUserRegistryMySQL demo_env demo_lib demo_os 0 DB_SOURCE default_config =
     (OpenConn 0 (strip_db_path DB_SOURCE) # retry_trace 0 2 @
        [Exec 0 (create_stmt (getDBName DB_SOURCE)), CloseConn 0, OpenConn 1 DB_SOURCE,
         SetMaxIdle 1 30, SetMaxOpen 1 30],
      Inr \<lparr>DB = Some 1, IsDBInitialized = True, DatabaseType = []\<rparr>)"
  using bootstrap_success [of default_config demo_env DB_SOURCE 2 demo_lib demo_os 0]
  by (simp add: demo_env_def default_config_def DB_TLS_ENABLED_def DB_MAXIDLE_def DB_MAXOPEN_def)

text \<open>
  C23: Against a server that never answers, \<open>NewUserRegistryMySQL\<close> fails with
  \<open>ConnectFailed\<close> after the 12 pings of the loop, and the bootstrap connection it opened is
  never closed.
\<close>

theorem bootstrap_unreachable_leaks:
  assumes "\<not> Enabled (TLS cfg)" "open_ok env (strip_db_path ds)" "\<forall>n. \<not> ping_ok env n"
  shows "NewUserRegistryMySQL env lib os now ds cfg =
           (OpenConn 0 (strip_db_path ds) # retry_trace 0 11, Inl ConnectFailed) \<and>
         CloseConn 0 \<notin> set (OpenConn 0 (strip_db_path ds) # retry_trace 0 11)"
proof -
  from assms(3) have "ping_loop (ping_ok env) 0 = (retry_trace 0 11, False)"
    by (intro ping_loop_all_fail) auto
  moreover from assms(1) have "setup_tls lib os now cfg = Inr []"
    by (simp add: setup_tls_def)
  ultimately show ?thesis
    using assms(2) by (auto simp: NewUserRegistryMySQL_def retry_trace_def)
qed

theorem bootstrap_unreachable_leaks_witness:
  "NewUserRegistryMySQL \<lparr>open_ok = \<lambda>_. True, ping_ok = \<lambda>_. False, exec_ok = \<lambda>_. True\<rparr>
      demo_lib demo_os 0 DB_SOURCE default_config =
     (OpenConn 0 (strip_db_path DB_SOURCE) # retry_trace 0 11, Inl ConnectFailed)"
  using bootstrap_unreachable_leaks [of default_config "\<lparr>open_ok = \<lambda>_. True,
      ping_ok = \<lambda>_. False, exec_ok = \<lambda>_. True\<rparr>" DB_SOURCE demo_lib demo_os 0]
  by (simp add: default_config_def DB_TLS_ENABLED_def)

text \<open>
  C24: With TLS enabled and the TLS configuration failing, \<open>NewUserRegistryMySQL\<close> stops
  before it opens any connection: with that error wrapped in \<open>TLSFailed\<close>, or, when
  \<open>GetClientTLSConfig\<close> panicked on its nil error, with the panic, which no caller wraps.
\<close>

theorem bootstrap_tls_failure:
  assumes "Enabled (TLS cfg)"
    and "GetClientTLSConfig lib os now (CaCert (TLS cfg)) (KeyFile (TLS cfg)) (CertFile (TLS cfg)) = Inl e"
  shows "NewUserRegistryMySQL env lib os now ds cfg =
           ([], Inl (if e = NilErrorDeref then NilErrorDeref else TLSFailed e))"
  using assms by (simp add: NewUserRegistryMySQL_def setup_tls_def wrap_err_def)

theorem bootstrap_tls_failure_witness:
  "NewUserRegistryMySQL \<lparr>open_ok = \<lambda>_. True, ping_ok = \<lambda>_. True, exec_ok = \<lambda>_. True\<rparr>
     demo_lib demo_os 0 DB_SOURCE (default_config\<lparr>TLS := \<lparr>Enabled = True, CertFile = [], KeyFile = [], CaCert = []\<rparr>\<rparr>) =
   ([], Inl (TLSFailed NoRootCA))"
  using bootstrap_tls_failure [where e = NoRootCA] by (simp add: GetClientTLSConfig_def)

text \<open>
  C3: In every run, the one statement the bootstrapper executes is
  \<open>CREATE DATABASE IF NOT EXISTS\<close> with the name \<open>getDBName\<close> extracts, on the bootstrap
  connection, and only after a ping that succeeded.
\<close>

theorem create_after_ping:
  assumes "NewUserRegistryMySQL env lib os now ds cfg = (evs, r)"
    and "evs = xs @ Exec c stmt # ys"
  shows "(\<exists>k. Ping k \<in> set xs \<and> ping_ok env k) \<and> c = 0 \<and> stmt = create_stmt (getDBName ds)"
proof -
  from assms(2) have "Exec c stmt \<in> set evs" by simp
  with assms(1) obtain ev0 pevs where tls: "setup_tls lib os now cfg = Inr ev0"
    and op: "open_ok env (strip_db_path ds)" and pl: "ping_loop (ping_ok env) 0 = (pevs, True)"
    by (rule NewUserRegistryMySQL_no_exec_unless_connected)
  obtain rest where prov: "fst (provision env (getDBName ds) ds cfg) = Exec 0 (create_stmt (getDBName ds)) # rest"
    and nrest: "\<forall>e \<in> set rest. \<not> is_exec e"
    using provision_events by blast
  let ?A = "ev0 @ OpenConn 0 (strip_db_path ds) # pevs"
  from assms(1) NewUserRegistryMySQL_connected [OF tls op pl] prov
  have "evs = ?A @ Exec 0 (create_stmt (getDBName ds)) # rest" by simp
  with assms(2) have eq: "?A @ Exec 0 (create_stmt (getDBName ds)) # rest = xs @ Exec c stmt # ys"
    by simp
  have nA: "\<forall>a \<in> set ?A. \<not> is_exec a"
    using setup_tls_no_exec [OF tls] ping_loop_no_exec [of "ping_ok env" 0] pl by auto
  from split_unique [OF eq _ _ nA nrest] have "xs = ?A" and "Exec c stmt = Exec 0 (create_stmt (getDBName ds))"
    by simp_all
  moreover from ping_loop_success_ping [of "ping_ok env" 0] pl
  obtain k where "Ping k \<in> set pevs" "ping_ok env k" by auto
  ultimately show ?thesis by auto
qed

theorem create_after_ping_witness:
  "\<exists>k. Ping k \<in> set (OpenConn 0 (strip_db_path DB_SOURCE) # retry_trace 0 2) \<and> ping_ok demo_env k"
  using create_after_ping [OF demo_bootstrap, of "OpenConn 0 (strip_db_path DB_SOURCE) # retry_trace 0 2"
      0 "create_stmt (getDBName DB_SOURCE)" "[CloseConn 0, OpenConn 1 DB_SOURCE, SetMaxIdle 1 30, SetMaxOpen 1 30]"]
  by simp

end
