(* ===== verification/Dao_Handle.thy ===== *)
theory Dao_Handle
  imports Dao_Bootstrap
begin

text \<open>
  The handle operations of \<open>src/dao/dao.go\<close>: \<open>NewDB\<close>, which loads the configuration
  and dispatches on the driver type, \<open>CloseDB\<close> and \<open>GetSqlxIns\<close>; the lifecycle of a
  handle as the set of handles reachable from \<open>NewDB\<close> by these operations, and the state
  machine of the specification it is compared with.
\<close>

section \<open>Operations\<close>

definition DB_TYPE_UNDEFINED :: string where "DB_TYPE_UNDEFINED = ''undefined''"
definition DB_TYPE_MYSQL :: string where "DB_TYPE_MYSQL = ''mysql''"
definition DB_TYPE_POSTGRES :: string where "DB_TYPE_POSTGRES = ''postgres''"

text \<open>The Postgres branch is the source's stub: an initialized handle with no connection.\<close>

definition NewDB ::
  "toml_codec \<Rightarrow> db_env \<Rightarrow> crypto_lib \<Rightarrow> os_state \<Rightarrow> int \<Rightarrow> string
   \<Rightarrow> os_state \<times> db_event list \<times> (dao_error + SqlxDB)" where
  "NewDB codec env lib os now dir =
     (case LoadDBConfig codec os dir of
        (os', Inl e) \<Rightarrow> (os', [], Inl e)
      | (os', Inr dbConfig) \<Rightarrow>
          (let ds = DataSource dbConfig
           in if Type dbConfig = DB_TYPE_MYSQL then
                (case NewUserRegistryMySQL env lib os' now ds dbConfig of
                   (evs, Inl e) \<Rightarrow> (os', evs, Inl (wrap_err MySQLObjectFailed e))
                 | (evs, Inr dbIns) \<Rightarrow>
                     (os', evs, Inr (dbIns\<lparr>DatabaseType := DB_TYPE_MYSQL, IsDBInitialized := True\<rparr>)))
              else if Type dbConfig = DB_TYPE_POSTGRES then
                (os', [], Inr \<lparr>DB = None, IsDBInitialized = True, DatabaseType = DB_TYPE_POSTGRES\<rparr>)
              else (os', [], Inl (InvalidDBType (Type dbConfig)))))"

text \<open>\<open>close_ok\<close>: the pool's \<open>Close()\<close> succeeds.\<close>

definition CloseDB :: "bool \<Rightarrow> SqlxDB \<Rightarrow> SqlxDB \<times> dao_error option" where
  "CloseDB close_ok sdb =
     (if DB sdb \<noteq> None \<and> IsDBInitialized sdb then
        (if close_ok then (sdb\<lparr>DB := None\<rparr>, None) else (sdb, Some CloseFailed))
      else (sdb, Some NotInitialized))"

definition GetSqlxIns :: "SqlxDB \<Rightarrow> dao_error + nat" where
  "GetSqlxIns sdb =
     (case DB sdb of
        Some c \<Rightarrow> if IsDBInitialized sdb then Inr c else Inl NotInitialized
      | None \<Rightarrow> Inl NotInitialized)"

section \<open>Lifecycle\<close>

text \<open>The handles a caller can hold: made by \<open>NewDB\<close>, then closed any number of times.\<close>

inductive handle_reachable :: "SqlxDB \<Rightarrow> bool" where
  created: "snd (snd (NewDB codec env lib os now dir)) = Inr h \<Longrightarrow> handle_reachable h"
| closed: "handle_reachable h \<Longrightarrow> handle_reachable (fst (CloseDB ok h))"

text \<open>The state machine of the specification (section 4.4).\<close>

datatype phase = Uninitialized | Connecting | Ready | Failed | Closed

inductive spec_step :: "phase \<Rightarrow> phase \<Rightarrow> bool" where
  load: "spec_step Uninitialized Connecting"
| connect: "spec_step Connecting Ready"
| fail: "spec_step Connecting Failed"
| close: "spec_step Ready Closed"

definition abs_handle :: "SqlxDB \<Rightarrow> phase" where
  "abs_handle h = (if DB h \<noteq> None then Ready else Closed)"

text \<open>
  What every handle a caller holds satisfies: it is flagged initialised, its type is one of
  the two drivers, and a live connection is the provisioned MySQL pool (number 1).
\<close>

definition handle_inv :: "SqlxDB \<Rightarrow> bool" where
  "handle_inv h \<longleftrightarrow> IsDBInitialized h \<and>
     (DatabaseType h = DB_TYPE_MYSQL \<or> DatabaseType h = DB_TYPE_POSTGRES) \<and>
     (DB h = None \<or> (DB h = Some 1 \<and> DatabaseType h = DB_TYPE_MYSQL))"

text \<open>The phase of the specification a result of \<open>NewDB\<close> stands for.\<close>

fun new_phase :: "dao_error + SqlxDB \<Rightarrow> phase" where
  "new_phase (Inr h) = abs_handle h"
| "new_phase (Inl (MySQLObjectFailed e)) = Failed"
| "new_phase (Inl NilErrorDeref) = Failed"
| "new_phase (Inl e) = Uninitialized"

text \<open>Codecs for examples that decode every file to the defaults with another driver type.\<close>

definition postgres_codec :: toml_codec where
  "postgres_codec = \<lparr>toml_decode = \<lambda>_. Some (default_config\<lparr>Type := ''postgres''\<rparr>),
     toml_encode = \<lambda>_. Some ''defaults''\<rparr>"

definition sqlite_codec :: toml_codec where
  "sqlite_codec = \<lparr>toml_decode = \<lambda>_. Some (default_config\<lparr>Type := ''sqlite''\<rparr>),
     toml_encode = \<lambda>_. Some ''defaults''\<rparr>"

section \<open>Lemmas\<close>

inductive_cases spec_step_ClosedE: "spec_step Closed p"

lemma NewDB_config:
  "LoadDBConfig codec os dir = (os', r) \<Longrightarrow>
   NewDB codec env lib os now dir =
     (case r of Inl e \<Rightarrow> (os', [], Inl e)
      | Inr cfg \<Rightarrow>
          if Type cfg = DB_TYPE_MYSQL then
            (case NewUserRegistryMySQL env lib os' now (DataSource cfg) cfg of
               (evs, Inl e) \<Rightarrow> (os', evs, Inl (wrap_err MySQLObjectFailed e))
             | (evs, Inr dbIns) \<Rightarrow>
                 (os', evs, Inr (dbIns\<lparr>DatabaseType := DB_TYPE_MYSQL, IsDBInitialized := True\<rparr>)))
          else if Type cfg = DB_TYPE_POSTGRES then
            (os', [], Inr \<lparr>DB = None, IsDBInitialized = True, DatabaseType = DB_TYPE_POSTGRES\<rparr>)
          else (os', [], Inl (InvalidDBType (Type cfg))))"
  by (simp add: NewDB_def split: sum.splits)

lemma NewDB_cases:
  assumes "snd (snd (NewDB codec env lib os now dir)) = Inr h"
  shows "h = \<lparr>DB = Some 1, IsDBInitialized = True, DatabaseType = DB_TYPE_MYSQL\<rparr> \<or>
         (h = \<lparr>DB = None, IsDBInitialized = True, DatabaseType = DB_TYPE_POSTGRES\<rparr> \<and>
          (\<exists>cfg. snd (LoadDBConfig codec os dir) = Inr cfg \<and> Type cfg = DB_TYPE_POSTGRES))"
proof -
  obtain os' r where L: "LoadDBConfig codec os dir = (os', r)" by fastforce
  show ?thesis
  proof (cases r)
    case (Inl e)
    with assms L show ?thesis by (simp add: NewDB_config)
  next
    case (Inr cfg)
    show ?thesis
    proof (cases "Type cfg = DB_TYPE_MYSQL")
      case True
      obtain evs res where U: "NewUserRegistryMySQL env lib os' now (DataSource cfg) cfg = (evs, res)"
        by fastforce
      with assms L Inr True show ?thesis
        using NewUserRegistryMySQL_Inr [of env lib os' now "DataSource cfg" cfg]
        by (cases res) (auto simp: NewDB_config)
    next
      case False
      with assms L Inr show ?thesis by (auto simp: NewDB_config split: if_splits)
    qed
  qed
qed

lemma handle_inv_NewDB: "snd (snd (NewDB codec env lib os now dir)) = Inr h \<Longrightarrow> handle_inv h"
  by (drule NewDB_cases) (auto simp: handle_inv_def DB_TYPE_MYSQL_def DB_TYPE_POSTGRES_def)

lemma CloseDB_inv: "handle_inv h \<Longrightarrow> handle_inv (fst (CloseDB ok h))"
  by (simp add: CloseDB_def handle_inv_def)

text \<open>The first run of \<open>NewDB("./")\<close> on the example file system and server.\<close>

lemma demo_NewDB:
  "NewDB demo_codec demo_env demo_lib demo_os 0 ''./'' =
     (demo_os\<lparr>os_files := [''/app/configs/dao.toml'' \<mapsto> ''defaults'']\<rparr>,
      OpenConn 0 (strip_db_path DB_SOURCE) # retry_trace 0 2 @
        [Exec 0 (create_stmt (getDBName DB_SOURCE)), CloseConn 0, OpenConn 1 DB_SOURCE,
         SetMaxIdle 1 30, SetMaxOpen 1 30],
      Inr \<lparr>DB = Some 1, IsDBInitialized = True, DatabaseType = DB_TYPE_MYSQL\<rparr>)"
  using NewDB_config [OF demo_first_load, of demo_env demo_lib 0] demo_bootstrap
  by (simp add: default_config_def DB_TYPE_def DB_TYPE_MYSQL_def)

lemma demo_reachable:
  "handle_reachable \<lparr>DB = Some 1, IsDBInitialized = True, DatabaseType = DB_TYPE_MYSQL\<rparr>"
  by (rule handle_reachable.created [of demo_codec demo_env demo_lib demo_os 0 "''./''"])
    (simp add: demo_NewDB)

lemma spec_reach_Ready: "spec_step\<^sup>*\<^sup>* Uninitialized Ready"
  by (meson converse_rtranclp_into_rtranclp rtranclp.rtrancl_refl spec_step.load spec_step.connect)

lemma spec_reach_Failed: "spec_step\<^sup>*\<^sup>* Uninitialized Failed"
  by (meson converse_rtranclp_into_rtranclp rtranclp.rtrancl_refl spec_step.load spec_step.fail)

lemma new_phase_Inl: "new_phase (Inl e) = Failed \<or> new_phase (Inl e) = Uninitialized"
  by (cases e) simp_all

section \<open>Properties\<close>

text \<open>
  C6: Every handle a caller can hold, made by \<open>NewDB\<close> and closed any number of times,
  is initialised, of type \<open>mysql\<close> or \<open>postgres\<close>, and holds either no connection or
  the provisioned MySQL pool.
\<close>

theorem handle_reachable_inv: "handle_reachable h \<Longrightarrow> handle_inv h"
  by (induction rule: handle_reachable.induct) (auto intro: handle_inv_NewDB CloseDB_inv)

theorem handle_reachable_inv_witness:
  "handle_inv \<lparr>DB = Some 1, IsDBInitialized = True, DatabaseType = DB_TYPE_MYSQL\<rparr>"
  using handle_reachable_inv [OF demo_reachable] .

text \<open>
  C21: \<open>GetSqlxIns\<close> on a reachable handle returns the pool exactly when the handle is in the
  specification's phase \<open>Ready\<close>.
\<close>

theorem GetSqlxIns_reachable:
  assumes "handle_reachable h"
  shows "GetSqlxIns h = Inr c \<longleftrightarrow> abs_handle h = Ready \<and> c = 1"
proof -
  from assms have "handle_inv h"
    by (induction rule: handle_reachable.induct) (auto intro: handle_inv_NewDB CloseDB_inv)
  then show ?thesis
    by (auto simp: handle_inv_def GetSqlxIns_def abs_handle_def split: option.splits)
qed

theorem GetSqlxIns_reachable_witness:
  "GetSqlxIns \<lparr>DB = Some 1, IsDBInitialized = True, DatabaseType = DB_TYPE_MYSQL\<rparr> = Inr 1"
  using GetSqlxIns_reachable [OF demo_reachable, of 1] by (simp add: abs_handle_def)

text \<open>
  C8: \<open>CloseDB\<close> refines the specification's close step: when it succeeds it takes a
  \<open>Ready\<close> handle to \<open>Closed\<close>; when it fails it leaves the handle as it was.
\<close>

theorem CloseDB_refines:
  assumes "CloseDB ok h = (h', r)"
  shows "(r = None \<and> spec_step (abs_handle h) (abs_handle h')) \<or> (r \<noteq> None \<and> h' = h)"
  using assms by (auto simp: CloseDB_def abs_handle_def intro: spec_step.close split: if_splits)

theorem CloseDB_refines_witness:
  "spec_step (abs_handle \<lparr>DB = Some 1, IsDBInitialized = True, DatabaseType = DB_TYPE_MYSQL\<rparr>)
             (abs_handle \<lparr>DB = None, IsDBInitialized = True, DatabaseType = DB_TYPE_MYSQL\<rparr>)"
  using CloseDB_refines [of True "\<lparr>DB = Some 1, IsDBInitialized = True, DatabaseType = DB_TYPE_MYSQL\<rparr>"]
  by (simp add: CloseDB_def)

text \<open>
  C20: \<open>Closed\<close> is terminal: closing a closed handle again fails with the
  not-initialised error and changes nothing, \<open>GetSqlxIns\<close> fails on it, and the
  specification has no step out of \<open>Closed\<close>.
\<close>

theorem closed_terminal:
  assumes "abs_handle h = Closed"
  shows "CloseDB ok h = (h, Some NotInitialized) \<and> GetSqlxIns h = Inl NotInitialized \<and>
         (\<forall>p. \<not> spec_step Closed p)"
  using assms by (auto simp: abs_handle_def CloseDB_def GetSqlxIns_def elim: spec_step_ClosedE split: if_splits)

theorem closed_terminal_witness:
  "CloseDB True \<lparr>DB = None, IsDBInitialized = True, DatabaseType = DB_TYPE_MYSQL\<rparr> =
     (\<lparr>DB = None, IsDBInitialized = True, DatabaseType = DB_TYPE_MYSQL\<rparr>, Some NotInitialized)"
  using closed_terminal [of "\<lparr>DB = None, IsDBInitialized = True, DatabaseType = DB_TYPE_MYSQL\<rparr>" True]
  by (simp add: abs_handle_def)

text \<open>
  C7: \<open>NewDB\<close> refines the specification's bootstrap: when the configuration does not name
  Postgres, its result stands for a phase the specification reaches from
  \<open>Uninitialized\<close> (\<open>Ready\<close> for a handle, \<open>Failed\<close> for a bootstrap error,
  \<open>Uninitialized\<close> for a configuration error), never \<open>Closed\<close>.
\<close>

theorem NewDB_refines:
  assumes "\<forall>cfg. snd (LoadDBConfig codec os dir) = Inr cfg \<longrightarrow> Type cfg \<noteq> DB_TYPE_POSTGRES"
  shows "new_phase (snd (snd (NewDB codec env lib os now dir))) \<noteq> Closed \<and>
         spec_step\<^sup>*\<^sup>* Uninitialized (new_phase (snd (snd (NewDB codec env lib os now dir))))"
proof (cases "snd (snd (NewDB codec env lib os now dir))")
  case (Inl e)
  then show ?thesis
    using new_phase_Inl [of e] spec_reach_Failed by auto
next
  case (Inr h)
  with NewDB_cases [OF Inr] assms
  have "h = \<lparr>DB = Some 1, IsDBInitialized = True, DatabaseType = DB_TYPE_MYSQL\<rparr>" by auto
  with Inr show ?thesis using spec_reach_Ready by (simp add: abs_handle_def)
qed

theorem NewDB_refines_witness:
  "new_phase (snd (snd (NewDB demo_codec demo_env demo_lib demo_os 0 ''./''))) \<noteq> Closed \<and>
   spec_step\<^sup>*\<^sup>* Uninitialized (new_phase (snd (snd (NewDB demo_codec demo_env demo_lib demo_os 0 ''./''))))"
  using NewDB_refines [of demo_codec demo_os "''./''" demo_env demo_lib 0] demo_first_load
  by (simp add: default_config_def DB_TYPE_def DB_TYPE_POSTGRES_def)

text \<open>
  C29: The Postgres branch returns, with no connection and no event, a handle flagged
  initialised that \<open>GetSqlxIns\<close> and \<open>CloseDB\<close> both reject: in the specification's
  terms a handle that is already \<open>Closed\<close>.
\<close>

theorem NewDB_postgres_stub:
  assumes "LoadDBConfig codec os dir = (os', Inr cfg)" "Type cfg = DB_TYPE_POSTGRES"
  shows "NewDB codec env lib os now dir =
           (os', [], Inr \<lparr>DB = None, IsDBInitialized = True, DatabaseType = DB_TYPE_POSTGRES\<rparr>) \<and>
         GetSqlxIns \<lparr>DB = None, IsDBInitialized = True, DatabaseType = DB_TYPE_POSTGRES\<rparr> = Inl NotInitialized \<and>
         snd (CloseDB ok \<lparr>DB = None, IsDBInitialized = True, DatabaseType = DB_TYPE_POSTGRES\<rparr>) =
           Some NotInitialized \<and>
         abs_handle \<lparr>DB = None, IsDBInitialized = True, DatabaseType = DB_TYPE_POSTGRES\<rparr> = Closed"
  using assms
  by (simp add: NewDB_config DB_TYPE_MYSQL_def DB_TYPE_POSTGRES_def GetSqlxIns_def CloseDB_def abs_handle_def)

theorem NewDB_postgres_stub_witness:
  "NewDB postgres_codec demo_env demo_lib (demo_os\<lparr>os_files := [''/app/configs/dao.toml'' \<mapsto> ''x'']\<rparr>) 0 ''./'' =
     (demo_os\<lparr>os_files := [''/app/configs/dao.toml'' \<mapsto> ''x'']\<rparr>, [],
      Inr \<lparr>DB = None, IsDBInitialized = True, DatabaseType = DB_TYPE_POSTGRES\<rparr>)"
proof -
  have "LoadDBConfig postgres_codec (demo_os\<lparr>os_files := [''/app/configs/dao.toml'' \<mapsto> ''x'']\<rparr>) ''./'' =
      (demo_os\<lparr>os_files := [''/app/configs/dao.toml'' \<mapsto> ''x'']\<rparr>, Inr (default_config\<lparr>Type := ''postgres''\<rparr>))"
    using demo_load_existing [of postgres_codec "''x''"] by (simp add: postgres_codec_def)
  from NewDB_postgres_stub [OF this, of demo_env demo_lib 0 True] show ?thesis
    by (simp add: DB_TYPE_POSTGRES_def)
qed

text \<open>
  C30: A configuration naming any other driver makes \<open>NewDB\<close> fail with
  \<open>InvalidDBType\<close> carrying the offending name, without touching the server.
\<close>

theorem NewDB_invalid_type:
  assumes "LoadDBConfig codec os dir = (os', Inr cfg)"
    and "Type cfg \<noteq> DB_TYPE_MYSQL" "Type cfg \<noteq> DB_TYPE_POSTGRES"
  shows "NewDB codec env lib os now dir = (os', [], Inl (InvalidDBType (Type cfg)))"
  using assms by (simp add: NewDB_config)

theorem NewDB_invalid_type_witness:
  "NewDB sqlite_codec demo_env demo_lib (demo_os\<lparr>os_files := [''/app/configs/dao.toml'' \<mapsto> ''x'']\<rparr>) 0 ''./'' =
     (demo_os\<lparr>os_files := [''/app/configs/dao.toml'' \<mapsto> ''x'']\<rparr>, [], Inl (InvalidDBType ''sqlite''))"
proof -
  have "LoadDBConfig sqlite_codec (demo_os\<lparr>os_files := [''/app/configs/dao.toml'' \<mapsto> ''x'']\<rparr>) ''./'' =
      (demo_os\<lparr>os_files := [''/app/configs/dao.toml'' \<mapsto> ''x'']\<rparr>, Inr (default_config\<lparr>Type := ''sqlite''\<rparr>))"
    using demo_load_existing [of sqlite_codec "''x''"] by (simp add: sqlite_codec_def)
  from NewDB_invalid_type [OF this, of demo_env demo_lib 0] show ?thesis
    by (simp add: DB_TYPE_MYSQL_def DB_TYPE_POSTGRES_def)
qed

text \<open>
  C31: An error of the configuration loader is returned by \<open>NewDB\<close> as it is, before any
  connection.
\<close>

theorem NewDB_config_error:
  assumes "LoadDBConfig codec os dir = (os', Inl e)"
  shows "NewDB codec env lib os now dir = (os', [], Inl e)"
  using assms by (simp add: NewDB_config)

theorem NewDB_config_error_witness:
  "NewDB demo_codec demo_env demo_lib (demo_os\<lparr>os_files := [''/app/configs/dao.toml'' \<mapsto> ''x'']\<rparr>) 0 ''./'' =
     (demo_os\<lparr>os_files := [''/app/configs/dao.toml'' \<mapsto> ''x'']\<rparr>, [], Inl ConfigDecodeFailed)"
proof -
  have "LoadDBConfig demo_codec (demo_os\<lparr>os_files := [''/app/configs/dao.toml'' \<mapsto> ''x'']\<rparr>) ''./'' = (demo_os\<lparr>os_files := [''/app/configs/dao.toml'' \<mapsto> ''x'']\<rparr>, Inl ConfigDecodeFailed)"
    using demo_load_existing [of demo_codec "''x''"] by (simp add: demo_codec_def)
  from NewDB_config_error [OF this] show ?thesis .
qed

end
