(* ===== verification/Dao_Main.thy ===== *)
theory Dao_Main
  imports Dao_Handle
begin

text \<open>
  The demonstration driver \<open>main\<close> of \<open>src/main.go\<close>: it opens the handle with
  \<open>NewDB("./")\<close>, defers \<open>CloseDB\<close>, and runs four blocks against the pool (drop and
  create the \<open>users\<close> table in a transaction, one named insert, one named query, a bulk
  insert of 100 rows in a transaction followed by a full scan). The SQL server is the
  library side: a state holding the \<open>users\<close> table, its \<open>AUTO_INCREMENT\<close> counter and the
  rows saved when the open transaction began, with an oracle saying which calls fail.
  What the program prints, and the deferred close, form its trace.
\<close>

section \<open>The SQL server\<close>

text \<open>\<^verbatim>\<open>type Users struct { ID int64; Name string; F1 string; F2 string }\<close>\<close>

record Users =
  ID :: int
  Name :: string
  F1 :: string
  F2 :: string

datatype sql_op =
    Begin
  | Commit
  | DropUsers
  | CreateUsers
  | InsertUser string string string
  | SelectByName string
  | SelectAll

datatype sql_error = ServerError sql_op | TableExists | NoSuchTable

text \<open>
  \<open>srv_snap\<close> is \<open>Some t\<close> while a transaction is open, \<open>t\<close> being the table when it
  began; DDL statements commit implicitly, as in MySQL.
\<close>

record sql_server =
  srv_users :: "Users list option"
  srv_next :: int
  srv_snap :: "Users list option option"
  srv_fail :: "sql_op \<Rightarrow> bool"

definition sql_exec :: "sql_server \<Rightarrow> sql_op \<Rightarrow> sql_error + (sql_server \<times> int \<times> Users list)" where
  "sql_exec srv op =
     (if srv_fail srv op then Inl (ServerError op)
      else case op of
        Begin \<Rightarrow> Inr (srv\<lparr>srv_snap := Some (srv_users srv)\<rparr>, 0, [])
      | Commit \<Rightarrow> Inr (srv\<lparr>srv_snap := None\<rparr>, 0, [])
      | DropUsers \<Rightarrow> Inr (srv\<lparr>srv_users := None, srv_snap := None\<rparr>, 0, [])
      | CreateUsers \<Rightarrow>
          (case srv_users srv of
             Some _ \<Rightarrow> Inl TableExists
           | None \<Rightarrow> Inr (srv\<lparr>srv_users := Some [], srv_next := 1, srv_snap := None\<rparr>, 0, []))
      | InsertUser n a b \<Rightarrow>
          (case srv_users srv of
             None \<Rightarrow> Inl NoSuchTable
           | Some us \<Rightarrow>
               Inr (srv\<lparr>srv_users := Some (us @ [\<lparr>ID = srv_next srv, Name = n, F1 = a, F2 = b\<rparr>]),
                        srv_next := srv_next srv + 1\<rparr>, 1, []))
      | SelectByName n \<Rightarrow>
          (case srv_users srv of
             None \<Rightarrow> Inl NoSuchTable
           | Some us \<Rightarrow> Inr (srv, 0, filter (\<lambda>u. Name u = n) us))
      | SelectAll \<Rightarrow>
          (case srv_users srv of None \<Rightarrow> Inl NoSuchTable | Some us \<Rightarrow> Inr (srv, 0, us)))"

text \<open>
  The server rolls an open transaction back when its connection goes away; the
  \<open>AUTO_INCREMENT\<close> counter is not rolled back (InnoDB).
\<close>

definition rollback :: "sql_server \<Rightarrow> sql_server" where
  "rollback srv = (case srv_snap srv of None \<Rightarrow> srv | Some t \<Rightarrow> srv\<lparr>srv_users := t, srv_snap := None\<rparr>)"

text \<open>\<open>tx.Commit()\<close> with its error ignored: a failed commit leaves the work rolled back.\<close>

definition commit_ignored :: "sql_server \<Rightarrow> sql_server" where
  "commit_ignored srv = (case sql_exec srv Commit of Inl _ \<Rightarrow> rollback srv | Inr (s, _, _) \<Rightarrow> s)"

section \<open>The program\<close>

datatype out_line =
    OutText string
  | OutDaoErr dao_error
  | OutSqlErr sql_error
  | OutAffected string int
  | OutUser Users
  | DeferClose

text \<open>
  How the program ends: by returning from \<open>main\<close>; by a panic of \<open>MustBegin\<close> or
  \<open>MustExec\<close> (deferred calls still run); by the panic of \<open>NewDB\<close>, before anything is
  printed or deferred (\<open>Crashed\<close>); or not at all, waiting forever for a connection
  (\<open>Blocked\<close>).
\<close>

datatype main_exit = Exited | Panicked sql_error | Crashed | Blocked

type_synonym block_res = "sql_server \<times> out_line list \<times> main_exit option"

text \<open>Sequencing of the blocks: \<open>Some x\<close> is a \<open>return\<close> (or panic) that skips the rest.\<close>

fun and_then :: "block_res \<Rightarrow> (sql_server \<Rightarrow> block_res) \<Rightarrow> block_res" where
  "and_then (s, out, None) f = (case f s of (s', out', r) \<Rightarrow> (s', out @ out', r))"
| "and_then (s, out, Some x) f = (s, out, Some x)"

text \<open>
  The limit \<open>SetMaxOpenConns\<close> last set on the pool (connection 1), 0 (none) when never
  set; \<open>database/sql\<close> reads a value up to 0 as no limit.
\<close>

definition pool_max_open :: "db_event list \<Rightarrow> int" where
  "pool_max_open evs =
     fold (\<lambda>ev n. case ev of SetMaxOpen c k \<Rightarrow> if c = 1 then k else n | _ \<Rightarrow> n) evs 0"

text \<open>
  Lines 34-64: \<open>Begin\<close>, \<open>tx.Exec(drop)\<close>, \<open>RowsAffected\<close> (which the MySQL driver
  never fails), the \<open>CREATE TABLE\<close> on the pool, \<open>tx.Commit()\<close> unchecked. The
  transaction holds one connection of the pool until it commits; with a limit of one
  connection the pool's \<open>Exec\<close> waits for it forever.
\<close>

definition tx_block :: "int \<Rightarrow> sql_server \<Rightarrow> block_res" where
  "tx_block max_open srv =
     (case sql_exec srv Begin of
        Inl e \<Rightarrow> (srv, [OutSqlErr e], Some Exited)
      | Inr (s1, _, _) \<Rightarrow>
          (case sql_exec s1 DropUsers of
             Inl e \<Rightarrow> (s1, [OutSqlErr e], Some Exited)
           | Inr (s2, affected, _) \<Rightarrow>
               if max_open = 1 then (s2, [OutAffected ''affected:'' affected], Some Blocked)
               else
                 (case sql_exec s2 CreateUsers of
                    Inl e \<Rightarrow> (s2, [OutAffected ''affected:'' affected, OutSqlErr e], Some Exited)
                  | Inr (s3, _, _) \<Rightarrow> (commit_ignored s3, [OutAffected ''affected:'' affected], None))))"

text \<open>Lines 66-83: the named insert of one row.\<close>

definition insert_block :: "sql_server \<Rightarrow> block_res" where
  "insert_block srv =
     (case sql_exec srv (InsertUser ''Bin'' ''Smuth'' ''bensmith@allblacks.nz'') of
        Inl e \<Rightarrow> (srv, [OutSqlErr e], Some Exited)
      | Inr (s1, affected, _) \<Rightarrow> (s1, [OutAffected ''MustExec affected:'' affected], None))"

text \<open>Lines 85-102: the named query; \<open>StructScan\<close> cannot fail on these four columns,
  so its \<open>log.Fatalln\<close> is not reached.\<close>

definition query_block :: "sql_server \<Rightarrow> block_res" where
  "query_block srv =
     (case sql_exec srv (SelectByName ''Bin'') of
        Inl e \<Rightarrow> (srv, [OutSqlErr e], Some Exited)
      | Inr (s1, _, rows) \<Rightarrow> (s1, map OutUser rows, None))"

text \<open>\<open>fmt.Sprintf("%d", n)\<close> for a natural number.\<close>

fun go_itoa :: "nat \<Rightarrow> string" where
  "go_itoa n = (if n < 10 then [char_of (48 + n)] else go_itoa (n div 10) @ [char_of (48 + n mod 10)])"

declare go_itoa.simps [simp del]

definition jason_op :: "nat \<Rightarrow> sql_op" where
  "jason_op i = InsertUser (''Jason-'' @ go_itoa (Suc i)) (''Moiron-'' @ go_itoa (Suc i))
                           (''jmoiron-'' @ go_itoa (Suc i))"

text \<open>Lines 108-113: \<open>tx.MustExec\<close> for each \<open>i\<close>; the first error panics.\<close>

primrec bulk_insert :: "sql_server \<Rightarrow> nat list \<Rightarrow> (sql_server \<times> sql_error) + sql_server" where
  "bulk_insert s [] = Inr s"
| "bulk_insert s (i # ns) =
     (case sql_exec s (jason_op i) of
        Inl e \<Rightarrow> Inl (s, e)
      | Inr (s', _, _) \<Rightarrow> bulk_insert s' ns)"

text \<open>Lines 104-132: \<open>MustBegin\<close>, the 100 inserts, \<open>tx.Commit()\<close> unchecked, the scan.\<close>

definition bulk_block :: "sql_server \<Rightarrow> block_res" where
  "bulk_block srv =
     (let out0 = [OutText ''###########################'']
      in case sql_exec srv Begin of
           Inl e \<Rightarrow> (srv, out0, Some (Panicked e))
         | Inr (s1, _, _) \<Rightarrow>
             (case bulk_insert s1 [0..<100] of
                Inl (s2, e) \<Rightarrow> (s2, out0, Some (Panicked e))
              | Inr s2 \<Rightarrow>
                  (let s3 = commit_ignored s2
                   in case sql_exec s3 SelectAll of
                        Inl e \<Rightarrow> (s3, out0 @ [OutSqlErr e], Some Exited)
                      | Inr (s4, _, rows) \<Rightarrow> (s4, out0 @ map OutUser rows, None))))"

text \<open>Lines 27-132, after the handle is open.\<close>

definition main_body :: "int \<Rightarrow> SqlxDB \<Rightarrow> sql_server \<Rightarrow> block_res" where
  "main_body max_open db srv =
     (case GetSqlxIns db of
        Inl e \<Rightarrow> (srv, [OutDaoErr e], Some Exited)
      | Inr _ \<Rightarrow>
          and_then (and_then (and_then (tx_block max_open srv) insert_block) query_block) bulk_block)"

text \<open>
  Lines 17-133: the whole program. It returns the file system, the bootstrap's events,
  the server after the deferred \<open>CloseDB\<close> (which drops the pool and with it any open
  transaction), the trace and how it ended. The pool's limit is the one the bootstrap set.
  A panic of \<open>NewDB\<close> ends the process before line 21 prints; a blocked run never reaches
  its deferred close.
\<close>

definition main ::
  "toml_codec \<Rightarrow> db_env \<Rightarrow> crypto_lib \<Rightarrow> os_state \<Rightarrow> int \<Rightarrow> sql_server
   \<Rightarrow> os_state \<times> db_event list \<times> sql_server \<times> out_line list \<times> main_exit" where
  "main codec env lib os now srv =
     (case NewDB codec env lib os now ''./'' of
        (os', evs, Inl e) \<Rightarrow>
          if e = NilErrorDeref then (os', evs, srv, [], Crashed)
          else (os', evs, srv, [OutDaoErr e], Exited)
      | (os', evs, Inr db) \<Rightarrow>
          (case main_body (pool_max_open evs) db srv of
             (srv', out, r) \<Rightarrow>
               if r = Some Blocked then (os', evs, srv', OutText ''connect db success'' # out, Blocked)
               else (os', evs, rollback srv', OutText ''connect db success'' # out @ [DeferClose],
                     case r of None \<Rightarrow> Exited | Some x \<Rightarrow> x)))"

section \<open>Observations\<close>

text \<open>The rows the program writes: Bin's, then the bulk rows numbered from a given id.\<close>

definition bin_user :: "int \<Rightarrow> Users" where
  "bin_user k = \<lparr>ID = k, Name = ''Bin'', F1 = ''Smuth'', F2 = ''bensmith@allblacks.nz''\<rparr>"

fun jason_rows :: "int \<Rightarrow> nat list \<Rightarrow> Users list" where
  "jason_rows k [] = []"
| "jason_rows k (i # ns) =
     \<lparr>ID = k, Name = ''Jason-'' @ go_itoa (Suc i), F1 = ''Moiron-'' @ go_itoa (Suc i),
      F2 = ''jmoiron-'' @ go_itoa (Suc i)\<rparr> # jason_rows (k + 1) ns"

fun is_err :: "out_line \<Rightarrow> bool" where
  "is_err (OutDaoErr _) = True"
| "is_err (OutSqlErr _) = True"
| "is_err _ = False"

text \<open>A trace obeys \<open>err_ok\<close> when an error can only be its last line, and one there ends the
  program.\<close>

definition err_ok :: "out_line list \<Rightarrow> main_exit option \<Rightarrow> bool" where
  "err_ok out r \<longleftrightarrow> list_all (\<lambda>l. \<not> is_err l) (butlast out) \<and>
     (out \<noteq> [] \<and> is_err (last out) \<longrightarrow> r = Some Exited)"

text \<open>A server for examples: no table yet, nothing fails.\<close>

definition healthy_srv :: sql_server where
  "healthy_srv = \<lparr>srv_users = None, srv_next = 1, srv_snap = None, srv_fail = (\<lambda>_. False)\<rparr>"

text \<open>A codec that reads every file as the defaults with a pool of one connection.\<close>

definition single_conn_codec :: toml_codec where
  "single_conn_codec = \<lparr>toml_decode = \<lambda>_. Some (default_config\<lparr>MaxOpen := 1\<rparr>),
     toml_encode = \<lambda>_. Some ''defaults''\<rparr>"

section \<open>Lemmas\<close>

lemma sql_exec_insert:
  "\<not> srv_fail s (InsertUser n a b) \<Longrightarrow> srv_users s = Some us \<Longrightarrow>
   sql_exec s (InsertUser n a b) =
     Inr (s\<lparr>srv_users := Some (us @ [\<lparr>ID = srv_next s, Name = n, F1 = a, F2 = b\<rparr>]),
            srv_next := srv_next s + 1\<rparr>, 1, [])"
  by (simp add: sql_exec_def)

lemma sql_exec_jason_snap:
  "sql_exec s (jason_op i) = Inr (s', x) \<Longrightarrow> srv_snap s' = srv_snap s \<and> srv_fail s' = srv_fail s"
  by (auto simp: sql_exec_def jason_op_def split: if_splits option.splits)

lemma bulk_insert_ok:
  "(\<forall>i \<in> set ns. \<not> srv_fail s (jason_op i)) \<Longrightarrow> srv_users s = Some us \<Longrightarrow>
   bulk_insert s ns =
     Inr (s\<lparr>srv_users := Some (us @ jason_rows (srv_next s) ns),
            srv_next := srv_next s + int (length ns)\<rparr>)"
proof (induction "ns" arbitrary: s us)
  case Nil
  then show ?case by simp
next
  case (Cons i ns)
  let ?row = "\<lparr>ID = srv_next s, Name = ''Jason-'' @ go_itoa (Suc i),
      F1 = ''Moiron-'' @ go_itoa (Suc i), F2 = ''jmoiron-'' @ go_itoa (Suc i)\<rparr>"
  have ex: "sql_exec s (jason_op i) =
      Inr (s\<lparr>srv_users := Some (us @ [?row]), srv_next := srv_next s + 1\<rparr>, 1, [])"
    using Cons.prems by (simp add: jason_op_def sql_exec_insert)
  let ?s' = "s\<lparr>srv_users := Some (us @ [?row]), srv_next := srv_next s + 1\<rparr>"
  have "bulk_insert ?s' ns =
      Inr (?s'\<lparr>srv_users := Some ((us @ [?row]) @ jason_rows (srv_next ?s') ns),
              srv_next := srv_next ?s' + int (length ns)\<rparr>)"
    using Cons.prems by (intro Cons.IH) simp_all
  with ex show ?case by (simp add: add.assoc)
qed

lemma bulk_insert_snap:
  "bulk_insert s ns = Inl (s', e) \<Longrightarrow> srv_snap s' = srv_snap s"
proof (induction "ns" arbitrary: s)
  case Nil
  then show ?case by simp
next
  case (Cons i ns)
  then show ?case
    by (cases "sql_exec s (jason_op i)") (auto dest: sql_exec_jason_snap)
qed

lemma tx_block_ok:
  "max_open \<noteq> 1 \<Longrightarrow>
   \<not> srv_fail srv Begin \<Longrightarrow> \<not> srv_fail srv DropUsers \<Longrightarrow> \<not> srv_fail srv CreateUsers \<Longrightarrow>
   tx_block max_open srv = (srv\<lparr>srv_users := Some [], srv_next := 1, srv_snap := None\<rparr>,
                   [OutAffected ''affected:'' 0], None)"
  by (simp add: tx_block_def sql_exec_def commit_ignored_def rollback_def)

lemma tx_block_blocked:
  "\<not> srv_fail srv Begin \<Longrightarrow> \<not> srv_fail srv DropUsers \<Longrightarrow>
   tx_block 1 srv = (srv\<lparr>srv_users := None, srv_snap := None\<rparr>, [OutAffected ''affected:'' 0], Some Blocked)"
  by (simp add: tx_block_def sql_exec_def)

lemma insert_block_ok:
  "\<not> srv_fail srv (InsertUser ''Bin'' ''Smuth'' ''bensmith@allblacks.nz'') \<Longrightarrow> srv_users srv = Some us \<Longrightarrow>
   insert_block srv =
     (srv\<lparr>srv_users := Some (us @ [bin_user (srv_next srv)]), srv_next := srv_next srv + 1\<rparr>,
      [OutAffected ''MustExec affected:'' 1], None)"
  by (simp add: insert_block_def sql_exec_insert bin_user_def)

lemma query_block_ok:
  "\<not> srv_fail srv (SelectByName ''Bin'') \<Longrightarrow> srv_users srv = Some us \<Longrightarrow>
   query_block srv = (srv, map OutUser (filter (\<lambda>u. Name u = ''Bin'') us), None)"
  by (simp add: query_block_def sql_exec_def)

lemma bulk_block_ok:
  assumes "\<forall>op. op \<noteq> Commit \<longrightarrow> \<not> srv_fail srv op" "srv_users srv = Some us"
  shows "bulk_block srv =
     (srv\<lparr>srv_users := Some (if srv_fail srv Commit then us else us @ jason_rows (srv_next srv) [0..<100]),
          srv_next := srv_next srv + 100, srv_snap := None\<rparr>,
      OutText ''###########################'' #
        map OutUser (if srv_fail srv Commit then us else us @ jason_rows (srv_next srv) [0..<100]),
      None)"
proof -
  let ?s1 = "srv\<lparr>srv_snap := Some (Some us)\<rparr>"
  have b: "sql_exec srv Begin = Inr (?s1, 0, [])"
    using assms by (simp add: sql_exec_def)
  have "bulk_insert ?s1 [0..<100] =
      Inr (?s1\<lparr>srv_users := Some (us @ jason_rows (srv_next srv) [0..<100]), srv_next := srv_next srv + 100\<rparr>)"
    using assms bulk_insert_ok [of "[0..<100]" ?s1 us] by (simp add: jason_op_def)
  with b assms show ?thesis
    by (simp add: bulk_block_def commit_ignored_def rollback_def sql_exec_def)
qed

text \<open>A run in which only \<open>Commit\<close> may fail, from an open handle.\<close>

lemma main_run_commit:
  assumes "NewDB codec env lib os now ''./'' = (os', evs, Inr db)" "GetSqlxIns db = Inr c"
    and "pool_max_open evs \<noteq> 1" "\<forall>op. op \<noteq> Commit \<longrightarrow> \<not> srv_fail srv op"
  shows "main codec env lib os now srv =
     (os', evs,
      srv\<lparr>srv_users := Some (bin_user 1 # (if srv_fail srv Commit then [] else jason_rows 2 [0..<100])),
          srv_next := 102, srv_snap := None\<rparr>,
      [OutText ''connect db success'', OutAffected ''affected:'' 0, OutAffected ''MustExec affected:'' 1,
       OutUser (bin_user 1), OutText ''###########################''] @
      map OutUser (bin_user 1 # (if srv_fail srv Commit then [] else jason_rows 2 [0..<100])) @ [DeferClose],
      Exited)"
proof -
  let ?s1 = "srv\<lparr>srv_users := Some [], srv_next := 1, srv_snap := None\<rparr>"
  let ?s2 = "?s1\<lparr>srv_users := Some [bin_user 1], srv_next := 2\<rparr>"
  have t: "tx_block (pool_max_open evs) srv = (?s1, [OutAffected ''affected:'' 0], None)"
    using assms(3,4) by (intro tx_block_ok) simp_all
  have i: "insert_block ?s1 = (?s2, [OutAffected ''MustExec affected:'' 1], None)"
    using assms(4) insert_block_ok [of ?s1 "[]"] by simp
  have q: "query_block ?s2 = (?s2, [OutUser (bin_user 1)], None)"
    using assms(4) query_block_ok [of ?s2 "[bin_user 1]"] by (simp add: bin_user_def)
  have b: "bulk_block ?s2 =
      (?s2\<lparr>srv_users := Some (bin_user 1 # (if srv_fail srv Commit then [] else jason_rows 2 [0..<100])),
           srv_next := 102, srv_snap := None\<rparr>,
       OutText ''###########################'' #
         map OutUser (bin_user 1 # (if srv_fail srv Commit then [] else jason_rows 2 [0..<100])), None)"
    using assms(4) bulk_block_ok [of ?s2 "[bin_user 1]"] by simp
  show ?thesis
    using assms(1,2) t i q b by (simp add: main_def main_body_def rollback_def)
qed

text \<open>The first run of \<open>NewDB\<close> with a pool of one connection.\<close>

lemma single_conn_NewDB:
  "NewDB single_conn_codec demo_env demo_lib (demo_os\<lparr>os_files := [''/app/configs/dao.toml'' \<mapsto> ''defaults'']\<rparr>) 0 ''./'' =
     (demo_os\<lparr>os_files := [''/app/configs/dao.toml'' \<mapsto> ''defaults'']\<rparr>,
      OpenConn 0 (strip_db_path DB_SOURCE) # retry_trace 0 2 @
        [Exec 0 (create_stmt (getDBName DB_SOURCE)), CloseConn 0, OpenConn 1 DB_SOURCE,
         SetMaxIdle 1 30, SetMaxOpen 1 1],
      Inr \<lparr>DB = Some 1, IsDBInitialized = True, DatabaseType = DB_TYPE_MYSQL\<rparr>)"
  using NewDB_config [OF demo_load_existing [of single_conn_codec "''defaults''"], of demo_env demo_lib 0]
    demo_bootstrap_cfg [of "default_config\<lparr>MaxOpen := 1\<rparr>" demo_lib _ 0]
  by (simp add: single_conn_codec_def default_config_def DB_TYPE_def DB_TYPE_MYSQL_def
      DB_TLS_ENABLED_def DB_MAXIDLE_def)

lemma map_ID_jason_rows: "map ID (jason_rows (int k) ns) = map int [k..<k + length ns]"
proof (induction ns arbitrary: k)
  case Nil
  then show ?case by simp
next
  case (Cons i ns)
  have "[k..<k + length (i # ns)] = k # [Suc k..<Suc k + length ns]"
    by (simp add: upt_conv_Cons del: upt_Suc)
  with Cons.IH [of "Suc k"] show ?case by (simp add: add.commute del: upt_Suc)
qed

lemma err_ok_split:
  "err_ok out r \<Longrightarrow> out = xs @ l # ys \<Longrightarrow> is_err l \<Longrightarrow> ys = [] \<and> r = Some Exited"
proof -
  assume ok: "err_ok out r" and eq: "out = xs @ l # ys" and l: "is_err l"
  have "ys = []"
  proof (rule ccontr)
    assume "ys \<noteq> []"
    with eq have "l \<in> set (butlast out)" by (simp add: butlast_append)
    with ok l show False by (auto simp: err_ok_def list_all_iff)
  qed
  with ok eq l show ?thesis by (simp add: err_ok_def)
qed

lemma err_ok_None: "err_ok out None \<Longrightarrow> list_all (\<lambda>l. \<not> is_err l) out"
  by (cases out rule: rev_cases) (auto simp: err_ok_def)

lemma err_ok_free: "list_all (\<lambda>l. \<not> is_err l) out \<Longrightarrow> err_ok out r"
  by (cases out rule: rev_cases) (auto simp: err_ok_def)

lemma err_ok_and_then:
  assumes "err_ok (fst (snd b)) (snd (snd b))"
    and "\<And>s. err_ok (fst (snd (f s))) (snd (snd (f s)))"
  shows "err_ok (fst (snd (and_then b f))) (snd (snd (and_then b f)))"
proof -
  obtain s out r where b: "b = (s, out, r)" by (cases b)
  show ?thesis
  proof (cases r)
    case None
    with assms(1) b have free: "list_all (\<lambda>l. \<not> is_err l) out"
      by (simp add: err_ok_None)
    obtain s' out' r' where f: "f s = (s', out', r')" by (cases "f s")
    from assms(2) [of s] f have ok': "err_ok out' r'" by simp
    have "err_ok (out @ out') r'"
    proof (cases "out' = []")
      case True
      with free show ?thesis by (simp add: err_ok_free)
    next
      case False
      with free ok' show ?thesis by (auto simp: err_ok_def butlast_append)
    qed
    with b None f show ?thesis by simp
  next
    case (Some x)
    with assms(1) b show ?thesis by simp
  qed
qed

lemma err_ok_blocks:
  "err_ok (fst (snd (tx_block mo s))) (snd (snd (tx_block mo s)))"
  "err_ok (fst (snd (insert_block s))) (snd (snd (insert_block s)))"
  "err_ok (fst (snd (query_block s))) (snd (snd (query_block s)))"
  "err_ok (fst (snd (bulk_block s))) (snd (snd (bulk_block s)))"
  by (auto simp: tx_block_def insert_block_def query_block_def bulk_block_def err_ok_def Let_def
      list_all_iff map_butlast [symmetric] last_map split: sum.splits prod.splits)

lemma err_ok_main_body: "err_ok (fst (snd (main_body mo db s))) (snd (snd (main_body mo db s)))"
proof (cases "GetSqlxIns db")
  case (Inl e)
  then show ?thesis by (simp add: main_body_def err_ok_def)
next
  case (Inr c)
  then show ?thesis
    by (simp add: main_body_def) (intro err_ok_and_then err_ok_blocks)
qed

text \<open>The blocks before the bulk insert never panic.\<close>

lemma no_panic_blocks:
  "snd (snd (tx_block mo s)) \<noteq> Some (Panicked e)"
  "snd (snd (insert_block s)) \<noteq> Some (Panicked e)"
  "snd (snd (query_block s)) \<noteq> Some (Panicked e)"
  by (auto simp: tx_block_def insert_block_def query_block_def split: sum.splits prod.splits)

lemma tx_block_None:
  "tx_block mo srv = (s, out, None) \<Longrightarrow> srv_users s = Some [] \<and> srv_next s = 1 \<and> srv_snap s = None"
  by (auto simp: tx_block_def sql_exec_def commit_ignored_def rollback_def
      split: sum.splits prod.splits if_splits option.splits)

lemma insert_block_None:
  "insert_block s = (s', out, None) \<Longrightarrow> srv_users s = Some [] \<Longrightarrow> srv_next s = 1 \<Longrightarrow>
   srv_snap s = None \<Longrightarrow> srv_users s' = Some [bin_user 1] \<and> srv_snap s' = None"
  by (auto simp: insert_block_def sql_exec_def bin_user_def split: sum.splits prod.splits if_splits)

lemma query_block_None: "query_block s = (s', out, None) \<Longrightarrow> s' = s"
  by (auto simp: query_block_def sql_exec_def split: sum.splits prod.splits if_splits option.splits)

lemma bulk_block_Panicked:
  assumes "bulk_block s = (s', out, Some (Panicked e))" "srv_snap s = None"
  shows "srv_users (rollback s') = srv_users s"
proof (cases "srv_fail s Begin")
  case True
  with assms show ?thesis by (simp add: bulk_block_def sql_exec_def rollback_def)
next
  case False
  let ?s1 = "s\<lparr>srv_snap := Some (srv_users s)\<rparr>"
  from False have b: "sql_exec s Begin = Inr (?s1, 0, [])" by (simp add: sql_exec_def)
  with assms obtain e' where "bulk_insert ?s1 [0..<100] = Inl (s', e')"
    by (auto simp: bulk_block_def Let_def split: sum.splits prod.splits)
  then have "srv_snap s' = Some (srv_users s)" by (auto dest: bulk_insert_snap)
  then show ?thesis by (simp add: rollback_def)
qed

lemma main_body_Panicked:
  assumes "main_body mo db srv = (s, out, Some (Panicked e))"
  shows "srv_users (rollback s) = Some [bin_user 1]"
proof -
  obtain c where "GetSqlxIns db = Inr c"
    using assms by (cases "GetSqlxIns db") (auto simp: main_body_def)
  with assms have chain: "and_then (and_then (and_then (tx_block mo srv) insert_block) query_block) bulk_block =
      (s, out, Some (Panicked e))" by (simp add: main_body_def)
  obtain s1 o1 r1 where t: "tx_block mo srv = (s1, o1, r1)" by (cases "tx_block mo srv")
  have r1: "r1 = None"
    using chain t no_panic_blocks(1) [of mo srv e] by (cases r1) auto
  obtain s2 o2 r2 where i: "insert_block s1 = (s2, o2, r2)" by (cases "insert_block s1")
  have r2: "r2 = None"
    using chain t r1 i no_panic_blocks(2) [of s1 e] by (cases r2) auto
  obtain s3 o3 r3 where q: "query_block s2 = (s3, o3, r3)" by (cases "query_block s2")
  have r3: "r3 = None"
    using chain t r1 i r2 q no_panic_blocks(3) [of s2 e] by (cases r3) auto
  obtain o4 where bk: "bulk_block s3 = (s, o4, Some (Panicked e))"
    using chain t r1 i r2 q r3 by (auto split: prod.splits)
  from tx_block_None [OF t [unfolded r1]] have s1: "srv_users s1 = Some []" "srv_next s1 = 1" "srv_snap s1 = None"
    by simp_all
  from insert_block_None [OF i [unfolded r2] s1] have s2: "srv_users s2 = Some [bin_user 1] \<and> srv_snap s2 = None" .
  from query_block_None [OF q [unfolded r3]] s2 have "srv_users s3 = Some [bin_user 1] \<and> srv_snap s3 = None"
    by simp
  with bulk_block_Panicked [OF bk] show ?thesis by simp
qed

section \<open>Properties\<close>

text \<open>
  C13: On a server where nothing fails, once the handle is open on a pool allowed more than
  one connection, the program prints the
  connection message, the drop's 0 affected rows, the insert's 1, Bin's row, the separator
  and the 101 rows of the table, with identifiers 1 to 101, then closes the handle; the table
  holds those rows.
\<close>

theorem main_healthy:
  assumes "NewDB codec env lib os now ''./'' = (os', evs, Inr db)" "GetSqlxIns db = Inr c"
    and "pool_max_open evs \<noteq> 1" "\<forall>op. \<not> srv_fail srv op"
  shows "main codec env lib os now srv =
     (os', evs, srv\<lparr>srv_users := Some (bin_user 1 # jason_rows 2 [0..<100]), srv_next := 102, srv_snap := None\<rparr>,
      [OutText ''connect db success'', OutAffected ''affected:'' 0, OutAffected ''MustExec affected:'' 1,
       OutUser (bin_user 1), OutText ''###########################''] @
      map OutUser (bin_user 1 # jason_rows 2 [0..<100]) @ [DeferClose], Exited) \<and>
     map ID (bin_user 1 # jason_rows 2 [0..<100]) = map int [1..<102]"
proof
  show "map ID (bin_user 1 # jason_rows 2 [0..<100]) = map int [1..<102]"
    using map_ID_jason_rows [of 2 "[0..<100]"] by (simp add: bin_user_def upt_conv_Cons)
qed (use main_run_commit [OF assms(1-3)] assms(4) in simp)

theorem main_healthy_witness:
  "fst (snd (snd (snd (main demo_codec demo_env demo_lib demo_os 0 healthy_srv)))) =
     [OutText ''connect db success'', OutAffected ''affected:'' 0, OutAffected ''MustExec affected:'' 1,
      OutUser (bin_user 1), OutText ''###########################''] @
     map OutUser (bin_user 1 # jason_rows 2 [0..<100]) @ [DeferClose]"
  using main_healthy [OF demo_NewDB, of 1 healthy_srv]
  by (simp add: GetSqlxIns_def healthy_srv_def pool_max_open_def)

text \<open>
  C32: \<open>tx.Commit()\<close>'s error is ignored: when only the commits fail (on a pool allowed more
  than one connection), the bulk insert is
  rolled back, yet the program prints no error and its scan shows Bin's row alone; the
  \<open>AUTO_INCREMENT\<close> counter has still moved on by 100.
\<close>

theorem main_commit_lost:
  assumes "NewDB codec env lib os now ''./'' = (os', evs, Inr db)" "GetSqlxIns db = Inr c"
    and "pool_max_open evs \<noteq> 1" "\<forall>op. srv_fail srv op \<longleftrightarrow> op = Commit"
  shows "main codec env lib os now srv =
     (os', evs, srv\<lparr>srv_users := Some [bin_user 1], srv_next := 102, srv_snap := None\<rparr>,
      [OutText ''connect db success'', OutAffected ''affected:'' 0, OutAffected ''MustExec affected:'' 1,
       OutUser (bin_user 1), OutText ''###########################'', OutUser (bin_user 1), DeferClose],
      Exited)"
  using main_run_commit [OF assms(1-3)] assms(4) by simp

theorem main_commit_lost_witness:
  "fst (snd (snd (snd (main demo_codec demo_env demo_lib demo_os 0
      (healthy_srv\<lparr>srv_fail := \<lambda>op. op = Commit\<rparr>))))) =
     [OutText ''connect db success'', OutAffected ''affected:'' 0, OutAffected ''MustExec affected:'' 1,
      OutUser (bin_user 1), OutText ''###########################'', OutUser (bin_user 1), DeferClose]"
  using main_commit_lost [OF demo_NewDB, of 1 "healthy_srv\<lparr>srv_fail := \<lambda>op. op = Commit\<rparr>"]
  by (simp add: GetSqlxIns_def healthy_srv_def pool_max_open_def)

text \<open>
  C14: Every error aborts the rest of the sequence: an error printed by the program is its
  last output but for the deferred close, and the program then returns normally.
\<close>

theorem main_errors_abort:
  assumes run: "main codec env lib os now srv = (os', evs, srv', out, ex)"
    and eq: "out = xs @ l # ys" and l: "is_err l"
  shows "ex = Exited \<and> (ys = [] \<or> ys = [DeferClose])"
proof (cases "snd (snd (NewDB codec env lib os now ''./''))")
  case (Inl e)
  with run eq show ?thesis
    by (auto simp: main_def Cons_eq_append_conv split: prod.splits sum.splits if_splits)
next
  case (Inr db)
  then obtain os0 evs0 where nd: "NewDB codec env lib os now ''./'' = (os0, evs0, Inr db)"
    by (cases "NewDB codec env lib os now ''./''") auto
  obtain s ob r where body: "main_body (pool_max_open evs0) db srv = (s, ob, r)"
    by (cases "main_body (pool_max_open evs0) db srv")
  have ok: "err_ok ob r" using err_ok_main_body [of "pool_max_open evs0" db srv] body by simp
  show ?thesis
  proof (cases "r = Some Blocked")
    case True
    with run nd body have "OutText ''connect db success'' # ob = xs @ l # ys"
      using eq by (simp add: main_def)
    with l obtain xs' where "ob = xs' @ l # ys" by (cases xs) auto
    from err_ok_split [OF ok this l] True show ?thesis by simp
  next
    case False
    with run nd body have out: "out = OutText ''connect db success'' # ob @ [DeferClose]"
      and exr: "ex = (case r of None \<Rightarrow> Exited | Some x \<Rightarrow> x)"
      by (simp_all add: main_def)
    have "ys \<noteq> []"
    proof
      assume "ys = []"
      with eq out l show False by simp
    qed
    then obtain ys' d where ys: "ys = ys' @ [d]" by (cases ys rule: rev_cases) auto
    with eq out have d: "d = DeferClose" and pre: "OutText ''connect db success'' # ob = xs @ l # ys'"
      by simp_all
    from pre l obtain xs' where "ob = xs' @ l # ys'"
      by (cases xs) auto
    from err_ok_split [OF ok this l] exr ys d show ?thesis by simp
  qed
qed

theorem main_errors_abort_witness:
  "snd (snd (snd (snd (main demo_codec demo_env demo_lib demo_os 0
      (healthy_srv\<lparr>srv_fail := \<lambda>op. op = InsertUser ''Bin'' ''Smuth'' ''bensmith@allblacks.nz''\<rparr>))))) = Exited"
proof -
  let ?srv = "healthy_srv\<lparr>srv_fail := \<lambda>op. op = InsertUser ''Bin'' ''Smuth'' ''bensmith@allblacks.nz''\<rparr>"
  let ?s1 = "?srv\<lparr>srv_users := Some [], srv_next := 1, srv_snap := None\<rparr>"
  let ?e = "ServerError (InsertUser ''Bin'' ''Smuth'' ''bensmith@allblacks.nz'')"
  have t: "tx_block 30 ?srv = (?s1, [OutAffected ''affected:'' 0], None)"
    by (rule tx_block_ok) (simp_all add: healthy_srv_def)
  have i: "insert_block ?s1 = (?s1, [OutSqlErr ?e], Some Exited)"
    by (simp add: insert_block_def sql_exec_def healthy_srv_def)
  have run: "main demo_codec demo_env demo_lib demo_os 0 ?srv =
      (demo_os\<lparr>os_files := [''/app/configs/dao.toml'' \<mapsto> ''defaults'']\<rparr>,
       OpenConn 0 (strip_db_path DB_SOURCE) # retry_trace 0 2 @
         [Exec 0 (create_stmt (getDBName DB_SOURCE)), CloseConn 0, OpenConn 1 DB_SOURCE,
          SetMaxIdle 1 30, SetMaxOpen 1 30],
       rollback ?s1,
       [OutText ''connect db success'', OutAffected ''affected:'' 0] @ OutSqlErr ?e # [DeferClose],
       Exited)"
    using t i by (simp add: main_def main_body_def demo_NewDB GetSqlxIns_def pool_max_open_def)
  from main_errors_abort [OF run refl] show ?thesis by (simp add: run)
qed

text \<open>
  C22: A panic of the bulk insert (or of its \<open>MustBegin\<close>) still runs the deferred close,
  and the close rolls the open transaction back: the table holds Bin's row alone, none of the
  rows inserted before the failure.
\<close>

theorem main_panic_rolls_back:
  assumes "main codec env lib os now srv = (os', evs, srv', out, Panicked e)"
  shows "srv_users srv' = Some [bin_user 1] \<and> last out = DeferClose"
proof (cases "snd (snd (NewDB codec env lib os now ''./''))")
  case (Inl e')
  with assms show ?thesis by (auto simp: main_def split: prod.splits sum.splits if_splits)
next
  case (Inr db)
  then obtain os0 evs0 where nd: "NewDB codec env lib os now ''./'' = (os0, evs0, Inr db)"
    by (cases "NewDB codec env lib os now ''./''") auto
  obtain s ob r where body: "main_body (pool_max_open evs0) db srv = (s, ob, r)"
    by (cases "main_body (pool_max_open evs0) db srv")
  with assms nd have "r = Some (Panicked e)" and "srv' = rollback s"
    and "out = OutText ''connect db success'' # ob @ [DeferClose]"
    by (auto simp: main_def split: if_splits option.splits)
  with body main_body_Panicked show ?thesis by auto
qed

theorem main_panic_rolls_back_witness:
  "srv_users (fst (snd (snd (main demo_codec demo_env demo_lib demo_os 0
      (healthy_srv\<lparr>srv_fail := \<lambda>op. op = jason_op 0\<rparr>))))) = Some [bin_user 1]"
proof -
  let ?srv = "healthy_srv\<lparr>srv_fail := \<lambda>op. op = jason_op 0\<rparr>"
  let ?s1 = "?srv\<lparr>srv_users := Some [], srv_next := 1, srv_snap := None\<rparr>"
  let ?s2 = "?s1\<lparr>srv_users := Some [bin_user 1], srv_next := 2\<rparr>"
  let ?s3 = "?s2\<lparr>srv_snap := Some (Some [bin_user 1])\<rparr>"
  have t: "tx_block 30 ?srv = (?s1, [OutAffected ''affected:'' 0], None)"
    by (rule tx_block_ok) (simp_all add: healthy_srv_def jason_op_def)
  have i: "insert_block ?s1 = (?s2, [OutAffected ''MustExec affected:'' 1], None)"
    using insert_block_ok [of ?s1 "[]"] by (simp add: healthy_srv_def jason_op_def)
  have q: "query_block ?s2 = (?s2, [OutUser (bin_user 1)], None)"
    using query_block_ok [of ?s2 "[bin_user 1]"] by (simp add: healthy_srv_def jason_op_def bin_user_def)
  have bi: "bulk_insert ?s3 [0..<100] = Inl (?s3, ServerError (jason_op 0))"
    by (simp add: upt_conv_Cons sql_exec_def healthy_srv_def del: upt_Suc)
  have b: "bulk_block ?s2 = (?s3, [OutText ''###########################''], Some (Panicked (ServerError (jason_op 0))))"
    using bi by (simp add: bulk_block_def sql_exec_def healthy_srv_def jason_op_def)
  obtain a c d where run: "main demo_codec demo_env demo_lib demo_os 0 ?srv =
      (a, c, rollback ?s3, d, Panicked (ServerError (jason_op 0)))"
    using t i q b by (simp add: main_def main_body_def demo_NewDB GetSqlxIns_def pool_max_open_def)
  from main_panic_rolls_back [OF run] run show ?thesis by simp
qed

text \<open>
  C33: When \<open>NewDB\<close> fails the program prints the error and returns, and when it panicked
  the process dies with nothing printed: in both cases the close is never deferred and the
  server is not touched.
\<close>

theorem main_newdb_error:
  assumes "NewDB codec env lib os now ''./'' = (os', evs, Inl e)"
  shows "main codec env lib os now srv =
           (if e = NilErrorDeref then (os', evs, srv, [], Crashed)
            else (os', evs, srv, [OutDaoErr e], Exited))"
  using assms by (simp add: main_def)

theorem main_newdb_error_witness:
  "main demo_codec demo_env demo_lib (demo_os\<lparr>os_files := [''/app/configs/dao.toml'' \<mapsto> ''x'']\<rparr>) 0 healthy_srv =
     (demo_os\<lparr>os_files := [''/app/configs/dao.toml'' \<mapsto> ''x'']\<rparr>, [], healthy_srv,
      [OutDaoErr ConfigDecodeFailed], Exited)"
proof -
  have "LoadDBConfig demo_codec (demo_os\<lparr>os_files := [''/app/configs/dao.toml'' \<mapsto> ''x'']\<rparr>) ''./'' =
      (demo_os\<lparr>os_files := [''/app/configs/dao.toml'' \<mapsto> ''x'']\<rparr>, Inl ConfigDecodeFailed)"
    using demo_load_existing [of demo_codec "''x''"] by (simp add: demo_codec_def)
  from NewDB_config [OF this, of demo_env demo_lib 0] have
    "NewDB demo_codec demo_env demo_lib (demo_os\<lparr>os_files := [''/app/configs/dao.toml'' \<mapsto> ''x'']\<rparr>) 0 ''./'' =
      (demo_os\<lparr>os_files := [''/app/configs/dao.toml'' \<mapsto> ''x'']\<rparr>, [], Inl ConfigDecodeFailed)"
    by simp
  from main_newdb_error [OF this] show ?thesis by simp
qed

text \<open>
  C34: With the pool limited to one connection, once the transaction's drop succeeds the
  program prints the connection message and the drop's 0 affected rows and then waits
  forever: line 52 sends the \<open>CREATE TABLE\<close> to the pool, whose only connection the open
  transaction holds. The deferred close never runs and the table is gone.
\<close>

theorem main_pool_deadlock:
  assumes "NewDB codec env lib os now ''./'' = (os', evs, Inr db)" "GetSqlxIns db = Inr c"
    and "pool_max_open evs = 1" "\<not> srv_fail srv Begin" "\<not> srv_fail srv DropUsers"
  shows "main codec env lib os now srv =
     (os', evs, srv\<lparr>srv_users := None, srv_snap := None\<rparr>,
      [OutText ''connect db success'', OutAffected ''affected:'' 0], Blocked)"
  using assms tx_block_blocked [OF assms(4,5)] by (simp add: main_def main_body_def)

theorem main_pool_deadlock_witness:
  "snd (snd (snd (snd (main single_conn_codec demo_env demo_lib
      (demo_os\<lparr>os_files := [''/app/configs/dao.toml'' \<mapsto> ''defaults'']\<rparr>) 0 healthy_srv)))) = Blocked"
  using main_pool_deadlock [OF single_conn_NewDB, of 1 healthy_srv]
  by (simp add: GetSqlxIns_def healthy_srv_def pool_max_open_def)

end
