(* ===== verification/Spec2Isabelle.thy ===== *)
theory Spec2Isabelle
  imports Dao_Mask Dao_Main
begin

text \<open>
  \<^bold>\<open>A verification model of devfabric/dao.\<close>

  The repository loads a TOML database configuration (\<open>src/config/config.go\<close>), opens a
  MySQL connection with an optional TLS profile, a retry loop and idempotent provisioning
  (\<open>src/dao/mysql.go\<close>, \<open>src/dao/dao.go\<close>), masks credentials in data source names
  for logging (\<open>MaskDBCred\<close> in \<open>src/dao/dao.go\<close>) and runs a demonstration
  (\<open>src/main.go\<close>). Control flows from \<open>NewDB\<close> through \<open>LoadDBConfig\<close> to
  \<open>NewUserRegistryMySQL\<close>, which calls \<open>getDBName\<close>, the \<open>/dbname\<close> stripping,
  \<open>GetClientTLSConfig\<close> and \<open>createMySQLDatabase\<close>; the caller then holds an
  \<open>SqlxDB\<close> handle and calls \<open>GetSqlxIns\<close> and \<open>CloseDB\<close>.

  Theories, leaf first:
  \<^item> \<open>Dao_Prelude\<close>: the error values (\<open>dao_error\<close>, one constructor per error return
    of the code), the Go \<open>strings\<close> functions the code calls (\<open>go_index\<close>,
    \<open>go_replace1\<close>, \<open>go_to_lower\<close>), the operating system as a record \<open>os_state\<close>
    (files, failing paths, read-only paths, working directory) with \<open>read_file\<close> and
    \<open>write_file\<close>. A panic is the error value \<open>NilErrorDeref\<close>, which every caller
    passes on unwrapped (\<open>wrap_err\<close>), as the stack unwinds in Go.
  \<^item> \<open>Go_Regexp\<close>: Go's \<open>regexp\<close> package for the four patterns of the code: syntax
    \<open>rx\<close>, a backtracking matcher \<open>mt\<close> that lists the matches at a position in
    leftmost-first preference order, \<open>search\<close>, \<open>FindStringSubmatch\<close>,
    \<open>FindStringSubmatchIndex\<close>, \<open>ReplaceAllString\<close> (as \<open>Regexp.replaceAll\<close>);
    a language semantics \<open>lang\<close> with soundness and completeness of \<open>mt\<close> and the fact
    that \<open>search\<close> fails exactly when no substring matches.
  \<^item> \<open>Dao_Mask\<close>: \<open>dbURLRegex\<close> and \<open>MaskDBCred\<close> (dao.go 24-26, 208-229).
  \<^item> \<open>Dao_Dsn\<close>: \<open>getDBName\<close>, \<open>strip_db_path\<close> (the inline
    \<open>ReplaceAllString\<close> of mysql.go 19-20) and \<open>getConnStr\<close> (mysql.go 144-166). The
    lemmas show where the leftmost-first search first matches; the properties give the
    extracted name of every ASCII path-style DSN and of every ASCII key-style DSN
    (lower-cased), and the stripped form of a DSN with one path segment.
  \<^item> \<open>Dao_Config\<close>: \<open>DataBaseConfig\<close>, the defaults, \<open>CheckFileIsExist\<close>,
    \<open>LoadDBConfig\<close> (config.go), \<open>filepath.Join/Clean/Abs\<close>; TOML is the interface
    record \<open>toml_codec\<close>. Properties: first run, the second run decoding what the first
    wrote, existing files never overwritten, decode errors.
  \<^item> \<open>Dao_Tls\<close>: \<open>GetX509CertificateFromPEM\<close>, \<open>checkCertDates\<close>,
    \<open>GetClientTLSConfig\<close> (dao.go 82-155); the crypto packages are the interface record
    \<open>crypto_lib\<close>. Properties: each error return, the nil-error panic of a failed
    append, and when the function succeeds.
  \<^item> \<open>Dao_Bootstrap\<close>: \<open>NewUserRegistryMySQL\<close> (mysql.go 15-75) with the retry loop
    \<open>ping_loop\<close>, \<open>createMySQLDatabase\<close>, \<open>createMySQLTables\<close>; the driver and server
    are the environment \<open>db_env\<close>, the effects a list of \<open>db_event\<close>s. Properties: the
    retry loop's pings and sleeps on every server behaviour, the provisioning sequence, the
    one statement executed only after a successful ping, the leaked connection.
  \<^item> \<open>Dao_Handle\<close>: \<open>NewDB\<close>, \<open>CloseDB\<close>, \<open>GetSqlxIns\<close> (dao.go 34-80). The handles
    reachable from \<open>NewDB\<close> by \<open>CloseDB\<close> are an inductive set with an invariant
    (\<open>handle_inv\<close>) proved by rule induction; the specification's state machine
    \<open>spec_step\<close> and the abstraction \<open>abs_handle\<close> give the refinement lemmas
    (\<open>CloseDB\<close> is the close step or a stutter, \<open>NewDB\<close> reaches a phase the
    specification reaches) and the error paths of the dispatch.
  \<^item> \<open>Dao_Main\<close>: the demonstration \<open>main\<close> of \<open>src/main.go\<close>, its four blocks with
    every early return, the panics of \<open>MustBegin\<close>/\<open>MustExec\<close> and the deferred
    \<open>CloseDB\<close>, against an executable SQL server state (\<open>sql_server\<close>: the \<open>users\<close>
    table, \<open>AUTO_INCREMENT\<close>, the open transaction's snapshot, an oracle of failing calls).
    The pool's \<open>SetMaxOpenConns\<close> limit is read off the bootstrap's events
    (\<open>pool_max_open\<close>); the program ends by returning, by a panic of the demo
    (\<open>Panicked\<close>), by the panic of \<open>NewDB\<close> (\<open>Crashed\<close>), or never
    (\<open>Blocked\<close>). Properties: the exact output of a healthy run, errors abort the
    sequence, a panic rolls the bulk insert back, an ignored commit error loses rows
    silently, a pool of one connection deadlocks the first block, a failing or panicking
    \<open>NewDB\<close>.
  \<^item> This theory: the first run of \<open>NewDB("./")\<close> end to end, from an empty file system to
    a \<open>Ready\<close> handle, across the loader, the DSN helpers and the bootstrapper.

  Bounds: the retry loop needs no fuel; it is a \<open>function\<close> whose termination measure is
  \<open>11 - count\<close>, the code's own bound; \<open>ReplaceAllString\<close>'s loop terminates by the
  measure \<open>length s + 1 - pos\<close>. Strings are byte strings. \<open>strings.ToLower\<close> is
  exact on ASCII strings (Go's fast path) and left unspecified (\<open>undefined\<close>) on others,
  so the properties of \<open>getDBName\<close> assume an ASCII DSN, as the default is. A run blocked
  forever is the exit value \<open>Blocked\<close>, not a diverging definition: the one wait the code
  can enter, the pool's \<open>Exec\<close> while the transaction holds the only connection, is
  decided by the limit. The demo's bulk insert is the code's fixed 100 rows.

  Not modelled: the concrete TOML syntax, PEM and X.509 formats (interfaces); the SQL
  library and server beyond the statements the demo issues; \<open>RowsAffected\<close> and
  \<open>StructScan\<close> errors, which the MySQL driver cannot produce for these statements and
  columns (so \<open>log.Fatalln\<close> is unreachable); \<open>getConnStr\<close> for replacement strings
  containing \<open>$\<close>, which the code never passes; Unicode case mapping
  (\<open>unicode.ToLower\<close>) of non-ASCII DSNs; connection-pool timing other than the
  one-connection wait.
\<close>

section \<open>Across the components\<close>

text \<open>The default data source names the database \<open>switch\<close>; without it the DSN keeps
  its parameters.\<close>

lemma default_dsn_name: "getDBName DB_SOURCE = ''switch''"
  unfolding DB_SOURCE_def by code_simp

lemma default_dsn_conn:
  "strip_db_path DB_SOURCE = ''root:Zsba@mysql2018*@tcp(127.0.0.1:3306)/?charset=utf8&parseTime=true''"
  unfolding DB_SOURCE_def by code_simp

text \<open>
  C4: A first run of \<open>NewDB("./")\<close> end to end: with no configuration file it writes the
  defaults, connects to the default server without a database, retries until the first
  answered ping, creates the database \<open>switch\<close>, reopens the configured DSN with 30 idle and
  30 open connections and returns a MySQL handle in the specification's phase \<open>Ready\<close>.
\<close>

theorem first_run_end_to_end:
  assumes "config_path os ''./'' = Some p" "\<not> CheckFileIsExist os p"
    and "toml_encode codec default_config = Some buf" "write_file os p buf = Some os'"
    and "open_ok env ''root:Zsba@mysql2018*@tcp(127.0.0.1:3306)/?charset=utf8&parseTime=true''"
    and "open_ok env DB_SOURCE" "k \<le> 11" "ping_ok env k" "\<forall>n<k. \<not> ping_ok env n"
    and "exec_ok env ''CREATE DATABASE IF NOT EXISTS switch''"
  shows "NewDB codec env lib os now ''./'' =
           (os', OpenConn 0 ''root:Zsba@mysql2018*@tcp(127.0.0.1:3306)/?charset=utf8&parseTime=true'' #
                 retry_trace 0 k @
                 [Exec 0 ''CREATE DATABASE IF NOT EXISTS switch'', CloseConn 0, OpenConn 1 DB_SOURCE,
                  SetMaxIdle 1 30, SetMaxOpen 1 30],
            Inr \<lparr>DB = Some 1, IsDBInitialized = True, DatabaseType = ''mysql''\<rparr>) \<and>
         read_file os' p = Some buf \<and>
         abs_handle \<lparr>DB = Some 1, IsDBInitialized = True, DatabaseType = ''mysql''\<rparr> = Ready"
proof -
  have load: "LoadDBConfig codec os ''./'' = (os', Inr default_config)"
    using assms(1-4) by (rule LoadDBConfig_fresh)
  have tls: "setup_tls lib os' now default_config = Inr []"
    by (simp add: setup_tls_def default_config_def DB_TLS_ENABLED_def)
  have pl: "ping_loop (ping_ok env) 0 = (retry_trace 0 k, True)"
    using assms(7-9) by (intro ping_loop_first_success) auto
  have boot: "NewUserRegistryMySQL env lib os' now DB_SOURCE default_config =
      (OpenConn 0 (strip_db_path DB_SOURCE) # retry_trace 0 k @ fst (provision env (getDBName DB_SOURCE) DB_SOURCE default_config),
       snd (provision env (getDBName DB_SOURCE) DB_SOURCE default_config))"
    using NewUserRegistryMySQL_connected [OF tls _ pl] assms(5) default_dsn_conn by simp
  have prov: "provision env (getDBName DB_SOURCE) DB_SOURCE default_config =
      ([Exec 0 ''CREATE DATABASE IF NOT EXISTS switch'', CloseConn 0, OpenConn 1 DB_SOURCE,
        SetMaxIdle 1 30, SetMaxOpen 1 30], Inr \<lparr>DB = Some 1, IsDBInitialized = True, DatabaseType = []\<rparr>)"
    using assms(6,10) default_dsn_name
    by (simp add: provision_def createMySQLDatabase_def createMySQLTables_def create_stmt_def
        default_config_def DB_MAXIDLE_def DB_MAXOPEN_def)
  have "NewDB codec env lib os now ''./'' =
      (os', OpenConn 0 ''root:Zsba@mysql2018*@tcp(127.0.0.1:3306)/?charset=utf8&parseTime=true'' #
            retry_trace 0 k @
            [Exec 0 ''CREATE DATABASE IF NOT EXISTS switch'', CloseConn 0, OpenConn 1 DB_SOURCE,
             SetMaxIdle 1 30, SetMaxOpen 1 30],
       Inr \<lparr>DB = Some 1, IsDBInitialized = True, DatabaseType = ''mysql''\<rparr>)"
    using NewDB_config [OF load, of env lib now] boot prov default_dsn_conn
    by (simp add: default_config_def DB_TYPE_def DB_TYPE_MYSQL_def)
  then show ?thesis
    using read_file_write_file [OF assms(4)] by (simp add: abs_handle_def)
qed

theorem first_run_end_to_end_witness:
  "NewDB demo_codec demo_env demo_lib demo_os 0 ''./'' =
     (demo_os\<lparr>os_files := [''/app/configs/dao.toml'' \<mapsto> ''defaults'']\<rparr>,
      OpenConn 0 ''root:Zsba@mysql2018*@tcp(127.0.0.1:3306)/?charset=utf8&parseTime=true'' #
        retry_trace 0 2 @
        [Exec 0 ''CREATE DATABASE IF NOT EXISTS switch'', CloseConn 0, OpenConn 1 DB_SOURCE,
         SetMaxIdle 1 30, SetMaxOpen 1 30],
      Inr \<lparr>DB = Some 1, IsDBInitialized = True, DatabaseType = ''mysql''\<rparr>)"
  using first_run_end_to_end [OF demo_path, of demo_codec "''defaults''"
      "demo_os\<lparr>os_files := [''/app/configs/dao.toml'' \<mapsto> ''defaults'']\<rparr>" demo_env 2 demo_lib 0]
  by (simp add: demo_os_def demo_codec_def demo_env_def CheckFileIsExist_def write_file_def)

end
